(* ===== verification/Prelude.thy ===== *)
theory Prelude
  imports
    Main
    "HOL-Library.Word"
    "HOL-Library.Multiset"
    "HOL-Library.AList"
    "HOL-Library.Sublist"
    "HOL-Library.Signed_Division"
begin

text \<open>
  Shared vocabulary of the development.  It fixes how the Go data the program uses is read in HOL:
  errors and panics, the fixed-width integers with their wrap-around, maps with their iteration
  order, and the contract of \<open>sort.Sort\<close>.  The lemmas of this theory are the automation that the
  component theories rely on; they are declared as simplification rules or collected under
  \<open>i32_simps\<close> (wrap-around arithmetic) and \<open>gomap_simps\<close> (maps).
\<close>

named_theorems i32_simps "wrap-around arithmetic on Go's int32"
named_theorems gomap_simps "Go maps as association lists"

section \<open>Errors and panics\<close>

text \<open>
  A Go function that returns an \<open>error\<close>, and a run-time panic (an index out of range, a negative
  slice capacity, a nil dereference), are both values of \<open>go_error\<close>; \<open>Inl\<close> of a result is the
  failing branch.
\<close>

datatype go_error = Errorf string | GoPanic string

type_synonym 'a result = "go_error + 'a"

definition bind_result :: "'a result \<Rightarrow> ('a \<Rightarrow> 'b result) \<Rightarrow> 'b result" where
  "bind_result r f = (case r of Inl e \<Rightarrow> Inl e | Inr x \<Rightarrow> f x)"

lemma bind_result_simps [simp]:
  "bind_result (Inl e) f = Inl e"
  "bind_result (Inr x) f = f x"
  by (simp_all add: bind_result_def)

text \<open>\<open>fmt.Errorf("message: %v", err)\<close>: an error gets a message in front; a panic stays one.\<close>

fun errorf_with :: "string \<Rightarrow> go_error \<Rightarrow> go_error" where
  "errorf_with msg (GoPanic p) = GoPanic p"
| "errorf_with msg (Errorf e) = Errorf (msg @ '': '' @ e)"

fun wrap_error :: "string \<Rightarrow> 'a result \<Rightarrow> 'a result" where
  "wrap_error msg (Inl e) = Inl (errorf_with msg e)"
| "wrap_error msg (Inr x) = Inr x"

lemma wrap_error_Inr [simp]: "wrap_error msg r = Inr x \<longleftrightarrow> r = Inr x" "isl (wrap_error msg r) = isl r"
  by (cases r; simp)+

lemma bind_result_Inr_iff: "bind_result r f = Inr y \<longleftrightarrow> (\<exists>x. r = Inr x \<and> f x = Inr y)"
  by (cases r) auto

definition is_panic :: "'a result \<Rightarrow> bool" where
  "is_panic r \<longleftrightarrow> (case r of Inl (GoPanic _) \<Rightarrow> True | _ \<Rightarrow> False)"

lemma is_panic_simps [simp]:
  "is_panic (Inl (GoPanic s))" "\<not> is_panic (Inl (Errorf s))" "\<not> is_panic (Inr x)"
  by (simp_all add: is_panic_def)

text \<open>Reading and writing an element of a slice; an index out of range panics.\<close>

definition slice_get :: "'a list \<Rightarrow> int \<Rightarrow> 'a result" where
  "slice_get xs i = (if 0 \<le> i \<and> i < int (length xs) then Inr (xs ! nat i) else Inl (GoPanic ''index out of range''))"

definition slice_set :: "'a list \<Rightarrow> int \<Rightarrow> 'a \<Rightarrow> 'a list result" where
  "slice_set xs i x = (if 0 \<le> i \<and> i < int (length xs) then Inr (xs[nat i := x]) else Inl (GoPanic ''index out of range''))"

lemma slice_in_range:
  "i < length xs \<Longrightarrow> slice_get xs (int i) = Inr (xs ! i)"
  "i < length xs \<Longrightarrow> slice_set xs (int i) x = Inr (xs[i := x])"
  by (simp_all add: slice_get_def slice_set_def)

section \<open>Fixed-width integers\<close>

text \<open>
  A Go \<open>int32\<close> is an \<open>int\<close> in \<open>[-2^31, 2^31)\<close>; every arithmetic operation of the source is
  followed by \<open>i32\<close>, which wraps as the machine does.  \<open>i64\<close> is the same for \<open>int\<close> and \<open>int64\<close>.
\<close>

definition i32 :: "int \<Rightarrow> int" where
  "i32 x = (x + 2 ^ 31) mod 2 ^ 32 - 2 ^ 31"

definition i64 :: "int \<Rightarrow> int" where
  "i64 x = (x + 2 ^ 63) mod 2 ^ 64 - 2 ^ 63"

definition in_i32 :: "int \<Rightarrow> bool" where
  "in_i32 x \<longleftrightarrow> - (2 ^ 31) \<le> x \<and> x < 2 ^ 31"

text \<open>Go's division truncates towards zero.\<close>

definition go_div :: "int \<Rightarrow> int \<Rightarrow> int" where
  "go_div a b = a sdiv b"

lemma i32_id: "- (2 ^ 31) \<le> x \<Longrightarrow> x < 2 ^ 31 \<Longrightarrow> i32 x = x"
  by (simp add: i32_def)

lemma i64_id: "- (2 ^ 63) \<le> x \<Longrightarrow> x < 2 ^ 63 \<Longrightarrow> i64 x = x"
  by (simp add: i64_def)

lemma in_i32_i32 [simp, intro]: "in_i32 (i32 x)"
proof -
  have "0 \<le> (x + 2 ^ 31) mod (2::int) ^ 32" and "(x + 2 ^ 31) mod (2::int) ^ 32 < 2 ^ 32"
    by (rule pos_mod_sign, simp) (rule pos_mod_bound, simp)
  then show ?thesis by (simp add: in_i32_def i32_def)
qed

lemma i32_in_i32 [i32_simps]: "in_i32 x \<Longrightarrow> i32 x = x"
  by (simp add: in_i32_def i32_id)

lemma i32_mod: "i32 x mod 2 ^ 32 = x mod 2 ^ 32"
  unfolding i32_def by (simp only: mod_diff_left_eq) simp

lemma i32_add_left [i32_simps]: "i32 (i32 x + y) = i32 (x + y)"
proof -
  have "(i32 x + y + 2 ^ 31) mod 2 ^ 32 = (i32 x mod 2 ^ 32 + (y + 2 ^ 31)) mod 2 ^ 32"
    by (simp only: mod_add_left_eq add.assoc)
  also have "\<dots> = (x + (y + 2 ^ 31)) mod 2 ^ 32"
    by (simp only: i32_mod mod_add_left_eq)
  finally show ?thesis
    unfolding i32_def [of "i32 x + y"] i32_def [of "x + y"] by (simp only: add.assoc)
qed

lemma i32_add_right [i32_simps]: "i32 (x + i32 y) = i32 (x + y)"
  using i32_add_left [of y x] by (simp add: add.commute)

lemma i32_i32 [simp]: "i32 (i32 x) = i32 x"
  using i32_add_left [of x 0] by simp

lemma i32_0 [simp]: "i32 0 = 0"
  by (simp add: i32_def)

text \<open>The wrap-around is the one of 32-bit words read in two's complement.\<close>

lemma i32_sint: "i32 x = sint (word_of_int x :: 32 word)"
proof -
  have "sint (word_of_int x :: 32 word) = signed_take_bit 31 x"
    by (simp add: signed_of_int)
  also have "\<dots> = i32 x"
    by (simp add: i32_def signed_take_bit_eq_take_bit_shift take_bit_eq_mod)
  finally show ?thesis by simp
qed

lemma go_div_nonneg: "0 \<le> a \<Longrightarrow> 0 < b \<Longrightarrow> go_div a b = a div b"
  by (cases "a = 0") (simp_all add: go_div_def signed_divide_int_def)

section \<open>Maps\<close>

text \<open>
  A Go map is an association list with distinct keys.  The order of the list is the order in which
  \<open>range\<close> visits the map: Go leaves that order open, so a statement about an arbitrary list holds
  for every order the run-time may choose.
\<close>

type_synonym ('k, 'v) gomap = "('k \<times> 'v) list"

definition map_ok :: "('k, 'v) gomap \<Rightarrow> bool" where
  "map_ok m \<longleftrightarrow> distinct (map fst m)"

definition mget :: "('k, 'v) gomap \<Rightarrow> 'k \<Rightarrow> 'v option" where
  "mget m k = map_of m k"

definition mset_to :: "('k, 'v) gomap \<Rightarrow> 'k \<Rightarrow> 'v \<Rightarrow> ('k, 'v) gomap" where
  "mset_to m k v = AList.update k v m"

definition mdel :: "('k, 'v) gomap \<Rightarrow> 'k \<Rightarrow> ('k, 'v) gomap" where
  "mdel m k = AList.delete k m"

text \<open>Reading an absent key of a map of slices or strings yields the zero value.\<close>

definition mget_default :: "'v \<Rightarrow> ('k, 'v) gomap \<Rightarrow> 'k \<Rightarrow> 'v" where
  "mget_default d m k = (case mget m k of None \<Rightarrow> d | Some v \<Rightarrow> v)"

abbreviation mget_list :: "('k, 'a list) gomap \<Rightarrow> 'k \<Rightarrow> 'a list" where
  "mget_list \<equiv> mget_default []"

text \<open>\<open>maps.Copy(dst, src)\<close>: every entry of the source is stored in the destination.\<close>

definition maps_Copy :: "('k, 'v) gomap \<Rightarrow> ('k, 'v) gomap \<Rightarrow> ('k, 'v) gomap" where
  "maps_Copy dst src = fold (\<lambda>(k, v) m. mset_to m k v) src dst"

lemma map_ok_Nil [simp]: "map_ok []"
  by (simp add: map_ok_def)

lemma map_ok_Cons [simp]: "map_ok ((k, v) # m) \<longleftrightarrow> k \<notin> fst ` set m \<and> map_ok m"
  by (simp add: map_ok_def)

lemma map_ok_mset_to [simp]: "map_ok m \<Longrightarrow> map_ok (mset_to m k v)"
  by (simp add: map_ok_def mset_to_def distinct_update)

lemma map_ok_mdel [simp]: "map_ok m \<Longrightarrow> map_ok (mdel m k)"
  by (simp add: map_ok_def mdel_def distinct_delete)

lemma mget_Nil [simp]: "mget [] k = None"
  by (simp add: mget_def)

lemma mget_Cons [simp]: "mget ((k', v) # m) k = (if k = k' then Some v else mget m k)"
  by (simp add: mget_def)

lemma mget_mset_to [simp, gomap_simps]: "mget (mset_to m k v) k' = (if k' = k then Some v else mget m k')"
  by (simp add: mget_def mset_to_def update_conv')

lemma mget_mdel [simp, gomap_simps]: "mget (mdel m k) k' = (if k' = k then None else mget m k')"
  by (auto simp: mget_def mdel_def delete_conv')

lemma mset_to_simps [simp]:
  "mset_to [] k v = [(k, v)]"
  "mset_to ((k', v') # m) k v = (if k' = k then (k, v) # m else (k', v') # mset_to m k v)"
  by (simp_all add: mset_to_def)

lemma mdel_simps [simp]:
  "mdel [] k = []"
  "mdel ((k', v') # m) k = (if k' = k then mdel m k else (k', v') # mdel m k)"
  by (auto simp: mdel_def)

lemma mget_default_simps [simp]:
  "mget_default d [] k = d"
  "mget_default d ((k', v) # m) k = (if k = k' then v else mget_default d m k)"
  by (simp_all add: mget_default_def)

lemma mget_default_mset_to [simp]:
  "mget_default d (mset_to m k v) k' = (if k' = k then v else mget_default d m k')"
  by (simp add: mget_default_def)

lemma mget_None_iff: "mget m k = None \<longleftrightarrow> k \<notin> fst ` set m"
  by (simp add: mget_def map_of_eq_None_iff)

lemma mget_SomeD: "mget m k = Some v \<Longrightarrow> (k, v) \<in> set m"
  by (simp add: mget_def map_of_SomeD)

lemma mget_Some_iff: "map_ok m \<Longrightarrow> mget m k = Some v \<longleftrightarrow> (k, v) \<in> set m"
  by (simp add: mget_def map_ok_def)

lemma keys_mset_to [simp]: "fst ` set (mset_to m k v) = insert k (fst ` set m)"
proof (induction m)
  case (Cons p m)
  then show ?case by (cases p) auto
qed simp

lemma length_mset_to:
  "length (mset_to m k v) = (if k \<in> fst ` set m then length m else Suc (length m))"
proof (induction m)
  case (Cons p m)
  then show ?case by (cases p) auto
qed simp

lemma mset_to_idem: "mget m k = Some v \<Longrightarrow> mset_to m k v = m"
  by (induction m) (auto split: if_splits)

lemma mdel_absent: "mget m k = None \<Longrightarrow> mdel m k = m"
  by (induction m) (auto split: if_splits)

lemma mdel_mset_to_new: "mget m k = None \<Longrightarrow> mdel (mset_to m k v) k = m"
  by (induction m) (auto split: if_splits)

lemma mset_to_new: "mget m k = None \<Longrightarrow> mset_to m k v = m @ [(k, v)]"
  by (induction m) (auto split: if_splits)

section \<open>Sorting\<close>

text \<open>
  \<open>sort.Sort\<close> and \<open>sort.Slice\<close> are documented to sort by the given \<open>Less\<close> and not to be stable.
  The model takes the sorting function as an argument \<open>srt\<close>; \<open>sorts_by lt srt\<close> is that
  contract: the result is a permutation of the input and no element is less than one before it.
\<close>

definition sorts_by :: "('a \<Rightarrow> 'a \<Rightarrow> bool) \<Rightarrow> ('a list \<Rightarrow> 'a list) \<Rightarrow> bool" where
  "sorts_by lt srt \<longleftrightarrow>
     (\<forall>xs. mset (srt xs) = mset xs \<and> sorted_wrt (\<lambda>a b. \<not> lt b a) (srt xs))"

lemma sorts_by_mset: "sorts_by lt srt \<Longrightarrow> mset (srt xs) = mset xs"
  by (simp add: sorts_by_def)

lemma sorts_by_set: "sorts_by lt srt \<Longrightarrow> set (srt xs) = set xs"
  by (metis set_mset_mset sorts_by_mset)

lemma sorts_by_length: "sorts_by lt srt \<Longrightarrow> length (srt xs) = length xs"
  by (metis size_mset sorts_by_mset)

lemma sorts_by_sorted: "sorts_by lt srt \<Longrightarrow> sorted_wrt (\<lambda>a b. \<not> lt b a) (srt xs)"
  by (simp add: sorts_by_def)

text \<open>
  The insertion sort that Go's \<open>sort\<close> package runs on slices of up to twelve elements: each element
  moves left past the elements it is less than.
\<close>

fun insert_go :: "('a \<Rightarrow> 'a \<Rightarrow> bool) \<Rightarrow> 'a \<Rightarrow> 'a list \<Rightarrow> 'a list" where
  "insert_go lt x [] = [x]"
| "insert_go lt x (y # ys) = (if lt x y then x # y # ys else y # insert_go lt x ys)"

definition insertionSort :: "('a \<Rightarrow> 'a \<Rightarrow> bool) \<Rightarrow> 'a list \<Rightarrow> 'a list" where
  "insertionSort lt xs = fold (insert_go lt) xs []"

lemma mset_insert_go: "mset (insert_go lt x ys) = add_mset x (mset ys)"
  by (induction ys) auto

lemma set_insert_go: "set (insert_go lt x ys) = insert x (set ys)"
  by (metis mset_insert_go set_mset_add_mset_insert set_mset_mset)

lemma mset_fold_insert_go: "mset (fold (insert_go lt) xs ys) = mset xs + mset ys"
  by (induction xs arbitrary: ys) (auto simp: mset_insert_go)

text \<open>
  The contract of a \<open>Less\<close> method: it is a strict weak order.  Every order the program sorts by is
  an instance; the insertion sort then meets the contract of \<open>sort.Sort\<close>.
\<close>

locale strict_weak_order =
  fixes lt :: "'a \<Rightarrow> 'a \<Rightarrow> bool"
  assumes irrefl: "\<not> lt a a"
    and trans: "lt a b \<Longrightarrow> lt b c \<Longrightarrow> lt a c"
    and incomp_trans: "\<not> lt a b \<Longrightarrow> \<not> lt b c \<Longrightarrow> \<not> lt a c"
begin

lemma asym: "lt a b \<Longrightarrow> \<not> lt b a"
  using irrefl trans by blast

lemma sorted_insert_go:
  "sorted_wrt (\<lambda>a b. \<not> lt b a) ys \<Longrightarrow> sorted_wrt (\<lambda>a b. \<not> lt b a) (insert_go lt x ys)"
proof (induction ys)
  case Nil
  then show ?case by simp
next
  case (Cons y ys)
  then show ?case
    by (auto simp: set_insert_go dest: asym incomp_trans)
qed

lemma sorted_fold_insert_go:
  "sorted_wrt (\<lambda>a b. \<not> lt b a) ys \<Longrightarrow>
     sorted_wrt (\<lambda>a b. \<not> lt b a) (fold (insert_go lt) xs ys)"
  by (induction xs arbitrary: ys) (auto simp: sorted_insert_go)

lemma sorts_by_insertionSort: "sorts_by lt (insertionSort lt)"
  by (simp add: sorts_by_def insertionSort_def mset_fold_insert_go sorted_fold_insert_go)

lemma last_maximal:
  assumes "sorts_by lt srt" and "y \<in> set xs"
  shows "\<not> lt (last (srt xs)) y"
proof -
  have mem: "y \<in> set (srt xs)"
    using assms by (simp add: sorts_by_set)
  then obtain zs z where eq: "srt xs = zs @ [z]"
    by (metis append_butlast_last_id in_set_conv_nth less_nat_zero_code list.size(3))
  then have "sorted_wrt (\<lambda>a b. \<not> lt b a) (zs @ [z])"
    using sorts_by_sorted [OF assms(1), of xs] by simp
  then show ?thesis
    using mem eq irrefl by (auto simp: sorted_wrt_append)
qed

lemma hd_minimal:
  assumes "sorts_by lt srt" and "y \<in> set xs"
  shows "\<not> lt y (hd (srt xs))"
proof -
  have "y \<in> set (srt xs)"
    using assms by (simp add: sorts_by_set)
  then obtain z zs where "srt xs = z # zs" by (cases "srt xs") auto
  then show ?thesis
    using \<open>y \<in> set (srt xs)\<close> sorts_by_sorted [OF assms(1), of xs] irrefl by auto
qed

end

section \<open>Lists\<close>

lemma fold_cong_set: "(\<And>x s. x \<in> set xs \<Longrightarrow> f x s = g x s) \<Longrightarrow> fold f xs s = fold g xs s"
  by (induction xs arbitrary: s) auto

lemma filter_upt_length_le: "length (filter P xs) \<le> length xs"
  by simp

lemma distinct_map_decreasing:
  fixes f :: "'a \<Rightarrow> 'b :: linorder"
  shows "sorted_wrt (\<lambda>a b. f b < f a) xs \<Longrightarrow> distinct (map f xs)"
  by (induction xs) auto

text \<open>An invariant kept by every step of a loop over a list holds after the loop.\<close>

lemma fold_invariant_set:
  assumes "I s" and "\<And>x s. x \<in> set xs \<Longrightarrow> I s \<Longrightarrow> I (f x s)"
  shows "I (fold f xs s)"
  using assms by (induction xs arbitrary: s) auto

end
