(* ===== verification/Go_Strings.thy ===== *)
theory Go_Strings
  imports Prelude
begin

text \<open>
  The string functions of Go's \<open>strings\<close>, \<open>strconv\<close> and \<open>fmt\<close> packages that the program calls,
  on strings as lists of bytes: splitting, searching, case mapping (ASCII letters; the names and
  annotations the program handles are ASCII), decimal, hexadecimal and binary numerals.  The
  lemmas are the ones the codecs need: splitting what was joined, parsing what was printed.
\<close>

section \<open>Package strings\<close>

text \<open>\<open>strings.Split(s, sep)\<close> for a separator of one byte.\<close>

fun Split :: "char \<Rightarrow> string \<Rightarrow> string list" where
  "Split c [] = [[]]"
| "Split c (x # xs) =
     (if x = c then [] # Split c xs
      else (case Split c xs of [] \<Rightarrow> [[x]] | y # ys \<Rightarrow> (x # y) # ys))"

definition Contains :: "string \<Rightarrow> string \<Rightarrow> bool" where
  "Contains s t \<longleftrightarrow> sublist t s"

definition ToUpper_char :: "char \<Rightarrow> char" where
  "ToUpper_char c = (let n = (of_char c :: nat) in if 97 \<le> n \<and> n \<le> 122 then char_of (n - 32) else c)"

definition ToUpper :: "string \<Rightarrow> string" where
  "ToUpper s = map ToUpper_char s"

definition ToLower_char :: "char \<Rightarrow> char" where
  "ToLower_char c = (let n = (of_char c :: nat) in if 65 \<le> n \<and> n \<le> 90 then char_of (n + 32) else c)"

definition ToLower :: "string \<Rightarrow> string" where
  "ToLower s = map ToLower_char s"

fun Join :: "string list \<Rightarrow> string \<Rightarrow> string" where
  "Join [] sep = []"
| "Join [x] sep = x"
| "Join (x # y # xs) sep = x @ sep @ Join (y # xs) sep"

definition HasPrefix :: "string \<Rightarrow> string \<Rightarrow> bool" where
  "HasPrefix s p \<longleftrightarrow> prefix p s"

definition TrimPrefix :: "string \<Rightarrow> string \<Rightarrow> string" where
  "TrimPrefix s p = (if prefix p s then drop (length p) s else s)"

text \<open>\<open>path.Base\<close>: the last element, without trailing slashes.\<close>

definition Base :: "string \<Rightarrow> string" where
  "Base p =
     (if p = [] then ''.''
      else let q = rev (dropWhile (\<lambda>c. c = CHR ''/'') (rev p)) in if q = [] then ''/'' else last (Split CHR ''/'' q))"

definition is_space :: "char \<Rightarrow> bool" where
  "is_space c \<longleftrightarrow> (of_char c :: nat) \<in> {9, 10, 11, 12, 13, 32}"

definition TrimSpace :: "string \<Rightarrow> string" where
  "TrimSpace s = rev (dropWhile is_space (rev (dropWhile is_space s)))"

lemma Split_neq_Nil [simp]: "Split c s \<noteq> []"
  by (cases s) (auto split: list.splits)

lemma Split_no_sep: "c \<notin> set s \<Longrightarrow> Split c s = [s]"
  by (induction s) auto

lemma Split_append_sep: "c \<notin> set s \<Longrightarrow> Split c (s @ c # t) = s # Split c t"
  by (induction s) auto

lemma Split_no_sep_mem: "t \<in> set (Split c s) \<Longrightarrow> c \<notin> set t"
proof (induction s arbitrary: t)
  case (Cons x s)
  then show ?case by (cases "Split c s") (auto split: if_splits)
qed simp

lemma Split_append_last: "c \<notin> set t \<Longrightarrow> Split c (s @ c # t) = Split c s @ [t]"
  by (induction s) (auto simp: Split_no_sep split: list.splits)

lemma Base_append:
  assumes "t \<noteq> []" and "CHR ''/'' \<notin> set t"
  shows "Base (s @ CHR ''/'' # t) = t"
proof -
  obtain u x where t: "t = u @ [x]" using assms(1) by (cases t rule: rev_cases) auto
  then have "x \<noteq> CHR ''/''" using assms(2) by auto
  then have "rev (dropWhile (\<lambda>c. c = CHR ''/'') (rev (s @ CHR ''/'' # t))) = s @ CHR ''/'' # t" by (simp add: t)
  then show ?thesis by (simp add: Base_def Let_def Split_append_last [OF assms(2)] del: rev_append)
qed

lemma Contains_simps [simp]:
  "Contains s []"
  by (simp add: Contains_def)

lemma Contains_single: "Contains s [c] \<longleftrightarrow> c \<in> set s"
proof (induction s)
  case Nil
  then show ?case by (simp add: Contains_def)
next
  case (Cons x s)
  then show ?case by (auto simp: Contains_def sublist_Cons_right)
qed

lemma Contains_refl [simp]: "Contains s s"
  by (simp add: Contains_def)

lemma Contains_trans: "Contains s t \<Longrightarrow> Contains t u \<Longrightarrow> Contains s u"
  unfolding Contains_def using sublist_order.order_trans by blast

lemma Contains_append [intro]: "Contains (xs @ s @ ys) s"
  by (auto simp: Contains_def sublist_def)

lemma Contains_prepend: "Contains s t \<Longrightarrow> Contains (p @ s) t"
  unfolding Contains_def by (simp add: sublist_appendI sublist_order.order_trans)

lemma TrimPrefix_append [simp]: "TrimPrefix (p @ s) p = s"
  by (simp add: TrimPrefix_def)

section \<open>Numerals\<close>

text \<open>\<open>strconv.Itoa\<close> and \<open>strconv.FormatInt(_, 10)\<close>.\<close>

definition digit_char :: "nat \<Rightarrow> char" where
  "digit_char d = char_of (48 + d)"

fun nat_str :: "nat \<Rightarrow> string" where
  "nat_str n = (if n < 10 then [digit_char n] else nat_str (n div 10) @ [digit_char (n mod 10)])"

declare nat_str.simps [simp del]

definition Itoa :: "int \<Rightarrow> string" where
  "Itoa i = (if i < 0 then CHR ''-'' # nat_str (nat (- i)) else nat_str (nat i))"

definition FormatBool :: "bool \<Rightarrow> string" where
  "FormatBool b = (if b then ''true'' else ''false'')"

text \<open>
  \<open>strconv.ParseInt(s, 10, bits)\<close>: the value and whether an error was returned.  A syntax error
  yields 0, a value out of range yields the nearest bound; several callers drop the error and keep
  that value.
\<close>

definition is_digit_char :: "char \<Rightarrow> bool" where
  "is_digit_char c \<longleftrightarrow> 48 \<le> (of_char c :: nat) \<and> (of_char c :: nat) \<le> 57"

definition digit_val :: "char \<Rightarrow> nat" where
  "digit_val c = of_char c - 48"

definition parse_nat :: "string \<Rightarrow> nat option" where
  "parse_nat s =
     (if s \<noteq> [] \<and> list_all is_digit_char s then Some (fold (\<lambda>c n. 10 * n + digit_val c) s 0) else None)"

definition parse_signed :: "string \<Rightarrow> int option" where
  "parse_signed s =
     (case s of
        [] \<Rightarrow> None
      | c # t \<Rightarrow>
          if c = CHR ''-'' then map_option (\<lambda>n. - int n) (parse_nat t)
          else if c = CHR ''+'' then map_option int (parse_nat t)
          else map_option int (parse_nat s))"

definition ParseInt :: "nat \<Rightarrow> string \<Rightarrow> int \<times> bool" where
  "ParseInt bits s =
     (case parse_signed s of
        None \<Rightarrow> (0, False)
      | Some i \<Rightarrow>
          if i < - (2 ^ (bits - 1)) then (- (2 ^ (bits - 1)), False)
          else if 2 ^ (bits - 1) \<le> i then (2 ^ (bits - 1) - 1, False)
          else (i, True))"

abbreviation Atoi :: "string \<Rightarrow> int \<times> bool" where
  "Atoi \<equiv> ParseInt 64"

definition ParseUint :: "nat \<Rightarrow> string \<Rightarrow> nat \<times> bool" where
  "ParseUint bits s =
     (case parse_nat s of
        None \<Rightarrow> (0, False)
      | Some n \<Rightarrow> if 2 ^ bits \<le> n then (2 ^ bits - 1, False) else (n, True))"

definition ParseBool :: "string \<Rightarrow> bool \<times> bool" where
  "ParseBool s =
     (if s \<in> {''1'', ''t'', ''T'', ''true'', ''TRUE'', ''True''} then (True, True)
      else if s \<in> {''0'', ''f'', ''F'', ''false'', ''FALSE'', ''False''} then (False, True)
      else (False, False))"

lemma of_char_digit_char: "d < 10 \<Longrightarrow> (of_char (digit_char d) :: nat) = 48 + d"
  by (simp add: digit_char_def)

lemma is_digit_digit_char [simp]: "d < 10 \<Longrightarrow> is_digit_char (digit_char d)"
  by (simp add: is_digit_char_def of_char_digit_char)

lemma digit_val_digit_char [simp]: "d < 10 \<Longrightarrow> digit_val (digit_char d) = d"
  by (simp add: digit_val_def of_char_digit_char)

lemma nat_str_digits: "list_all is_digit_char (nat_str n)"
proof (induction n rule: nat_str.induct)
  case (1 n)
  then show ?case by (subst nat_str.simps) auto
qed

lemma nat_str_neq_Nil [simp]: "nat_str n \<noteq> []"
  by (subst nat_str.simps) simp

lemma fold_nat_str: "fold (\<lambda>c n. 10 * n + digit_val c) (nat_str n) 0 = n"
proof (induction n rule: nat_str.induct)
  case (1 n)
  then show ?case by (subst nat_str.simps) auto
qed

lemma parse_nat_nat_str [simp]: "parse_nat (nat_str n) = Some n"
  by (simp add: parse_nat_def nat_str_digits fold_nat_str)

lemma not_digit_chars [simp]:
  "\<not> is_digit_char CHR '',''" "\<not> is_digit_char CHR '':''" "\<not> is_digit_char CHR '';''"
  "\<not> is_digit_char CHR ''-''" "\<not> is_digit_char CHR ''+''" "\<not> is_digit_char CHR ''_''"
  by (simp_all add: is_digit_char_def)

lemma nat_str_not_mem: "\<not> is_digit_char c \<Longrightarrow> c \<notin> set (nat_str n)"
  using nat_str_digits [of n] by (auto simp: list_all_iff)

lemma Itoa_not_mem: "\<not> is_digit_char c \<Longrightarrow> c \<noteq> CHR ''-'' \<Longrightarrow> c \<notin> set (Itoa i)"
  by (simp add: Itoa_def nat_str_not_mem)

lemma Itoa_neq_Nil [simp]: "Itoa i \<noteq> []"
  by (simp add: Itoa_def)

lemma parse_signed_Itoa [simp]: "parse_signed (Itoa i) = Some i"
proof (cases "i < 0")
  case True
  then show ?thesis by (simp add: parse_signed_def Itoa_def)
next
  case False
  obtain c t where ct: "nat_str (nat i) = c # t"
    by (cases "nat_str (nat i)") auto
  then have "is_digit_char c"
    using nat_str_digits [of "nat i"] by simp
  then have "c \<noteq> CHR ''-''" and "c \<noteq> CHR ''+''" by auto
  then have "parse_signed (c # t) = map_option int (parse_nat (c # t))"
    by (simp add: parse_signed_def)
  then show ?thesis
    using False ct parse_nat_nat_str [of "nat i"] by (simp add: Itoa_def)
qed

lemma ParseInt_Itoa:
  "- (2 ^ (bits - 1)) \<le> i \<Longrightarrow> i < 2 ^ (bits - 1) \<Longrightarrow> ParseInt bits (Itoa i) = (i, True)"
  by (simp add: ParseInt_def)

lemma ParseInt_range:
  "- (2 ^ (bits - 1)) \<le> fst (ParseInt bits s) \<and> fst (ParseInt bits s) < 2 ^ (bits - 1)"
  by (simp add: ParseInt_def split: option.splits)

lemma ParseBool_FormatBool [simp]: "ParseBool (FormatBool b) = (b, True)"
  by (cases b) (simp_all add: ParseBool_def FormatBool_def)

lemma FormatBool_not_mem:
  "c \<in> {CHR '','', CHR '':'', CHR '';''} \<Longrightarrow> c \<notin> set (FormatBool b)"
  by (cases b) (auto simp: FormatBool_def)

lemma Itoa_inject [simp]: "Itoa i = Itoa j \<longleftrightarrow> i = j"
  by (metis option.inject parse_signed_Itoa)

lemma nat_str_inject [simp]: "nat_str i = nat_str j \<longleftrightarrow> i = j"
  by (metis option.inject parse_nat_nat_str)

text \<open>\<open>fmt.Sprint\<close> of an unsigned index.\<close>

abbreviation Sprint_nat :: "nat \<Rightarrow> string" where
  "Sprint_nat \<equiv> nat_str"

end
