(* ===== verification/Types.thy ===== *)
theory Types
  imports Go_Strings
begin

text \<open>
  The data the components exchange: \<open>pkg/util/types.go\<close> (device usage, requests, assignments),
  \<open>pkg/api/device_register.go\<close> (the device a node registers), and the parts of the Kubernetes
  objects that the program reads.  An \<open>int32\<close> or \<open>int\<close> field is an \<open>int\<close>; the operations that
  compute on it wrap explicitly.
\<close>

section \<open>Devices, requests, assignments\<close>

record container_device =
  cd_Idx :: int
  cd_UUID :: string
  cd_Type :: string
  cd_Usedmem :: int
  cd_Usedcores :: int

record container_device_request =
  rq_Nums :: int
  rq_Type :: string
  rq_Memreq :: int
  rq_MemPercentagereq :: int
  rq_Coresreq :: int

type_synonym container_devices = "container_device list"
type_synonym container_device_requests = "(string, container_device_request) gomap"
type_synonym pod_single_device = "container_devices list"
type_synonym pod_device_requests = "container_device_requests list"
type_synonym pod_devices = "(string, pod_single_device) gomap"

record device_usage =
  du_Id :: string
  du_Index :: int
  du_Used :: int
  du_Count :: int
  du_Usedmem :: int
  du_Totalmem :: int
  du_Totalcore :: int
  du_Usedcores :: int
  du_Numa :: int
  du_Type :: string
  du_Health :: bool

record api_device_info =
  ad_Index :: int
  ad_Id :: string
  ad_Count :: int
  ad_Devmem :: int
  ad_Devcore :: int
  ad_Type :: string
  ad_Numa :: int
  ad_Health :: bool

text \<open>The zero values Go gives to the structs.\<close>

definition zero_container_device :: container_device where
  "zero_container_device =
     \<lparr>cd_Idx = 0, cd_UUID = [], cd_Type = [], cd_Usedmem = 0, cd_Usedcores = 0\<rparr>"

definition zero_request :: container_device_request where
  "zero_request =
     \<lparr>rq_Nums = 0, rq_Type = [], rq_Memreq = 0, rq_MemPercentagereq = 0, rq_Coresreq = 0\<rparr>"

section \<open>Annotation names and phases\<close>

definition AssignedTimeAnnotations :: string where
  "AssignedTimeAnnotations = ''4pd.io/vgpu-time''"

definition AssignedIDsToAllocateAnnotations :: string where
  "AssignedIDsToAllocateAnnotations = ''4pd.io/devices-to-allocate''"

definition AssignedNodeAnnotations :: string where
  "AssignedNodeAnnotations = ''4pd.io/vgpu-node''"

definition BindTimeAnnotations :: string where
  "BindTimeAnnotations = ''4pd.io/bind-time''"

definition DeviceBindPhase :: string where
  "DeviceBindPhase = ''4pd.io/bind-phase''"

definition DeviceBindAllocating :: string where
  "DeviceBindAllocating = ''allocating''"

definition DeviceBindFailed :: string where
  "DeviceBindFailed = ''failed''"

definition DeviceBindSuccess :: string where
  "DeviceBindSuccess = ''success''"

lemmas annotation_names =
  AssignedTimeAnnotations_def AssignedIDsToAllocateAnnotations_def AssignedNodeAnnotations_def
  BindTimeAnnotations_def DeviceBindPhase_def DeviceBindAllocating_def DeviceBindFailed_def
  DeviceBindSuccess_def

section \<open>Kubernetes objects\<close>

text \<open>
  A resource quantity is known to the program only through \<open>AsInt64\<close> (which may fail) and
  \<open>Value\<close>; it is modelled by those two observations.
\<close>

datatype quantity = Quantity (AsInt64: "int option") (Value: int)

type_synonym annotations = "(string, string) gomap"

record container =
  ctr_Name :: string
  ctr_Limits :: "(string, quantity) gomap"
  ctr_Requests :: "(string, quantity) gomap"
  ctr_Env :: "(string \<times> string) list"
  ctr_PostStart :: "string list option"
  ctr_Privileged :: "bool option"

datatype pod_phase = PodPending | PodRunning | PodSucceeded | PodFailed | PodUnknown

record pod =
  pod_Name :: string
  pod_Namespace :: string
  pod_UID :: string
  pod_Annotations :: annotations
  pod_Containers :: "container list"
  pod_SchedulerName :: string
  pod_Phase :: pod_phase
  pod_ContainerStatuses :: nat

definition zero_container :: container where
  "zero_container =
     \<lparr>ctr_Name = [], ctr_Limits = [], ctr_Requests = [], ctr_Env = [], ctr_PostStart = None,
      ctr_Privileged = None\<rparr>"

text \<open>
  The API server merges a patch of annotations into an object: the keys of the patch take the
  patch's values, the others keep theirs.  \<open>api_patch annos patch\<close> is the server's answer (an error
  or the new annotations); \<open>merges api_patch\<close> is that documented behaviour.
\<close>

definition merges :: "(annotations \<Rightarrow> annotations \<Rightarrow> annotations result) \<Rightarrow> bool" where
  "merges api_patch \<longleftrightarrow>
     (\<forall>annos p annos'. map_ok p \<longrightarrow> api_patch annos p = Inr annos' \<longrightarrow>
        (\<forall>k. mget annos' k = (case mget p k of None \<Rightarrow> mget annos k | Some v \<Rightarrow> Some v)))"

text \<open>A server that never refuses a patch.\<close>

definition patch_always :: "annotations \<Rightarrow> annotations \<Rightarrow> annotations result" where
  "patch_always annos p = Inr (maps_Copy annos p)"

lemma mget_maps_Copy:
  "map_ok p \<Longrightarrow> mget (maps_Copy m p) k = (case mget p k of None \<Rightarrow> mget m k | Some v \<Rightarrow> Some v)"
proof (induction p arbitrary: m)
  case Nil
  then show ?case by (simp add: maps_Copy_def)
next
  case (Cons kv p)
  obtain k' v where kv: "kv = (k', v)" by (cases kv)
  have "maps_Copy m (kv # p) = maps_Copy (mset_to m k' v) p"
    by (simp add: maps_Copy_def kv)
  moreover have "k' \<notin> fst ` set p" and "map_ok p"
    using Cons.prems kv by simp_all
  then have "mget p k' = None"
    by (simp add: mget_None_iff)
  ultimately show ?case
    using Cons.IH [OF \<open>map_ok p\<close>, of "mset_to m k' v"] kv by (auto split: option.splits)
qed

lemma mergesD:
  "merges api_patch \<Longrightarrow> map_ok p \<Longrightarrow> api_patch annos p = Inr annos' \<Longrightarrow>
     mget annos' k = (case mget p k of None \<Rightarrow> mget annos k | Some v \<Rightarrow> Some v)"
  unfolding merges_def by blast

lemma merges_patch_always: "merges patch_always"
  by (simp add: merges_def patch_always_def mget_maps_Copy)

section \<open>The kubelet's device plugin interface\<close>

definition DevicePluginPath :: string where
  "DevicePluginPath = ''/var/lib/kubelet/device-plugins/''"

definition KubeletSocket :: string where
  "KubeletSocket = DevicePluginPath @ ''kubelet.sock''"

record register_request =
  rr_Version :: string
  rr_Endpoint :: string
  rr_ResourceName :: string
  rr_PreferredAllocation :: bool

end
