(* ===== verification/Codec.thy ===== *)
theory Codec
  imports Types
begin

text \<open>
  The annotation codecs of \<open>pkg/util/util.go\<close>.  A node publishes its devices, and the scheduler
  publishes its assignment, as strings in annotations: fields separated by commas, devices by
  colons, containers by semicolons.  The locale \<open>colon_codec\<close> states what one device's text must
  satisfy for a list of them to survive the trip; it is interpreted on the node and on the
  container format.
\<close>

section \<open>Lists of comma-separated records\<close>

text \<open>
  The loop both decoders run over \<open>strings.Split(str, ":")\<close>: a segment with a comma is decoded, a
  segment without one is skipped, the first bad segment ends the loop with its error.
\<close>

fun decode_segments :: "(string \<Rightarrow> 'b result) \<Rightarrow> string list \<Rightarrow> 'b list result" where
  "decode_segments dec [] = Inr []"
| "decode_segments dec (val # vals) =
     (if Contains val '','' then
        bind_result (dec val) (\<lambda>x. bind_result (decode_segments dec vals) (\<lambda>xs. Inr (x # xs)))
      else decode_segments dec vals)"

locale colon_codec =
  fixes enc :: "'a \<Rightarrow> string"
    and dec :: "string \<Rightarrow> 'b result"
    and norm :: "'a \<Rightarrow> 'b"
    and ok :: "'a \<Rightarrow> bool"
  assumes enc_no_colon: "ok x \<Longrightarrow> CHR '':'' \<notin> set (enc x)"
    and enc_comma: "ok x \<Longrightarrow> CHR '','' \<in> set (enc x)"
    and dec_enc: "ok x \<Longrightarrow> dec (enc x) = Inr (norm x)"
begin

lemma Split_encoded:
  "list_all ok xs \<Longrightarrow> Split CHR '':'' (concat (map (\<lambda>x. enc x @ '':'') xs)) = map enc xs @ [[]]"
  by (induction xs) (simp_all add: Split_append_sep enc_no_colon)

lemma decode_encoded:
  "list_all ok xs \<Longrightarrow>
     decode_segments dec (Split CHR '':'' (concat (map (\<lambda>x. enc x @ '':'') xs))) = Inr (map norm xs)"
  unfolding Split_encoded
  by (induction xs) (simp_all add: Contains_single enc_comma dec_enc)

end

section \<open>Devices of a node\<close>

definition encode_node_device :: "api_device_info \<Rightarrow> string" where
  "encode_node_device v =
     ad_Id v @ '','' @ Itoa (ad_Count v) @ '','' @ Itoa (ad_Devmem v) @ '','' @ Itoa (ad_Devcore v)
     @ '','' @ ad_Type v @ '','' @ Itoa (ad_Numa v) @ '','' @ FormatBool (ad_Health v)"

definition EncodeNodeDevices :: "api_device_info list \<Rightarrow> string" where
  "EncodeNodeDevices dlist = concat (map (\<lambda>v. encode_node_device v @ '':'') dlist)"

text \<open>One segment: exactly seven fields, otherwise the whole annotation is refused.\<close>

definition decode_node_device :: "string \<Rightarrow> api_device_info result" where
  "decode_node_device val =
     (case Split CHR '','' val of
        [i0, i1, i2, i3, i4, i5, i6] \<Rightarrow>
          Inr \<lparr>ad_Index = 0, ad_Id = i0, ad_Count = i32 (fst (Atoi i1)), ad_Devmem = i32 (fst (Atoi i2)),
               ad_Devcore = i32 (fst (Atoi i3)), ad_Type = i4, ad_Numa = fst (Atoi i5),
               ad_Health = fst (ParseBool i6)\<rparr>
      | _ \<Rightarrow> Inl (Errorf ''node annotations not decode successfully''))"

definition DecodeNodeDevices :: "string \<Rightarrow> api_device_info list result" where
  "DecodeNodeDevices str =
     (if \<not> Contains str '':'' then Inl (Errorf ''node annotations not decode successfully'')
      else decode_segments decode_node_device (Split CHR '':'' str))"

text \<open>A device a plugin can register: names without separators, fields within their Go types.\<close>

definition node_device_ok :: "api_device_info \<Rightarrow> bool" where
  "node_device_ok d \<longleftrightarrow>
     set (ad_Id d) \<inter> {CHR '','', CHR '':''} = {} \<and> set (ad_Type d) \<inter> {CHR '','', CHR '':''} = {}
     \<and> in_i32 (ad_Count d) \<and> in_i32 (ad_Devmem d) \<and> in_i32 (ad_Devcore d)
     \<and> - (2 ^ 63) \<le> ad_Numa d \<and> ad_Numa d < 2 ^ 63"

section \<open>Devices of a container and of a pod\<close>

definition encode_container_device :: "container_device \<Rightarrow> string" where
  "encode_container_device v =
     cd_UUID v @ '','' @ cd_Type v @ '','' @ Itoa (cd_Usedmem v) @ '','' @ Itoa (cd_Usedcores v)"

definition EncodeContainerDevices :: "container_devices \<Rightarrow> string" where
  "EncodeContainerDevices cd = concat (map (\<lambda>v. encode_container_device v @ '':'') cd)"

definition EncodeContainerDeviceType :: "container_devices \<Rightarrow> string \<Rightarrow> string" where
  "EncodeContainerDeviceType cd t =
     concat (map (\<lambda>v. (if cd_Type v = t then encode_container_device v else []) @ '':'') cd)"

definition EncodePodSingleDevice :: "pod_single_device \<Rightarrow> string" where
  "EncodePodSingleDevice pd = concat (map EncodeContainerDevices pd) @ '';''"

definition EncodePodDevices :: "annotations \<Rightarrow> pod_devices \<Rightarrow> annotations" where
  "EncodePodDevices checklist pd =
     fold (\<lambda>(devType, cd) res. mset_to res (mget_default [] checklist devType) (EncodePodSingleDevice cd)) pd []"

definition decode_container_device :: "string \<Rightarrow> container_device result" where
  "decode_container_device val =
     (case Split CHR '','' val of
        t0 # t1 # t2 # t3 # _ \<Rightarrow>
          Inr \<lparr>cd_Idx = 0, cd_UUID = t0, cd_Type = t1, cd_Usedmem = fst (ParseInt 32 t2),
               cd_Usedcores = fst (ParseInt 32 t3)\<rparr>
      | _ \<Rightarrow> Inl (Errorf ''pod annotation format error; information missing''))"

definition DecodeContainerDevices :: "string \<Rightarrow> container_devices result" where
  "DecodeContainerDevices str =
     (if str = [] then Inr [] else decode_segments decode_container_device (Split CHR '':'' str))"

text \<open>
  The containers of one device type; the first bad container makes the caller return an empty
  \<open>PodDevices\<close> and no error.
\<close>

fun decode_containers :: "string list \<Rightarrow> pod_single_device result" where
  "decode_containers [] = Inr []"
| "decode_containers (s # ss) =
     bind_result (DecodeContainerDevices s)
       (\<lambda>cd. bind_result (decode_containers ss) (\<lambda>cds. Inr (cd # cds)))"

fun decode_pod_loop :: "annotations \<Rightarrow> annotations \<Rightarrow> pod_devices \<Rightarrow> pod_devices" where
  "decode_pod_loop [] annos pd = pd"
| "decode_pod_loop ((devID, devs) # checklist) annos pd =
     (case mget annos devs of
        None \<Rightarrow> decode_pod_loop checklist annos pd
      | Some str \<Rightarrow>
          (case decode_containers (Split CHR '';'' str) of
             Inl _ \<Rightarrow> []
           | Inr cds \<Rightarrow> decode_pod_loop checklist annos (mset_to pd devID cds)))"

definition DecodePodDevices :: "annotations \<Rightarrow> annotations \<Rightarrow> pod_devices" where
  "DecodePodDevices checklist annos = (if annos = [] then [] else decode_pod_loop checklist annos [])"

text \<open>An assignment the codec can carry: names without separators, amounts within \<open>int32\<close>.\<close>

definition container_device_ok :: "container_device \<Rightarrow> bool" where
  "container_device_ok d \<longleftrightarrow>
     set (cd_UUID d) \<inter> {CHR '','', CHR '':'', CHR '';''} = {}
     \<and> set (cd_Type d) \<inter> {CHR '','', CHR '':'', CHR '';''} = {}
     \<and> in_i32 (cd_Usedmem d) \<and> in_i32 (cd_Usedcores d)"

text \<open>The codec drops the position of the device on its node.\<close>

definition forget_idx :: "container_device \<Rightarrow> container_device" where
  "forget_idx d = d\<lparr>cd_Idx := 0\<rparr>"

section \<open>Handing assignments to the device plugins\<close>

fun first_nonempty :: "nat \<Rightarrow> pod_single_device \<Rightarrow> (nat \<times> container_devices) option" where
  "first_nonempty i [] = None"
| "first_nonempty i (cd # cds) = (if cd \<noteq> [] then Some (i, cd) else first_nonempty (Suc i) cds)"

definition GetNextDeviceRequest ::
  "annotations \<Rightarrow> string \<Rightarrow> pod \<Rightarrow> (container \<times> container_devices) result" where
  "GetNextDeviceRequest InRequestDevices dtype p =
     (case mget (DecodePodDevices InRequestDevices (pod_Annotations p)) dtype of
        None \<Rightarrow> Inl (Errorf ''device request not found'')
      | Some pd \<Rightarrow>
          (case first_nonempty 0 pd of
             None \<Rightarrow> Inl (Errorf ''device request not found'')
           | Some (ctridx, ctrDevice) \<Rightarrow>
               if ctridx < length (pod_Containers p) then Inr (pod_Containers p ! ctridx, ctrDevice)
               else Inl (GoPanic ''index out of range'')))"

definition GetContainerDeviceStrArray :: "container_devices \<Rightarrow> string list" where
  "GetContainerDeviceStrArray c = map cd_UUID c"

fun erase_first_nonempty :: "pod_single_device \<Rightarrow> pod_single_device" where
  "erase_first_nonempty [] = []"
| "erase_first_nonempty (cd # cds) = (if cd \<noteq> [] then [] # cds else cd # erase_first_nonempty cds)"

text \<open>The patch that \<open>EraseNextDeviceTypeFromAnnotation\<close> sends, and the annotations after it.\<close>

definition EraseNextDeviceTypeFromAnnotation ::
  "(annotations \<Rightarrow> annotations \<Rightarrow> annotations result) \<Rightarrow> annotations \<Rightarrow> string \<Rightarrow> pod \<Rightarrow> pod result" where
  "EraseNextDeviceTypeFromAnnotation api_patch InRequestDevices dtype p =
     (case mget (DecodePodDevices InRequestDevices (pod_Annotations p)) dtype of
        None \<Rightarrow> Inl (Errorf ''erase device annotation not found'')
      | Some pd \<Rightarrow>
          bind_result
            (api_patch (pod_Annotations p)
               [(mget_default [] InRequestDevices dtype, EncodePodSingleDevice (erase_first_nonempty pd))])
            (\<lambda>annos. Inr (p\<lparr>pod_Annotations := annos\<rparr>)))"

text \<open>
  \<open>GetPendingPod\<close>: the first pod of the API server's list that is bound to the node and still
  allocating.
\<close>

definition is_pending_on :: "string \<Rightarrow> pod \<Rightarrow> bool" where
  "is_pending_on node p \<longleftrightarrow>
     mget (pod_Annotations p) BindTimeAnnotations \<noteq> None
     \<and> mget (pod_Annotations p) DeviceBindPhase = Some DeviceBindAllocating
     \<and> mget (pod_Annotations p) AssignedNodeAnnotations = Some node"

definition GetPendingPod :: "pod list result \<Rightarrow> string \<Rightarrow> pod result" where
  "GetPendingPod podlist node =
     bind_result podlist
       (\<lambda>items. case find (is_pending_on node) items of
          None \<Rightarrow> Inl (Errorf ''no binding pod found on node'')
        | Some p \<Rightarrow> Inr p)"

section \<open>Round trips\<close>

lemma node_fields_no_comma:
  assumes "node_device_ok d"
  shows "CHR '','' \<notin> set (ad_Id d)" "CHR '','' \<notin> set (ad_Type d)"
  using assms by (auto simp: node_device_ok_def)

lemma Split_encode_node_device:
  assumes "node_device_ok d"
  shows "Split CHR '','' (encode_node_device d) =
     [ad_Id d, Itoa (ad_Count d), Itoa (ad_Devmem d), Itoa (ad_Devcore d), ad_Type d, Itoa (ad_Numa d),
      FormatBool (ad_Health d)]"
  using node_fields_no_comma [OF assms]
  by (simp add: encode_node_device_def Split_append_sep Split_no_sep Itoa_not_mem FormatBool_not_mem)

lemma Atoi_Itoa_i32: "in_i32 i \<Longrightarrow> i32 (fst (Atoi (Itoa i))) = i"
  by (subst ParseInt_Itoa) (auto simp: in_i32_def i32_id)

interpretation node_codec: colon_codec encode_node_device decode_node_device
  "\<lambda>d. d\<lparr>ad_Index := 0\<rparr>" node_device_ok
proof
  fix d
  assume ok: "node_device_ok d"
  show "CHR '':'' \<notin> set (encode_node_device d)"
    using ok by (auto simp: encode_node_device_def node_device_ok_def Itoa_not_mem FormatBool_not_mem)
  show "CHR '','' \<in> set (encode_node_device d)"
    by (simp add: encode_node_device_def)
  have numa: "fst (Atoi (Itoa (ad_Numa d))) = ad_Numa d"
    using ok by (subst ParseInt_Itoa) (auto simp: node_device_ok_def)
  have "in_i32 (ad_Count d)" "in_i32 (ad_Devmem d)" "in_i32 (ad_Devcore d)"
    using ok by (simp_all add: node_device_ok_def)
  then show "decode_node_device (encode_node_device d) = Inr (d\<lparr>ad_Index := 0\<rparr>)"
    unfolding decode_node_device_def Split_encode_node_device [OF ok]
    by (simp add: Atoi_Itoa_i32 numa)
qed

lemma container_fields_no_comma:
  assumes "container_device_ok d"
  shows "CHR '','' \<notin> set (cd_UUID d)" "CHR '','' \<notin> set (cd_Type d)"
  using assms by (auto simp: container_device_ok_def)

lemma Split_encode_container_device:
  assumes "container_device_ok d"
  shows "Split CHR '','' (encode_container_device d) =
     [cd_UUID d, cd_Type d, Itoa (cd_Usedmem d), Itoa (cd_Usedcores d)]"
  using container_fields_no_comma [OF assms]
  by (simp add: encode_container_device_def Split_append_sep Split_no_sep Itoa_not_mem)

lemma ParseInt_Itoa_i32: "in_i32 i \<Longrightarrow> fst (ParseInt 32 (Itoa i)) = i"
  by (subst ParseInt_Itoa) (auto simp: in_i32_def)

interpretation container_codec: colon_codec encode_container_device decode_container_device
  forget_idx container_device_ok
proof
  fix d
  assume ok: "container_device_ok d"
  show "CHR '':'' \<notin> set (encode_container_device d)"
    using ok by (auto simp: encode_container_device_def container_device_ok_def Itoa_not_mem)
  show "CHR '','' \<in> set (encode_container_device d)"
    by (simp add: encode_container_device_def)
  have "in_i32 (cd_Usedmem d)" "in_i32 (cd_Usedcores d)"
    using ok by (simp_all add: container_device_ok_def)
  then show "decode_container_device (encode_container_device d) = Inr (forget_idx d)"
    unfolding decode_container_device_def Split_encode_container_device [OF ok]
    by (simp add: ParseInt_Itoa_i32 forget_idx_def)
qed

lemma DecodeContainerDevices_encoded:
  assumes "list_all container_device_ok cd"
  shows "DecodeContainerDevices (EncodeContainerDevices cd) = Inr (map forget_idx cd)"
proof (cases "EncodeContainerDevices cd = []")
  case True
  then have "cd = []" by (cases cd) (simp_all add: EncodeContainerDevices_def)
  then show ?thesis by (simp add: DecodeContainerDevices_def EncodeContainerDevices_def)
next
  case False
  then show ?thesis
    using container_codec.decode_encoded [OF assms]
    by (simp add: DecodeContainerDevices_def EncodeContainerDevices_def)
qed

lemma concat_EncodeContainerDevices:
  "concat (map EncodeContainerDevices pd) = EncodeContainerDevices (concat pd)"
  by (induction pd) (simp_all add: EncodeContainerDevices_def)

lemma encoded_no_semicolon:
  "list_all container_device_ok cd \<Longrightarrow> CHR '';'' \<notin> set (EncodeContainerDevices cd)"
  by (induction cd)
    (auto simp: EncodeContainerDevices_def encode_container_device_def container_device_ok_def Itoa_not_mem)

lemma decode_containers_encoded:
  assumes "list_all container_device_ok (concat pd)"
  shows "decode_containers (Split CHR '';'' (EncodePodSingleDevice pd)) =
     Inr [map forget_idx (concat pd), []]"
proof -
  have "EncodePodSingleDevice pd = EncodeContainerDevices (concat pd) @ CHR '';'' # []"
    by (simp add: EncodePodSingleDevice_def concat_EncodeContainerDevices)
  then have "Split CHR '';'' (EncodePodSingleDevice pd) = [EncodeContainerDevices (concat pd), []]"
    using encoded_no_semicolon [OF assms] by (simp add: Split_append_sep)
  then show ?thesis
    using DecodeContainerDevices_encoded [OF assms] by (simp add: DecodeContainerDevices_def)
qed

lemma DecodePodDevices_single:
  assumes "mget annos key = Some str"
  shows "DecodePodDevices [(dt, key)] annos =
     (case decode_containers (Split CHR '';'' str) of Inl _ \<Rightarrow> [] | Inr cds \<Rightarrow> [(dt, cds)])"
  using assms by (auto simp: DecodePodDevices_def split: sum.splits)

lemma DecodePodDevices_single_encoded:
  assumes "mget annos key = Some (EncodePodSingleDevice pd)"
    and "list_all container_device_ok (concat pd)"
  shows "DecodePodDevices [(dt, key)] annos = [(dt, [map forget_idx (concat pd), []])]"
  using DecodePodDevices_single [OF assms(1)] decode_containers_encoded [OF assms(2)] by simp

section \<open>Properties of the codecs\<close>

text \<open>What a device plugin publishes about its devices is what the scheduler reads back: decoding
  the encoded list of registered devices returns the same list, with only the plugin-local index
  reset.\<close>
lemma node_devices_roundtrip:
  assumes "ds \<noteq> []" and "list_all node_device_ok ds"
  shows "DecodeNodeDevices (EncodeNodeDevices ds) = Inr (map (\<lambda>d. d\<lparr>ad_Index := 0\<rparr>) ds)"
proof -
  have "CHR '':'' \<in> set (EncodeNodeDevices ds)"
    using assms(1) by (cases ds) (simp_all add: EncodeNodeDevices_def)
  then show ?thesis
    using node_codec.decode_encoded [OF assms(2)]
    by (simp add: DecodeNodeDevices_def EncodeNodeDevices_def Contains_single)
qed

definition example_gpu :: api_device_info where
  "example_gpu = \<lparr>ad_Index = 3, ad_Id = ''GPU-1'', ad_Count = 10, ad_Devmem = 32768, ad_Devcore = 100,
     ad_Type = ''NVIDIA-A100'', ad_Numa = -1, ad_Health = True\<rparr>"

lemma node_devices_roundtrip_example:
  "[example_gpu] \<noteq> [] \<and> list_all node_device_ok [example_gpu]
   \<and> DecodeNodeDevices (EncodeNodeDevices [example_gpu]) = Inr [example_gpu\<lparr>ad_Index := 0\<rparr>]"
proof -
  have ok: "list_all node_device_ok [example_gpu]"
    by (simp add: node_device_ok_def example_gpu_def in_i32_def)
  show ?thesis
    using ok node_devices_roundtrip [OF _ ok] by simp
qed

text \<open>Decoding the pod annotation the scheduler wrote yields all assigned devices in order, but in
  one list for container 0 followed by an empty one: the encoder writes a single semicolon after all
  containers, so the container boundaries are lost (\<open>TestPodDevicesCoding\<close> expects them kept).\<close>
lemma pod_devices_boundaries_lost:
  assumes "list_all container_device_ok (concat pd)"
  shows "DecodePodDevices [(dt, key)] (EncodePodDevices [(dt, key)] [(dt, pd)]) =
     [(dt, [map forget_idx (concat pd), []])]"
  by (rule DecodePodDevices_single_encoded [OF _ assms]) (simp add: EncodePodDevices_def)

definition example_assignment :: container_device where
  "example_assignment =
     \<lparr>cd_Idx = 0, cd_UUID = ''UUID1'', cd_Type = ''Type1'', cd_Usedmem = 1000, cd_Usedcores = 30\<rparr>"

lemma pod_devices_boundaries_lost_example:
  "list_all container_device_ok (concat [[example_assignment], [example_assignment]])
   \<and> DecodePodDevices [(''NVIDIA'', ''k'')]
       (EncodePodDevices [(''NVIDIA'', ''k'')] [(''NVIDIA'', [[example_assignment], [example_assignment]])])
     \<noteq> [(''NVIDIA'', [[example_assignment], [example_assignment]])]"
proof -
  have ok: "list_all container_device_ok (concat [[example_assignment], [example_assignment]])"
    by (simp add: container_device_ok_def example_assignment_def in_i32_def)
  show ?thesis
    using ok pod_devices_boundaries_lost [OF ok, of "''NVIDIA''" "''k''"] by simp
qed

text \<open>The hand-over to a device plugin consumes the assignment once: \<open>GetNextDeviceRequest\<close> returns
  every device the scheduler assigned (position dropped) for the first container, and after
  \<open>EraseNextDeviceTypeFromAnnotation\<close> succeeds it reports that no request is left.\<close>
lemma next_request_consumed_once:
  assumes "merges api_patch"
    and "mget (pod_Annotations p) key = Some (EncodePodSingleDevice pd)"
    and "list_all container_device_ok (concat pd)" and "concat pd \<noteq> []"
    and "pod_Containers p = c # cs"
    and "EraseNextDeviceTypeFromAnnotation api_patch [(dt, key)] dt p = Inr p'"
  shows "GetNextDeviceRequest [(dt, key)] dt p = Inr (c, map forget_idx (concat pd))
     \<and> GetNextDeviceRequest [(dt, key)] dt p' = Inl (Errorf ''device request not found'')"
proof
  have dec: "DecodePodDevices [(dt, key)] (pod_Annotations p) = [(dt, [map forget_idx (concat pd), []])]"
    by (rule DecodePodDevices_single_encoded [OF assms(2,3)])
  have ne: "map forget_idx (concat pd) \<noteq> []"
    using assms(4) by simp
  show "GetNextDeviceRequest [(dt, key)] dt p = Inr (c, map forget_idx (concat pd))"
    using dec ne assms(5) by (simp add: GetNextDeviceRequest_def del: map_concat)
  let ?patch = "[(key, EncodePodSingleDevice [[], []])]"
  obtain annos where annos: "api_patch (pod_Annotations p) ?patch = Inr annos"
    and p': "p' = p\<lparr>pod_Annotations := annos\<rparr>"
    using assms(6) dec ne
    by (auto simp: EraseNextDeviceTypeFromAnnotation_def bind_result_Inr_iff simp del: map_concat)
  have "mget annos key = Some (EncodePodSingleDevice [[], []])"
    using mergesD [OF assms(1) _ annos, of key] by simp
  then have "DecodePodDevices [(dt, key)] annos = [(dt, [[], []])]"
    using DecodePodDevices_single_encoded [of annos key "[[], []]" dt] by simp
  then show "GetNextDeviceRequest [(dt, key)] dt p' = Inl (Errorf ''device request not found'')"
    using p' by (simp add: GetNextDeviceRequest_def)
qed

definition example_pod :: pod where
  "example_pod = \<lparr>pod_Name = ''p'', pod_Namespace = ''default'', pod_UID = ''u1'',
     pod_Annotations = [(''k'', EncodePodSingleDevice [[example_assignment]])],
     pod_Containers = [zero_container], pod_SchedulerName = [], pod_Phase = PodPending,
     pod_ContainerStatuses = 0\<rparr>"

lemma next_request_consumed_once_example:
  "\<exists>p'. EraseNextDeviceTypeFromAnnotation patch_always [(''NVIDIA'', ''k'')] ''NVIDIA'' example_pod = Inr p'
   \<and> GetNextDeviceRequest [(''NVIDIA'', ''k'')] ''NVIDIA'' example_pod
      = Inr (zero_container, [example_assignment])
   \<and> GetNextDeviceRequest [(''NVIDIA'', ''k'')] ''NVIDIA'' p' = Inl (Errorf ''device request not found'')"
proof -
  have ok: "list_all container_device_ok (concat [[example_assignment]])"
    by (simp add: container_device_ok_def example_assignment_def in_i32_def)
  have anno: "mget (pod_Annotations example_pod) ''k'' = Some (EncodePodSingleDevice [[example_assignment]])"
    by (simp add: example_pod_def)
  obtain p' where erased:
    "EraseNextDeviceTypeFromAnnotation patch_always [(''NVIDIA'', ''k'')] ''NVIDIA'' example_pod = Inr p'"
    using DecodePodDevices_single_encoded [OF anno ok, of "''NVIDIA''"]
    by (simp add: EraseNextDeviceTypeFromAnnotation_def patch_always_def)
  have idx: "forget_idx example_assignment = example_assignment"
    by (simp add: forget_idx_def example_assignment_def)
  show ?thesis
    using next_request_consumed_once [OF merges_patch_always anno ok _ _ erased, of zero_container "[]"]
      erased idx by (auto simp: example_pod_def)
qed

end
