(* ===== verification/Devices.thy ===== *)
theory Devices
  imports Codec
begin

text \<open>
  The vendor backends of \<open>pkg/device\<close> (NVIDIA, Cambricon, Hygon and the unregistered Iluvatar): how
  a container's resource limits become a device request, how a device is matched against a request
  and the pod's annotations, and what the admission webhook adds to a container.  The Go interface
  \<open>Devices\<close> is the locale \<open>device_backend\<close>, interpreted on the three registered backends.
\<close>

section \<open>Configuration\<close>

text \<open>The command-line flags that \<open>ParseConfig\<close> declares, and the scheduler's defaults.\<close>

record device_config =
  ResourceName :: string
  ResourceMem :: string
  ResourceMemPercentage :: string
  ResourceCores :: string
  ResourcePriority :: string
  MLUResourceCount :: string
  MLUResourceMemory :: string
  HygonResourceCount :: string
  HygonResourceMemory :: string
  HygonResourceCores :: string
  IluvatarResourceCount :: string
  IluvatarResourceMemory :: string
  IluvatarResourceCores :: string
  DefaultMem :: int
  DefaultCores :: int
  SchedulerName :: string

definition nvidia_ParseConfig :: "device_config \<Rightarrow> device_config" where
  "nvidia_ParseConfig c = c\<lparr>ResourceName := ''nvidia.com/gpu'', ResourceMem := ''nvidia.com/gpumem'',
     ResourceMemPercentage := ''nvidia.com/gpumem-percentage'', ResourceCores := ''nvidia.com/gpucores'',
     ResourcePriority := ''vgputaskpriority''\<rparr>"

definition mlu_ParseConfig :: "device_config \<Rightarrow> device_config" where
  "mlu_ParseConfig c =
     c\<lparr>MLUResourceCount := ''cambricon.com/mlunum'', MLUResourceMemory := ''cambricon.com/mlumem''\<rparr>"

definition dcu_ParseConfig :: "device_config \<Rightarrow> device_config" where
  "dcu_ParseConfig c = c\<lparr>HygonResourceCount := ''hygon.com/dcunum'',
     HygonResourceMemory := ''hygon.com/dcumem'', HygonResourceCores := ''hygon.com/dcucores''\<rparr>"

definition iluvatar_ParseConfig :: "device_config \<Rightarrow> device_config" where
  "iluvatar_ParseConfig c = c\<lparr>IluvatarResourceCount := ''iluvatar.ai/gpu'',
     IluvatarResourceMemory := ''iluvatar.ai/vcuda-memory'', IluvatarResourceCores := ''iluvatar.ai/vcuda-core''\<rparr>"

definition zero_config :: device_config where
  "zero_config = \<lparr>ResourceName = [], ResourceMem = [], ResourceMemPercentage = [], ResourceCores = [],
     ResourcePriority = [], MLUResourceCount = [], MLUResourceMemory = [], HygonResourceCount = [],
     HygonResourceMemory = [], HygonResourceCores = [], IluvatarResourceCount = [],
     IluvatarResourceMemory = [], IluvatarResourceCores = [], DefaultMem = 0, DefaultCores = 0,
     SchedulerName = []\<rparr>"

text \<open>\<open>GlobalFlagSet\<close>: the flags of the registered backends with their default values.\<close>

definition GlobalFlagSet :: device_config where
  "GlobalFlagSet = dcu_ParseConfig (nvidia_ParseConfig (mlu_ParseConfig zero_config))"

section \<open>Matching a card against the pod's annotations\<close>

text \<open>
  The three \<open>check*type\<close> functions differ in the annotation names only: a card is accepted if its
  type contains one of the wanted names, or, with no list of wanted names, none of the unwanted.
\<close>

definition type_in_list :: "string \<Rightarrow> string \<Rightarrow> bool" where
  "type_in_list cardtype names =
     (if \<not> Contains names '','' then Contains (ToUpper cardtype) (ToUpper names)
      else list_ex (\<lambda>val. Contains (ToUpper cardtype) (ToUpper val)) (Split CHR '','' names))"

definition check_card_type :: "string \<Rightarrow> string \<Rightarrow> annotations \<Rightarrow> string \<Rightarrow> bool" where
  "check_card_type inUse noUse annos cardtype =
     (case mget annos inUse of
        Some inuse \<Rightarrow> type_in_list cardtype inuse
      | None \<Rightarrow>
          (case mget annos noUse of
             Some nouse \<Rightarrow> \<not> type_in_list cardtype nouse
           | None \<Rightarrow> True))"

definition checkGPUtype :: "annotations \<Rightarrow> string \<Rightarrow> bool" where
  "checkGPUtype = check_card_type ''nvidia.com/use-gputype'' ''nvidia.com/nouse-gputype''"

definition checkMLUtype :: "annotations \<Rightarrow> string \<Rightarrow> bool" where
  "checkMLUtype = check_card_type ''cambricon.com/use-mlutype'' ''cambricon.com/nouse-mlutype''"

definition checkDCUtype :: "annotations \<Rightarrow> string \<Rightarrow> bool" where
  "checkDCUtype = check_card_type ''hygon.com/use-dcutype'' ''hygon.com/nouse-dcutype''"

definition assertNuma :: "annotations \<Rightarrow> bool" where
  "assertNuma annos =
     (case mget annos ''nvidia.com/numa-bind'' of
        Some numabind \<Rightarrow> snd (ParseBool numabind) \<and> fst (ParseBool numabind)
      | None \<Rightarrow> False)"

section \<open>The backends\<close>

definition NvidiaGPUDevice :: string where "NvidiaGPUDevice = ''NVIDIA''"
definition CambriconMLUDevice :: string where "CambriconMLUDevice = ''MLU''"
definition HygonDCUDevice :: string where "HygonDCUDevice = ''DCU''"
definition IluvatarGPUDevice :: string where "IluvatarGPUDevice = ''Iluvatar''"

lemmas device_names =
  NvidiaGPUDevice_def CambriconMLUDevice_def HygonDCUDevice_def IluvatarGPUDevice_def

datatype backend = Nvidia | Cambricon | Hygon

text \<open>\<open>CheckType\<close> answers: is the request mine, does the card pass, must cards share a NUMA node.\<close>

definition nvidia_CheckType ::
  "annotations \<Rightarrow> device_usage \<Rightarrow> container_device_request \<Rightarrow> bool \<times> bool \<times> bool" where
  "nvidia_CheckType annos d n =
     (if rq_Type n = NvidiaGPUDevice then (True, checkGPUtype annos (du_Type d), assertNuma annos)
      else (False, False, False))"

definition mlu_CheckType ::
  "annotations \<Rightarrow> device_usage \<Rightarrow> container_device_request \<Rightarrow> bool \<times> bool \<times> bool" where
  "mlu_CheckType annos d n =
     (if Contains (rq_Type n) CambriconMLUDevice then
        if \<not> Contains (du_Type d) ''370'' \<and> rq_Memreq n \<noteq> 0 then (True, False, False)
        else if Contains (du_Type d) ''370'' \<and> rq_Memreq n = 0 \<and> du_Used d > 0 then (True, False, False)
        else (True, checkMLUtype annos (du_Type d), False)
      else (False, False, False))"

definition dcu_CheckType ::
  "annotations \<Rightarrow> device_usage \<Rightarrow> container_device_request \<Rightarrow> bool \<times> bool \<times> bool" where
  "dcu_CheckType annos d n =
     (if rq_Type n = HygonDCUDevice then (True, checkDCUtype annos (du_Type d), False)
      else (False, False, False))"

definition iluvatar_CheckType ::
  "annotations \<Rightarrow> device_usage \<Rightarrow> container_device_request \<Rightarrow> bool \<times> bool \<times> bool" where
  "iluvatar_CheckType annos d n = (False, False, False)"

text \<open>A resource is looked up in the limits first, then in the requests.\<close>

definition resource_of :: "container \<Rightarrow> string \<Rightarrow> quantity option" where
  "resource_of ctr name =
     (case mget (ctr_Limits ctr) name of Some v \<Rightarrow> Some v | None \<Rightarrow> mget (ctr_Requests ctr) name)"

definition resource_or :: "int \<Rightarrow> container \<Rightarrow> string \<Rightarrow> int" where
  "resource_or dflt ctr name =
     (case resource_of ctr name of
        None \<Rightarrow> dflt
      | Some q \<Rightarrow> (case AsInt64 q of None \<Rightarrow> dflt | Some i \<Rightarrow> i))"

definition nvidia_GenerateResourceRequests :: "device_config \<Rightarrow> container \<Rightarrow> container_device_request" where
  "nvidia_GenerateResourceRequests cfg ctr =
     (case resource_of ctr (ResourceName cfg) of
        None \<Rightarrow> zero_request
      | Some v \<Rightarrow>
          (case AsInt64 v of
             None \<Rightarrow> zero_request
           | Some n \<Rightarrow>
               let memnum = resource_or 0 ctr (ResourceMem cfg);
                   mempnum = i32 (resource_or 101 ctr (ResourceMemPercentage cfg));
                   whole = (mempnum = 101 \<and> memnum = 0);
                   memnum' = (if whole \<and> DefaultMem cfg \<noteq> 0 then DefaultMem cfg else memnum);
                   mempnum' = (if whole \<and> DefaultMem cfg = 0 then 100 else mempnum);
                   corenum = i32 (resource_or (DefaultCores cfg) ctr (ResourceCores cfg))
               in \<lparr>rq_Nums = i32 n, rq_Type = NvidiaGPUDevice, rq_Memreq = i32 memnum',
                   rq_MemPercentagereq = mempnum', rq_Coresreq = corenum\<rparr>))"

definition mlu_GenerateResourceRequests :: "device_config \<Rightarrow> container \<Rightarrow> container_device_request" where
  "mlu_GenerateResourceRequests cfg ctr =
     (case resource_of ctr (MLUResourceCount cfg) of
        None \<Rightarrow> zero_request
      | Some v \<Rightarrow>
          (case AsInt64 v of
             None \<Rightarrow> zero_request
           | Some n \<Rightarrow>
               \<lparr>rq_Nums = i32 n, rq_Type = CambriconMLUDevice,
                rq_Memreq = i32 (resource_or 0 ctr (MLUResourceMemory cfg)),
                rq_MemPercentagereq = 0, rq_Coresreq = 0\<rparr>))"

text \<open>The Hygon and the Iluvatar generators are the same code over different resource names.\<close>

definition mem_core_request ::
  "string \<Rightarrow> string \<Rightarrow> string \<Rightarrow> string \<Rightarrow> container \<Rightarrow> container_device_request" where
  "mem_core_request countRes memRes coreRes devType ctr =
     (case resource_of ctr countRes of
        None \<Rightarrow> zero_request
      | Some v \<Rightarrow>
          (case AsInt64 v of
             None \<Rightarrow> zero_request
           | Some n \<Rightarrow>
               let memnum = resource_or 0 ctr memRes;
                   corenum = i32 (resource_or 0 ctr coreRes);
                   mempnum = (if memnum = 0 then 100 else 0)
               in \<lparr>rq_Nums = i32 n, rq_Type = devType, rq_Memreq = i32 memnum,
                   rq_MemPercentagereq = mempnum, rq_Coresreq = corenum\<rparr>))"

definition dcu_GenerateResourceRequests :: "device_config \<Rightarrow> container \<Rightarrow> container_device_request" where
  "dcu_GenerateResourceRequests cfg =
     mem_core_request (HygonResourceCount cfg) (HygonResourceMemory cfg) (HygonResourceCores cfg) HygonDCUDevice"

definition iluvatar_GenerateResourceRequests :: "device_config \<Rightarrow> container \<Rightarrow> container_device_request" where
  "iluvatar_GenerateResourceRequests cfg =
     mem_core_request (IluvatarResourceCount cfg) (IluvatarResourceMemory cfg) (IluvatarResourceCores cfg)
       IluvatarGPUDevice"

text \<open>\<open>MutateAdmission\<close>: whether the container asks for the vendor's resource, and the container after it.\<close>

definition nvidia_MutateAdmission :: "device_config \<Rightarrow> container \<Rightarrow> bool \<times> container" where
  "nvidia_MutateAdmission cfg ctr =
     (mget (ctr_Limits ctr) (ResourceName cfg) \<noteq> None,
      case mget (ctr_Limits ctr) (ResourcePriority cfg) of
        None \<Rightarrow> ctr
      | Some priority \<Rightarrow> ctr\<lparr>ctr_Env := ctr_Env ctr @ [(''CUDA_TASK_PRIORITY'', Itoa (Value priority))]\<rparr>)"

definition mlu_MutateAdmission :: "device_config \<Rightarrow> container \<Rightarrow> bool \<times> container" where
  "mlu_MutateAdmission cfg ctr =
     (if mget (ctr_Limits ctr) (MLUResourceMemory cfg) \<noteq> None
      then (True, ctr\<lparr>ctr_PostStart := Some [''/usr/bin/smlu-containerd'']\<rparr>)
      else (mget (ctr_Limits ctr) (MLUResourceCount cfg) \<noteq> None, ctr))"

definition dcu_MutateAdmission :: "device_config \<Rightarrow> container \<Rightarrow> bool \<times> container" where
  "dcu_MutateAdmission cfg ctr = (mget (ctr_Limits ctr) (HygonResourceCount cfg) \<noteq> None, ctr)"

definition iluvatar_MutateAdmission :: "device_config \<Rightarrow> container \<Rightarrow> bool \<times> container" where
  "iluvatar_MutateAdmission cfg ctr = (mget (ctr_Limits ctr) (IluvatarResourceCount cfg) \<noteq> None, ctr)"

section \<open>The registry of backends\<close>

text \<open>
  \<open>init\<close> registers three backends in a map; the loops over that map take its iteration order as
  their list argument.  Only the NVIDIA backend enters its annotation names into
  \<open>InRequestDevices\<close> and \<open>SupportDevices\<close>.
\<close>

definition GetDevices :: "(string, backend) gomap" where
  "GetDevices = [(''Cambricon'', Cambricon), (''NVIDIA'', Nvidia), (''Hygon'', Hygon)]"

definition KnownDevice :: "(string, string) gomap" where
  "KnownDevice =
     [(''4pd.io/node-handshake'', ''4pd.io/node-nvidia-register''),
      (''4pd.io/node-handshake-mlu'', ''4pd.io/node-mlu-register''),
      (''4pd.io/node-handshake-dcu'', ''4pd.io/node-dcu-register'')]"

definition DevicesToHandle :: "string list" where
  "DevicesToHandle = [''GPU'', ''MLU'', ''DCU'']"

definition InRequestDevices :: annotations where
  "InRequestDevices = [(''NVIDIA'', ''hami.sh/vgpu-devices-to-allocate'')]"

definition SupportDevices :: annotations where
  "SupportDevices = [(''NVIDIA'', ''hami.sh/vgpu-devices-allocated'')]"

fun CheckType ::
  "backend \<Rightarrow> annotations \<Rightarrow> device_usage \<Rightarrow> container_device_request \<Rightarrow> bool \<times> bool \<times> bool" where
  "CheckType Nvidia = nvidia_CheckType"
| "CheckType Cambricon = mlu_CheckType"
| "CheckType Hygon = dcu_CheckType"

fun GenerateResourceRequests :: "device_config \<Rightarrow> backend \<Rightarrow> container \<Rightarrow> container_device_request" where
  "GenerateResourceRequests cfg Nvidia = nvidia_GenerateResourceRequests cfg"
| "GenerateResourceRequests cfg Cambricon = mlu_GenerateResourceRequests cfg"
| "GenerateResourceRequests cfg Hygon = dcu_GenerateResourceRequests cfg"

fun MutateAdmission :: "device_config \<Rightarrow> backend \<Rightarrow> container \<Rightarrow> bool \<times> container" where
  "MutateAdmission cfg Nvidia = nvidia_MutateAdmission cfg"
| "MutateAdmission cfg Cambricon = mlu_MutateAdmission cfg"
| "MutateAdmission cfg Hygon = dcu_MutateAdmission cfg"

fun device_type :: "backend \<Rightarrow> string" where
  "device_type Nvidia = NvidiaGPUDevice"
| "device_type Cambricon = CambriconMLUDevice"
| "device_type Hygon = HygonDCUDevice"

text \<open>\<open>checkType\<close> of the scheduler: the first backend that recognises the request decides.\<close>

fun check_backends ::
  "(string, backend) gomap \<Rightarrow> annotations \<Rightarrow> device_usage \<Rightarrow> container_device_request \<Rightarrow> bool \<times> bool" where
  "check_backends [] annos d n = (False, False)"
| "check_backends ((_, val) # devs) annos d n =
     (case CheckType val annos d n of
        (found, pass, numaAssert) \<Rightarrow>
          if found then (pass, numaAssert) else check_backends devs annos d n)"

definition checkType ::
  "(string, backend) gomap \<Rightarrow> annotations \<Rightarrow> device_usage \<Rightarrow> container_device_request \<Rightarrow> bool \<times> bool" where
  "checkType devs annos d n =
     (if \<not> Contains (du_Type d) (rq_Type n) then (False, False) else check_backends devs annos d n)"

text \<open>\<open>Resourcereqs\<close>: per container, the requests of the backends that ask for at least one device.\<close>

definition container_requests ::
  "device_config \<Rightarrow> (string, backend) gomap \<Rightarrow> container \<Rightarrow> container_device_requests" where
  "container_requests cfg devs ctr =
     fold (\<lambda>(idx, val) counts.
             if rq_Nums (GenerateResourceRequests cfg val ctr) > 0
             then mset_to counts idx (GenerateResourceRequests cfg val ctr) else counts) devs []"

definition Resourcereqs :: "device_config \<Rightarrow> (string, backend) gomap \<Rightarrow> pod \<Rightarrow> pod_device_requests" where
  "Resourcereqs cfg devs pod = map (container_requests cfg devs) (pod_Containers pod)"

definition IsPodInTerminatedState :: "pod \<Rightarrow> bool" where
  "IsPodInTerminatedState pod \<longleftrightarrow> pod_Phase pod = PodFailed \<or> pod_Phase pod = PodSucceeded"

definition AllContainersCreated :: "pod \<Rightarrow> bool" where
  "AllContainersCreated pod \<longleftrightarrow> pod_ContainerStatuses pod \<ge> length (pod_Containers pod)"

section \<open>The backend interface\<close>

text \<open>
  What the scheduler relies on: a backend generates either nothing or a request of its own type
  with fields in range, recognises exactly the known requests of its own type, and lets a card pass
  only for requests it recognises.
\<close>

locale device_backend =
  fixes gen :: "container \<Rightarrow> container_device_request"
    and chk :: "annotations \<Rightarrow> device_usage \<Rightarrow> container_device_request \<Rightarrow> bool \<times> bool \<times> bool"
    and dtype :: string
  assumes gen_zero_or_own: "gen ctr = zero_request \<or> rq_Type (gen ctr) = dtype"
    and gen_range: "in_i32 (rq_Nums (gen ctr)) \<and> in_i32 (rq_Memreq (gen ctr))
      \<and> in_i32 (rq_MemPercentagereq (gen ctr)) \<and> in_i32 (rq_Coresreq (gen ctr))"
    and chk_own: "rq_Type n = dtype \<Longrightarrow> fst (chk annos d n)"
    and chk_other: "rq_Type n \<in> device_type ` (UNIV :: backend set) \<Longrightarrow> rq_Type n \<noteq> dtype \<Longrightarrow>
      \<not> fst (chk annos d n)"
begin

lemma gen_positive_own: "rq_Nums (gen ctr) > 0 \<Longrightarrow> rq_Type (gen ctr) = dtype"
  using gen_zero_or_own [of ctr] by (auto simp: zero_request_def)

lemma gen_positive_recognised: "rq_Nums (gen ctr) > 0 \<Longrightarrow> fst (chk annos d (gen ctr))"
  by (intro chk_own gen_positive_own)

end

lemma UNIV_backend: "(UNIV :: backend set) = {Nvidia, Cambricon, Hygon}"
  using backend.exhaust by auto

lemma device_type_not_MLU:
  "\<not> Contains NvidiaGPUDevice CambriconMLUDevice" "\<not> Contains HygonDCUDevice CambriconMLUDevice"
  by (simp_all add: device_names Contains_def sublist_Cons_right)

lemma in_i32_small [simp]: "in_i32 0" "in_i32 1" "in_i32 100" "in_i32 101"
  by (simp_all add: in_i32_def)

interpretation nvidia_backend: device_backend "nvidia_GenerateResourceRequests cfg" nvidia_CheckType
  NvidiaGPUDevice for cfg
  by unfold_locales
    (auto simp: nvidia_GenerateResourceRequests_def nvidia_CheckType_def zero_request_def Let_def
      UNIV_backend split: option.splits)

interpretation mlu_backend: device_backend "mlu_GenerateResourceRequests cfg" mlu_CheckType
  CambriconMLUDevice for cfg
  by unfold_locales
    (auto simp: mlu_GenerateResourceRequests_def mlu_CheckType_def zero_request_def
      UNIV_backend device_type_not_MLU split: option.splits)

interpretation dcu_backend: device_backend "dcu_GenerateResourceRequests cfg" dcu_CheckType
  HygonDCUDevice for cfg
  by unfold_locales
    (auto simp: dcu_GenerateResourceRequests_def mem_core_request_def dcu_CheckType_def
      zero_request_def Let_def UNIV_backend split: option.splits)

text \<open>The three interpretations, read through the registry.\<close>

lemma backend_device_backend: "device_backend (GenerateResourceRequests cfg b) (CheckType b) (device_type b)"
  using nvidia_backend.device_backend_axioms mlu_backend.device_backend_axioms
    dcu_backend.device_backend_axioms by (cases b) simp_all

lemma CheckType_found_iff:
  "rq_Type n \<in> device_type ` (UNIV :: backend set) \<Longrightarrow>
     fst (CheckType b annos d n) \<longleftrightarrow> rq_Type n = device_type b"
  using device_backend.chk_own [OF backend_device_backend]
    device_backend.chk_other [OF backend_device_backend] by blast

lemma device_type_inject: "device_type a = device_type b \<longleftrightarrow> a = b"
  by (cases a; cases b) (simp_all add: device_names)

lemma check_backends_own:
  assumes "b \<in> snd ` set devs" and "rq_Type n = device_type b"
  shows "check_backends devs annos d n = snd (CheckType b annos d n)"
  using assms(1)
proof (induction devs)
  case (Cons kv devs)
  obtain k c where kv: "kv = (k, c)" by (cases kv)
  have found: "fst (CheckType c annos d n) \<longleftrightarrow> c = b"
    using CheckType_found_iff [of n c annos d] assms(2) by (auto simp: device_type_inject)
  show ?case
    using Cons found kv by (cases "CheckType c annos d n") (auto simp: image_iff)
qed simp

section \<open>Properties of the backends\<close>

lemma check_backends_complete:
  assumes "set devs = set GetDevices" and "rq_Type n = device_type b"
  shows "check_backends devs annos d n = snd (CheckType b annos d n)"
proof -
  have "b \<in> snd ` set devs"
    unfolding assms(1) by (cases b) (simp_all add: GetDevices_def)
  then show ?thesis
    using assms(2) by (rule check_backends_own)
qed

text \<open>C15: \<open>checkType\<close> does not depend on the order in which Go iterates over the map of backends: for a
  request of a registered vendor, every order gives the verdict of that vendor's own \<open>CheckType\<close>,
  after the general test that the card's type contains the requested one.\<close>
theorem checkType_any_order:
  assumes "set devs = set GetDevices" and "rq_Type n = device_type b"
  shows "checkType devs annos d n =
     (if Contains (du_Type d) (device_type b) then snd (CheckType b annos d n) else (False, False))"
  using check_backends_complete [OF assms] assms(2) by (simp add: checkType_def)

definition example_request :: container_device_request where
  "example_request = \<lparr>rq_Nums = 1, rq_Type = ''NVIDIA'', rq_Memreq = 1000, rq_MemPercentagereq = 101,
     rq_Coresreq = 30\<rparr>"

definition example_device :: device_usage where
  "example_device = \<lparr>du_Id = ''GPU-1'', du_Index = 0, du_Used = 0, du_Count = 10, du_Usedmem = 0,
     du_Totalmem = 16384, du_Totalcore = 100, du_Usedcores = 0, du_Numa = 0,
     du_Type = ''NVIDIA-Tesla'', du_Health = True\<rparr>"

lemma checkType_example: "checkType GetDevices [] example_device example_request = (True, False)"
  by (simp add: checkType_def GetDevices_def example_request_def example_device_def nvidia_CheckType_def
      mlu_CheckType_def device_names checkGPUtype_def check_card_type_def assertNuma_def Contains_def
      sublist_Cons_right)

theorem checkType_any_order_witness:
  "set (rev GetDevices) = set GetDevices \<and> rq_Type example_request = device_type Nvidia
   \<and> checkType (rev GetDevices) [] example_device example_request = (True, False)"
proof -
  have h: "set (rev GetDevices) = set GetDevices" "rq_Type example_request = device_type Nvidia"
    by (simp_all add: example_request_def device_names)
  have "checkType (rev GetDevices) [] example_device example_request =
      checkType GetDevices [] example_device example_request"
    unfolding checkType_any_order [OF h] checkType_any_order [OF refl h(2)] ..
  then show ?thesis using h checkType_example by simp
qed

lemma container_requests_fold:
  assumes "(idx, rq) \<in> set (fold (\<lambda>(idx, val) counts.
      if rq_Nums (f val) > 0 then mset_to counts idx (f val) else counts) devs counts)"
  shows "(idx, rq) \<in> set counts \<or> (\<exists>val. (idx, val) \<in> set devs \<and> rq = f val \<and> rq_Nums rq > 0)"
  using assms
proof (induction devs arbitrary: counts)
  case (Cons kv devs)
  obtain k v where kv: "kv = (k, v)" by (cases kv)
  have upd: "(idx, rq) \<in> set (mset_to m k x) \<Longrightarrow> (idx, rq) \<in> set m \<or> idx = k \<and> rq = x" for m x
    by (induction m) (auto split: if_splits)
  show ?case
    using Cons.IH [of "if rq_Nums (f v) > 0 then mset_to counts k (f v) else counts"] Cons.prems upd kv
    by (auto split: if_splits)
qed simp

text \<open>C16: every request that \<open>Resourcereqs\<close> collects for a container asks for at least one device, has
  all its numbers in \<open>int32\<close>, comes from the registered backend it is filed under, and is recognised
  by that backend's \<open>CheckType\<close>: the scheduler never meets an unrecognised request of its own making.\<close>
theorem Resourcereqs_recognised:
  assumes "i < length (pod_Containers p)" and "(idx, rq) \<in> set (Resourcereqs cfg devs p ! i)"
  shows "\<exists>b. (idx, b) \<in> set devs
     \<and> rq = GenerateResourceRequests cfg b (pod_Containers p ! i)
     \<and> rq_Nums rq > 0 \<and> rq_Type rq = device_type b
     \<and> in_i32 (rq_Nums rq) \<and> in_i32 (rq_Memreq rq) \<and> in_i32 (rq_MemPercentagereq rq) \<and> in_i32 (rq_Coresreq rq)
     \<and> (\<forall>annos d. fst (CheckType b annos d rq))"
proof -
  have "(idx, rq) \<in> set (container_requests cfg devs (pod_Containers p ! i))"
    using assms by (simp add: Resourcereqs_def)
  then obtain b where b: "(idx, b) \<in> set devs" and rq: "rq = GenerateResourceRequests cfg b (pod_Containers p ! i)"
    and pos: "rq_Nums rq > 0"
    using container_requests_fold unfolding container_requests_def by fastforce
  note db = backend_device_backend [of cfg b]
  show ?thesis
    using b rq pos device_backend.gen_positive_own [OF db] device_backend.gen_range [OF db]
      device_backend.gen_positive_recognised [OF db] by blast
qed

definition example_gpu_container :: container where
  "example_gpu_container = zero_container\<lparr>ctr_Name := ''c'',
     ctr_Limits := [(''nvidia.com/gpu'', Quantity (Some 1) 1), (''nvidia.com/gpumem'', Quantity (Some 3000) 3000)]\<rparr>"

definition example_gpu_pod :: pod where
  "example_gpu_pod = example_pod\<lparr>pod_Containers := [example_gpu_container]\<rparr>"

lemmas config_defs = GlobalFlagSet_def dcu_ParseConfig_def nvidia_ParseConfig_def mlu_ParseConfig_def zero_config_def

lemma Resourcereqs_example:
  "Resourcereqs GlobalFlagSet GetDevices example_gpu_pod =
     [[(''NVIDIA'', \<lparr>rq_Nums = 1, rq_Type = ''NVIDIA'', rq_Memreq = 3000, rq_MemPercentagereq = 101, rq_Coresreq = 0\<rparr>)]]"
  by (simp add: Resourcereqs_def container_requests_def GetDevices_def example_gpu_pod_def example_gpu_container_def
      zero_container_def config_defs mlu_GenerateResourceRequests_def nvidia_GenerateResourceRequests_def
      dcu_GenerateResourceRequests_def mem_core_request_def resource_of_def resource_or_def zero_request_def
      device_names Let_def i32_def)

theorem Resourcereqs_recognised_witness:
  "\<exists>rq. (''NVIDIA'', rq) \<in> set (Resourcereqs GlobalFlagSet GetDevices example_gpu_pod ! 0)
     \<and> rq_Nums rq > 0 \<and> rq_Type rq = device_type Nvidia"
proof -
  let ?rq = "\<lparr>rq_Nums = 1, rq_Type = ''NVIDIA'', rq_Memreq = 3000, rq_MemPercentagereq = 101, rq_Coresreq = 0\<rparr>"
  have len: "0 < length (pod_Containers example_gpu_pod)"
    by (simp add: example_gpu_pod_def)
  have mem: "(''NVIDIA'', ?rq) \<in> set (Resourcereqs GlobalFlagSet GetDevices example_gpu_pod ! 0)"
    by (simp add: Resourcereqs_example)
  obtain b where "(''NVIDIA'', b) \<in> set GetDevices" "rq_Nums ?rq > 0" "rq_Type ?rq = device_type b"
    using Resourcereqs_recognised [OF len mem] by blast
  then have "rq_Nums ?rq > 0 \<and> rq_Type ?rq = device_type Nvidia"
    by (simp add: GetDevices_def)
  then show ?thesis
    using mem by blast
qed

end
