(* ===== verification/Float32.thy ===== *)
theory Float32
  imports Complex_Main
begin

text \<open>
  Go's \<open>float32\<close>: finite values are the rationals that single precision represents, and every
  operation rounds its exact result to nearest, ties to even, with 24 bits of significand.  The
  sign of zero is not represented: the program never divides by a computed score.
\<close>

datatype f32 = Fin rat | PInf | NInf | NaN

fun bits_of :: "nat \<Rightarrow> nat" where
  "bits_of n = (if n = 0 then 0 else Suc (bits_of (n div 2)))"

declare bits_of.simps [simp del]

text \<open>The binary exponent of the positive rational \<open>p / q\<close>.\<close>

definition log2_quotient :: "int \<Rightarrow> int \<Rightarrow> int" where
  "log2_quotient p q =
     (let k = int (bits_of (nat p)) - int (bits_of (nat q));
          le = (if 0 \<le> k then q * 2 ^ nat k \<le> p else q \<le> p * 2 ^ nat (- k))
      in if le then k else k - 1)"

definition round_half_even :: "int \<Rightarrow> int \<Rightarrow> int" where
  "round_half_even a b =
     (let f = a div b; r = a mod b
      in if 2 * r < b then f else if b < 2 * r then f + 1 else if even f then f else f + 1)"

text \<open>
  The rounding of \<open>p / q\<close> (both positive) to \<open>m + 1\<close> bits of significand and the least exponent
  \<open>- emin\<close>: the significand in units of \<open>2 ^ e\<close>, then the value.
\<close>

definition float_round_pos :: "int \<Rightarrow> int \<Rightarrow> int \<Rightarrow> int \<Rightarrow> rat" where
  "float_round_pos m emin p q =
     (let e = max (log2_quotient p q - m) (- emin)
      in if 0 \<le> e then of_int (round_half_even p (q * 2 ^ nat e)) * 2 ^ nat e
         else of_int (round_half_even (p * 2 ^ nat (- e)) q) / 2 ^ nat (- e))"

definition f32_round_pos :: "int \<Rightarrow> int \<Rightarrow> rat" where
  "f32_round_pos p q = float_round_pos 23 149 p q"

text \<open>
  The product of two finite \<open>float64\<close> values that does not overflow, and the conversion of such a
  value to an integer, which drops the fraction.
\<close>

definition f64_mult :: "rat \<Rightarrow> rat \<Rightarrow> rat" where
  "f64_mult a b =
     (case quotient_of (a * b) of
        (p, q) \<Rightarrow> if p = 0 then 0 else if 0 < p then float_round_pos 52 1074 p q else - float_round_pos 52 1074 (- p) q)"

definition f64_to_int :: "rat \<Rightarrow> int" where
  "f64_to_int x = (case quotient_of x of (p, q) \<Rightarrow> if 0 \<le> p then p div q else - ((- p) div q))"

definition f32_round :: "rat \<Rightarrow> f32" where
  "f32_round x =
     (case quotient_of x of
        (p, q) \<Rightarrow>
          if p = 0 then Fin 0
          else let v = f32_round_pos \<bar>p\<bar> q
               in if 2 ^ 128 \<le> v then (if 0 < p then PInf else NInf)
                  else Fin (if 0 < p then v else - v))"

definition f32_of_int :: "int \<Rightarrow> f32" where
  "f32_of_int i = f32_round (of_int i)"

fun f32_add :: "f32 \<Rightarrow> f32 \<Rightarrow> f32" where
  "f32_add (Fin a) (Fin b) = f32_round (a + b)"
| "f32_add NaN _ = NaN"
| "f32_add _ NaN = NaN"
| "f32_add PInf NInf = NaN"
| "f32_add NInf PInf = NaN"
| "f32_add PInf _ = PInf"
| "f32_add _ PInf = PInf"
| "f32_add NInf _ = NInf"
| "f32_add _ NInf = NInf"

fun f32_div :: "f32 \<Rightarrow> f32 \<Rightarrow> f32" where
  "f32_div (Fin a) (Fin b) =
     (if b = 0 then (if a = 0 then NaN else if 0 < a then PInf else NInf) else f32_round (a / b))"
| "f32_div NaN _ = NaN"
| "f32_div _ NaN = NaN"
| "f32_div (Fin _) _ = Fin 0"
| "f32_div PInf (Fin b) = (if 0 \<le> b then PInf else NInf)"
| "f32_div NInf (Fin b) = (if 0 \<le> b then NInf else PInf)"
| "f32_div _ _ = NaN"

fun f32_less :: "f32 \<Rightarrow> f32 \<Rightarrow> bool" where
  "f32_less (Fin a) (Fin b) \<longleftrightarrow> a < b"
| "f32_less NaN _ \<longleftrightarrow> False"
| "f32_less _ NaN \<longleftrightarrow> False"
| "f32_less NInf b \<longleftrightarrow> b \<noteq> NInf"
| "f32_less a PInf \<longleftrightarrow> a \<noteq> PInf"
| "f32_less _ _ \<longleftrightarrow> False"

lemma f32_less_irrefl: "\<not> f32_less a a"
  by (cases a) simp_all

end
