(* ===== verification/Score.thy ===== *)
theory Score
  imports Devices Float32
begin

text \<open>
  The placement algorithm of \<open>pkg/scheduler/score.go\<close>.  \<open>fitInCertainDevice\<close> picks devices for
  one request by scanning a node's devices from the last to the first; \<open>fitInDevices\<close> runs it for
  the requests of one container and books what was picked; \<open>calcScore\<close> does so for all containers
  of a pod on all candidate nodes and collects the nodes that are accepted with their score.
\<close>

section \<open>Order of devices and of scores\<close>

definition DeviceUsageList_Less :: "device_usage \<Rightarrow> device_usage \<Rightarrow> bool" where
  "DeviceUsageList_Less a b =
     (if du_Numa a = du_Numa b
      then i32 (du_Count a - du_Used a) < i32 (du_Count b - du_Used b)
      else du_Numa a < du_Numa b)"

record node_score =
  ns_nodeID :: string
  ns_devices :: pod_devices
  ns_score :: f32

definition NodeScoreList_Less :: "node_score \<Rightarrow> node_score \<Rightarrow> bool" where
  "NodeScoreList_Less a b = f32_less (ns_score a) (ns_score b)"

section \<open>One request on one node\<close>

text \<open>The memory a request takes from a device: its own amount, or a percentage of the card.\<close>

definition mem_request :: "container_device_request \<Rightarrow> device_usage \<Rightarrow> int" where
  "mem_request k d =
     (let memreq = (if rq_Memreq k > 0 then rq_Memreq k else 0)
      in if rq_MemPercentagereq k \<noteq> 101 \<and> rq_Memreq k = 0
         then go_div (i32 (du_Totalmem d * rq_MemPercentagereq k)) 100 else memreq)"

definition make_assignment :: "container_device_request \<Rightarrow> nat \<Rightarrow> device_usage \<Rightarrow> container_device" where
  "make_assignment k i d =
     \<lparr>cd_Idx = int i, cd_UUID = du_Id d, cd_Type = rq_Type k, cd_Usedmem = mem_request k d,
      cd_Usedcores = rq_Coresreq k\<rparr>"

text \<open>
  One turn of the loop at device \<open>i\<close>: \<open>Inl\<close> is a return, \<open>Inr\<close> goes on to the next device.
  \<open>chk\<close> is \<open>checkType\<close> applied to the pod's annotations, \<open>k\<close> the request with its remaining
  count, \<open>tmpDevs\<close> what was picked so far; \<open>originReq\<close> and \<open>prevnuma\<close> serve the restart on a new
  NUMA node.
\<close>

definition fit_step ::
  "(device_usage \<Rightarrow> container_device_request \<Rightarrow> bool \<times> bool) \<Rightarrow> int \<Rightarrow> nat \<Rightarrow> device_usage \<Rightarrow>
   container_device_request \<times> int \<times> (string, container_devices) gomap \<Rightarrow>
   (bool \<times> (string, container_devices) gomap)
     + (container_device_request \<times> int \<times> (string, container_devices) gomap)" where
  "fit_step chk originReq i d s =
     (case s of (k, prevnuma, tmpDevs) \<Rightarrow>
      case chk d k of (found, numa) \<Rightarrow>
        if \<not> found then Inr (k, prevnuma, tmpDevs)
        else
          let restart = (numa \<and> prevnuma \<noteq> du_Numa d);
              k' = (if restart then k\<lparr>rq_Nums := originReq\<rparr> else k);
              prevnuma' = (if restart then du_Numa d else prevnuma);
              tmpDevs' = (if restart then [] else tmpDevs);
              continue = Inr (k', prevnuma', tmpDevs');
              memreq = mem_request k' d
          in if du_Count d \<le> du_Used d then continue
             else if rq_Coresreq k' > 100 then Inl (False, tmpDevs')
             else if i32 (du_Totalmem d - du_Usedmem d) < memreq then continue
             else if i32 (du_Totalcore d - du_Usedcores d) < rq_Coresreq k' then continue
             else if du_Totalcore d = 100 \<and> rq_Coresreq k' = 100 \<and> du_Used d > 0 then continue
             else if du_Totalcore d \<noteq> 0 \<and> du_Usedcores d = du_Totalcore d \<and> rq_Coresreq k' = 0 then continue
             else
               let wanted = (rq_Nums k' > 0);
                   k'' = (if wanted then k'\<lparr>rq_Nums := rq_Nums k' - 1\<rparr> else k');
                   tmpDevs'' =
                     (if wanted
                      then mset_to tmpDevs' (rq_Type k')
                             (mget_list tmpDevs' (rq_Type k') @ [make_assignment k' i d])
                      else tmpDevs')
               in if rq_Nums k'' = 0 then Inl (True, tmpDevs'') else Inr (k'', prevnuma', tmpDevs''))"

text \<open>The loop, from index \<open>len(node.Devices) - 1\<close> down to 0.\<close>

primrec fit_loop ::
  "(device_usage \<Rightarrow> container_device_request \<Rightarrow> bool \<times> bool) \<Rightarrow> device_usage list \<Rightarrow> int \<Rightarrow> nat \<Rightarrow>
   container_device_request \<times> int \<times> (string, container_devices) gomap \<Rightarrow>
   bool \<times> (string, container_devices) gomap" where
  "fit_loop chk ds originReq 0 s = (False, snd (snd s))"
| "fit_loop chk ds originReq (Suc i) s =
     (case fit_step chk originReq i (ds ! i) s of
        Inl r \<Rightarrow> r
      | Inr s' \<Rightarrow> fit_loop chk ds originReq i s')"

definition fitInCertainDevice ::
  "(device_usage \<Rightarrow> container_device_request \<Rightarrow> bool \<times> bool) \<Rightarrow> device_usage list \<Rightarrow>
   container_device_request \<Rightarrow> bool \<times> (string, container_devices) gomap" where
  "fitInCertainDevice chk ds request =
     fit_loop chk ds (rq_Nums request) (length ds) (request, - 1, [])"

section \<open>The requests of one container\<close>

text \<open>Booking one picked device: the device's new usage, and the totals for the score.\<close>

definition book_usage :: "container_device \<Rightarrow> device_usage \<Rightarrow> device_usage" where
  "book_usage val d = d\<lparr>du_Used := i32 (du_Used d + 1),
     du_Usedcores := i32 (du_Usedcores d + cd_Usedcores val),
     du_Usedmem := i32 (du_Usedmem d + cd_Usedmem val)\<rparr>"

fun book_device :: "container_device \<Rightarrow> int \<times> int \<times> device_usage list \<Rightarrow> int \<times> int \<times> device_usage list" where
  "book_device val (tot, free, ds) =
     (let d = ds ! nat (cd_Idx val)
      in (i32 (tot + du_Count d),
          i32 (free + i32 (du_Count d - du_Used d)),
          ds[nat (cd_Idx val) := book_usage val d]))"

record fit_result =
  fr_fit :: bool
  fr_score :: f32
  fr_devices :: "device_usage list"
  fr_devinput :: pod_devices

fun fit_requests ::
  "(device_usage list \<Rightarrow> device_usage list) \<Rightarrow> (device_usage \<Rightarrow> container_device_request \<Rightarrow> bool \<times> bool) \<Rightarrow>
   container_device_requests \<Rightarrow> container_devices \<Rightarrow> int \<Rightarrow> int \<Rightarrow> int \<Rightarrow> device_usage list \<Rightarrow> pod_devices \<Rightarrow>
   fit_result" where
  "fit_requests srt chk [] devs tot free nsum ds devinput =
     \<lparr>fr_fit = True,
      fr_score = f32_add (f32_div (f32_of_int tot) (f32_of_int free)) (f32_of_int (int (length ds) - nsum)),
      fr_devices = ds, fr_devinput = devinput\<rparr>"
| "fit_requests srt chk ((_, k) # requests) devs tot free nsum ds devinput =
     (let nsum' = nsum + rq_Nums k
      in if rq_Nums k > int (length ds)
         then \<lparr>fr_fit = False, fr_score = Fin 0, fr_devices = ds, fr_devinput = devinput\<rparr>
         else
           let ds' = srt ds
           in case fitInCertainDevice chk ds' k of (fit, tmpDevs) \<Rightarrow>
                if \<not> fit then \<lparr>fr_fit = False, fr_score = Fin 0, fr_devices = ds', fr_devinput = devinput\<rparr>
                else
                  let picked = mget_list tmpDevs (rq_Type k);
                      devs' = devs @ picked
                  in case fold book_device picked (tot, free, ds') of (tot', free', ds'') \<Rightarrow>
                       fit_requests srt chk requests devs' tot' free' nsum' ds''
                         (mset_to devinput (rq_Type k) (mget_list devinput (rq_Type k) @ [devs'])))"

definition fitInDevices ::
  "(device_usage list \<Rightarrow> device_usage list) \<Rightarrow> (device_usage \<Rightarrow> container_device_request \<Rightarrow> bool \<times> bool) \<Rightarrow>
   device_usage list \<Rightarrow> container_device_requests \<Rightarrow> pod_devices \<Rightarrow> fit_result" where
  "fitInDevices srt chk ds requests devinput = fit_requests srt chk requests [] 0 0 0 ds devinput"

section \<open>All containers, all nodes\<close>

definition request_sum :: "container_device_requests \<Rightarrow> int" where
  "request_sum n = sum_list (map (\<lambda>(_, k). rq_Nums k) n)"

text \<open>
  A container without requests: \<open>score.devices[idx][ctrid] = append(...)\<close> for every device type
  already present; the assignment panics where the slice is shorter than the container's index.
\<close>

definition pad_container :: "nat \<Rightarrow> pod_devices \<Rightarrow> pod_devices result" where
  "pad_container ctrid devinput =
     (if list_ex (\<lambda>(_, v). length v \<le> ctrid) devinput then Inl (GoPanic ''index out of range'')
      else Inr (map (\<lambda>(k, v). (k, v[ctrid := v ! ctrid @ [zero_container_device]])) devinput))"

fun score_containers ::
  "(device_usage list \<Rightarrow> device_usage list) \<Rightarrow> (device_usage \<Rightarrow> container_device_request \<Rightarrow> bool \<times> bool) \<Rightarrow>
   nat \<Rightarrow> pod_device_requests \<Rightarrow> device_usage list \<Rightarrow> pod_devices \<Rightarrow> f32 \<Rightarrow>
   (device_usage list \<times> pod_devices \<times> f32) result" where
  "score_containers srt chk ctrid [] ds devinput score = Inr (ds, devinput, score)"
| "score_containers srt chk ctrid (n # nums) ds devinput score =
     (if request_sum n = 0
      then bind_result (pad_container ctrid devinput)
             (\<lambda>devinput'. score_containers srt chk (Suc ctrid) nums ds devinput' score)
      else
        let r = fitInDevices srt chk ds n devinput
        in if fr_fit r
           then score_containers srt chk (Suc ctrid) nums (fr_devices r) (fr_devinput r)
                  (f32_add score (fr_score r))
           else Inr (fr_devices r, fr_devinput r, score))"

text \<open>
  \<open>calcScore\<close>: the accepted nodes with their scores, and the usage of every node after the attempt
  (the caller's map holds pointers, so the bookings stay visible there).
\<close>

fun calcScore ::
  "(device_usage list \<Rightarrow> device_usage list) \<Rightarrow> (device_usage \<Rightarrow> container_device_request \<Rightarrow> bool \<times> bool) \<Rightarrow>
   pod_device_requests \<Rightarrow> (string, device_usage list) gomap \<Rightarrow>
   (node_score list \<times> (string, device_usage list) gomap) result" where
  "calcScore srt chk nums [] = Inr ([], [])"
| "calcScore srt chk nums ((nodeID, ds) # nodes) =
     bind_result (score_containers srt chk 0 nums ds [] (Fin 0))
       (\<lambda>(ds', devinput, score).
          bind_result (calcScore srt chk nums nodes)
            (\<lambda>(res, nodes').
               Inr (if length devinput = length nums
                    then \<lparr>ns_nodeID = nodeID, ns_devices = devinput, ns_score = score\<rparr> # res else res,
                    (nodeID, ds') # nodes')))"

section \<open>Eligible devices\<close>

text \<open>
  The specification of \<open>fitInCertainDevice\<close>: which devices may serve a request.  The conditions are
  those of the scan, each of them about one device.
\<close>

definition eligible ::
  "(device_usage \<Rightarrow> container_device_request \<Rightarrow> bool \<times> bool) \<Rightarrow> container_device_request \<Rightarrow> device_usage \<Rightarrow> bool" where
  "eligible chk k d \<longleftrightarrow>
     fst (chk d k) \<and> du_Used d < du_Count d \<and> rq_Coresreq k \<le> 100
     \<and> mem_request k d \<le> i32 (du_Totalmem d - du_Usedmem d)
     \<and> rq_Coresreq k \<le> i32 (du_Totalcore d - du_Usedcores d)
     \<and> \<not> (du_Totalcore d = 100 \<and> rq_Coresreq k = 100 \<and> du_Used d > 0)
     \<and> \<not> (du_Totalcore d \<noteq> 0 \<and> du_Usedcores d = du_Totalcore d \<and> rq_Coresreq k = 0)"

text \<open>The device check does not look at the number of devices requested.\<close>

definition nums_free :: "(device_usage \<Rightarrow> container_device_request \<Rightarrow> bool \<times> bool) \<Rightarrow> bool" where
  "nums_free chk \<longleftrightarrow> (\<forall>d k n. chk d (k\<lparr>rq_Nums := n\<rparr>) = chk d k)"

lemma nums_freeD: "nums_free chk \<Longrightarrow> chk d (k\<lparr>rq_Nums := n\<rparr>) = chk d k"
  by (simp add: nums_free_def)

lemma CheckType_nums: "CheckType b annos d (k\<lparr>rq_Nums := n\<rparr>) = CheckType b annos d k"
  by (cases b) (simp_all add: nvidia_CheckType_def mlu_CheckType_def dcu_CheckType_def)

lemma nums_free_checkType [simp]: "nums_free (checkType devs annos)"
proof -
  have "check_backends devs annos d (k\<lparr>rq_Nums := n\<rparr>) = check_backends devs annos d k" for d k n
    by (induction devs) (auto simp: CheckType_nums split: prod.splits)
  then show ?thesis
    by (simp add: nums_free_def checkType_def)
qed

lemma mem_request_nums [simp]: "mem_request (k\<lparr>rq_Nums := n\<rparr>) d = mem_request k d"
  by (simp add: mem_request_def Let_def)

lemma make_assignment_nums [simp]: "make_assignment (k\<lparr>rq_Nums := n\<rparr>) i d = make_assignment k i d"
  by (simp add: make_assignment_def)

lemma guard_chain:
  "(if a then c else if b then f else if p then c else if q then c else if r then c else if s then c else t) =
   (if \<not> a \<and> \<not> b \<and> \<not> p \<and> \<not> q \<and> \<not> r \<and> \<not> s then t else if \<not> a \<and> b then f else c)"
  by simp

lemma eligible_guards:
  "fst (chk d k) \<Longrightarrow> eligible chk k d \<longleftrightarrow>
     \<not> du_Count d \<le> du_Used d \<and> \<not> 100 < rq_Coresreq k
     \<and> \<not> i32 (du_Totalmem d - du_Usedmem d) < mem_request k d
     \<and> \<not> i32 (du_Totalcore d - du_Usedcores d) < rq_Coresreq k
     \<and> \<not> (du_Totalcore d = 100 \<and> rq_Coresreq k = 100 \<and> du_Used d > 0)
     \<and> \<not> (du_Totalcore d \<noteq> 0 \<and> du_Usedcores d = du_Totalcore d \<and> rq_Coresreq k = 0)"
  by (simp add: eligible_def not_le not_less)

text \<open>One turn of the scan in terms of \<open>eligible\<close>.\<close>

lemma fit_step_eligible:
  assumes "nums_free chk"
  shows "fit_step chk orig i d (k\<lparr>rq_Nums := n\<rparr>, prev, tmp) =
    (if \<not> fst (chk d k) then Inr (k\<lparr>rq_Nums := n\<rparr>, prev, tmp)
     else
       let restart = (snd (chk d k) \<and> prev \<noteq> du_Numa d);
           n' = (if restart then orig else n);
           prev' = (if restart then du_Numa d else prev);
           tmp' = (if restart then [] else tmp)
       in if eligible chk k d then
            if n' > 0 then
              let tmp'' = mset_to tmp' (rq_Type k) (mget_list tmp' (rq_Type k) @ [make_assignment k i d])
              in if n' = 1 then Inl (True, tmp'') else Inr (k\<lparr>rq_Nums := n' - 1\<rparr>, prev', tmp'')
            else if n' = 0 then Inl (True, tmp') else Inr (k\<lparr>rq_Nums := n'\<rparr>, prev', tmp')
          else if du_Used d < du_Count d \<and> rq_Coresreq k > 100 then Inl (False, tmp')
          else Inr (k\<lparr>rq_Nums := n'\<rparr>, prev', tmp'))"
proof (cases "chk d k")
  case (Pair found numa)
  show ?thesis
  proof (cases found)
    case False
    then show ?thesis
      using Pair by (simp add: fit_step_def nums_freeD [OF assms])
  next
    case True
    then have el: "eligible chk k d \<longleftrightarrow>
        \<not> du_Count d \<le> du_Used d \<and> \<not> 100 < rq_Coresreq k
        \<and> \<not> i32 (du_Totalmem d - du_Usedmem d) < mem_request k d
        \<and> \<not> i32 (du_Totalcore d - du_Usedcores d) < rq_Coresreq k
        \<and> \<not> (du_Totalcore d = 100 \<and> rq_Coresreq k = 100 \<and> du_Used d > 0)
        \<and> \<not> (du_Totalcore d \<noteq> 0 \<and> du_Usedcores d = du_Totalcore d \<and> rq_Coresreq k = 0)"
      using Pair by (intro eligible_guards) simp
    define restart where "restart = (numa \<and> prev \<noteq> du_Numa d)"
    show ?thesis
      unfolding fit_step_def Let_def
      unfolding prod.case nums_freeD [OF assms] Pair True fst_conv snd_conv simp_thms if_True if_False
      unfolding restart_def [symmetric] guard_chain
      by (cases restart) (simp_all add: el)
  qed
qed

section \<open>What the scan returns is a valid assignment\<close>

definition picked_ok ::
  "(device_usage \<Rightarrow> container_device_request \<Rightarrow> bool \<times> bool) \<Rightarrow> device_usage list \<Rightarrow> container_device_request \<Rightarrow>
   int \<Rightarrow> container_devices \<Rightarrow> bool" where
  "picked_ok chk ds k v sel \<longleftrightarrow>
     sorted_wrt (\<lambda>a b. cd_Idx b < cd_Idx a) sel
     \<and> (\<forall>a\<in>set sel. \<exists>j<length ds. a = make_assignment k j (ds ! j) \<and> eligible chk k (ds ! j)
          \<and> (snd (chk (ds ! j) k) \<longrightarrow> du_Numa (ds ! j) = v))"

definition above :: "nat \<Rightarrow> container_devices \<Rightarrow> bool" where
  "above i sel \<longleftrightarrow> (\<forall>a\<in>set sel. int i \<le> cd_Idx a)"

lemma picked_ok_Nil [simp]: "picked_ok chk ds k v []"
  by (simp add: picked_ok_def)

lemma above_Suc: "above (Suc i) sel \<Longrightarrow> above i sel"
  by (auto simp: above_def)

lemma above_snoc: "above (Suc i) sel \<Longrightarrow> above i (sel @ [make_assignment k i d])"
  by (auto simp: above_def make_assignment_def)

lemma picked_ok_snoc:
  assumes "picked_ok chk ds k v sel" and "above (Suc i) sel" and "i < length ds"
    and "eligible chk k (ds ! i)" and "snd (chk (ds ! i) k) \<longrightarrow> du_Numa (ds ! i) = v"
  shows "picked_ok chk ds k v (sel @ [make_assignment k i (ds ! i)])"
  using assms by (auto simp: picked_ok_def above_def make_assignment_def sorted_wrt_append)

lemma fit_loop_picked:
  assumes "nums_free chk"
  shows "\<lbrakk> i \<le> length ds; 0 < n; 0 < orig; n + int (length (mget_list tmp (rq_Type k))) = orig;
     picked_ok chk ds k prev (mget_list tmp (rq_Type k)); above i (mget_list tmp (rq_Type k));
     fit_loop chk ds orig i (k\<lparr>rq_Nums := n\<rparr>, prev, tmp) = (True, tmp') \<rbrakk> \<Longrightarrow>
     int (length (mget_list tmp' (rq_Type k))) = orig \<and>
     (\<exists>v. picked_ok chk ds k v (mget_list tmp' (rq_Type k)))"
proof (induction i arbitrary: n prev tmp)
  case 0
  then show ?case by simp
next
  case (Suc i)
  let ?d = "ds ! i"
  have i: "i < length ds" "i \<le> length ds" using Suc.prems(1) by simp_all
  show ?case
  proof (cases "fst (chk ?d k)")
    case False
    then have "fit_loop chk ds orig i (k\<lparr>rq_Nums := n\<rparr>, prev, tmp) = (True, tmp')"
      using Suc.prems(7) by (simp add: fit_step_eligible [OF assms])
    then show ?thesis
      using Suc.IH [of n tmp prev] Suc.prems(2-6) i above_Suc by blast
  next
    case True
    define restart where "restart = (snd (chk ?d k) \<and> prev \<noteq> du_Numa ?d)"
    define n' where "n' = (if restart then orig else n)"
    define prev' where "prev' = (if restart then du_Numa ?d else prev)"
    define tm where "tm = (if restart then [] else tmp)"
    have st: "0 < n'" "n' + int (length (mget_list tm (rq_Type k))) = orig"
      "picked_ok chk ds k prev' (mget_list tm (rq_Type k))" "above (Suc i) (mget_list tm (rq_Type k))"
      "snd (chk ?d k) \<longrightarrow> du_Numa ?d = prev'"
      using Suc.prems by (auto simp: n'_def prev'_def tm_def restart_def above_def)
    have step: "fit_step chk orig i ?d (k\<lparr>rq_Nums := n\<rparr>, prev, tmp) =
      (if eligible chk k ?d then
         let tmp'' = mset_to tm (rq_Type k) (mget_list tm (rq_Type k) @ [make_assignment k i ?d])
         in if n' = 1 then Inl (True, tmp'') else Inr (k\<lparr>rq_Nums := n' - 1\<rparr>, prev', tmp'')
       else if du_Used ?d < du_Count ?d \<and> rq_Coresreq k > 100 then Inl (False, tm)
       else Inr (k\<lparr>rq_Nums := n'\<rparr>, prev', tm))"
      using True st(1) by (simp add: fit_step_eligible [OF assms] restart_def n'_def prev'_def tm_def Let_def)
    show ?thesis
    proof (cases "eligible chk k ?d")
      case el: True
      define tm2 where
        "tm2 = mset_to tm (rq_Type k) (mget_list tm (rq_Type k) @ [make_assignment k i ?d])"
      have sel: "mget_list tm2 (rq_Type k) = mget_list tm (rq_Type k) @ [make_assignment k i ?d]"
        by (simp add: tm2_def)
      have ok: "picked_ok chk ds k prev' (mget_list tm2 (rq_Type k))" "above i (mget_list tm2 (rq_Type k))"
        unfolding sel using picked_ok_snoc [OF st(3,4) i(1) el st(5)] above_snoc [OF st(4)] by simp_all
      have len: "int (length (mget_list tm2 (rq_Type k))) = int (length (mget_list tm (rq_Type k))) + 1"
        by (simp add: sel)
      show ?thesis
      proof (cases "n' = 1")
        case True
        then have "tmp' = tm2"
          using Suc.prems(7) step el by (simp add: tm2_def Let_def)
        then show ?thesis using ok(1) len st(2) True by auto
      next
        case False
        then have "fit_loop chk ds orig i (k\<lparr>rq_Nums := n' - 1\<rparr>, prev', tm2) = (True, tmp')"
          using Suc.prems(7) step el by (simp add: tm2_def Let_def)
        then show ?thesis
          using Suc.IH [of "n' - 1" tm2 prev'] ok len st False i Suc.prems(3) by force
      qed
    next
      case False
      then have "fit_loop chk ds orig i (k\<lparr>rq_Nums := n'\<rparr>, prev', tm) = (True, tmp')"
        using Suc.prems(7) step by (auto split: if_splits)
      then show ?thesis
        using Suc.IH [of n' tm prev'] st above_Suc i Suc.prems(3) by blast
    qed
  qed
qed

lemma fitInCertainDevice_picked:
  assumes "nums_free chk" and "0 < rq_Nums k" and "fitInCertainDevice chk ds k = (True, tmp)"
  shows "int (length (mget_list tmp (rq_Type k))) = rq_Nums k
     \<and> (\<exists>v. picked_ok chk ds k v (mget_list tmp (rq_Type k)))"
  using fit_loop_picked [OF assms(1), of "length ds" ds "rq_Nums k" "rq_Nums k" "[]" k "- 1" tmp] assms(2,3)
  by (simp add: fitInCertainDevice_def above_def)

section \<open>The scan finds an assignment whenever there is one\<close>

lemma filter_take_Suc:
  "i < length ds \<Longrightarrow> length (filter P (take (Suc i) ds)) = length (filter P (take i ds)) + (if P (ds ! i) then 1 else 0)"
  by (simp add: take_Suc_conv_app_nth)

lemma fit_loop_complete_plain:
  assumes "nums_free chk" and "\<And>d. d \<in> set ds \<Longrightarrow> \<not> snd (chk d k)"
  shows "i \<le> length ds \<Longrightarrow> 0 < n \<Longrightarrow>
     fst (fit_loop chk ds orig i (k\<lparr>rq_Nums := n\<rparr>, prev, tmp)) \<longleftrightarrow>
     n \<le> int (length (filter (eligible chk k) (take i ds)))"
proof (induction i arbitrary: n prev tmp)
  case 0
  then show ?case by simp
next
  case (Suc i)
  let ?d = "ds ! i"
  have i: "i < length ds" "i \<le> length ds" using Suc.prems(1) by simp_all
  have plain: "\<not> snd (chk ?d k)" using assms(2) i by simp
  have zero: "\<not> eligible chk k d" if "rq_Coresreq k > 100" for d
    using that by (simp add: eligible_def)
  show ?case
  proof (cases "eligible chk k ?d")
    case True
    then have "fst (chk ?d k)" by (simp add: eligible_def)
    then show ?thesis
      using True plain Suc.IH [of "n - 1"] Suc.prems i
      by (auto simp: fit_step_eligible [OF assms(1)] Let_def filter_take_Suc)
  next
    case False
    then show ?thesis
      using plain Suc.IH [of n] Suc.prems i zero
      by (auto simp: fit_step_eligible [OF assms(1)] Let_def filter_take_Suc)
  qed
qed

lemma fit_loop_complete_numa:
  assumes "nums_free chk" and numa: "\<And>d. d \<in> set ds \<Longrightarrow> fst (chk d k) \<Longrightarrow> snd (chk d k)"
    and sorted: "sorted (map du_Numa ds)" and "0 < orig"
  defines "cnt \<equiv> \<lambda>i v. int (length (filter (\<lambda>d. eligible chk k d \<and> du_Numa d = v) (take i ds)))"
  shows "\<lbrakk> i \<le> length ds; 0 < n; n = orig \<or> (\<forall>d\<in>set (take i ds). du_Numa d \<le> prev) \<rbrakk> \<Longrightarrow>
     fst (fit_loop chk ds orig i (k\<lparr>rq_Nums := n\<rparr>, prev, tmp)) \<longleftrightarrow>
     n \<le> cnt i prev \<or> (\<exists>v. v \<noteq> prev \<and> orig \<le> cnt i v)"
proof (induction i arbitrary: n prev tmp)
  case 0
  then show ?case using assms(4) by (simp add: cnt_def)
next
  case (Suc i)
  let ?d = "ds ! i" and ?v = "du_Numa (ds ! i)"
  have i: "i < length ds" "i \<le> length ds" using Suc.prems(1) by simp_all
  have cnt_Suc: "cnt (Suc i) v = cnt i v + (if eligible chk k ?d \<and> ?v = v then 1 else 0)" for v
    using filter_take_Suc [OF i(1)] by (simp add: cnt_def)
  have below: "du_Numa d \<le> ?v" if "d \<in> set (take i ds)" for d
  proof -
    from that obtain j where "j < i" "d = ds ! j"
      by (metis i(2) in_set_conv_nth length_take min.absorb2 nth_take)
    then show ?thesis
      using sorted_nth_mono [OF sorted, of j i] i by simp
  qed
  have cnt_other: "cnt (Suc i) v = cnt i v" if "v \<noteq> ?v" for v
    using cnt_Suc [of v] that by auto
  have cnt_nonneg: "0 \<le> cnt i v" for v
    by (simp add: cnt_def)
  have cnt0: "cnt i v = 0" if "v > ?v" for v
    using below that by (fastforce simp: cnt_def filter_empty_conv)
  have zero: "\<not> eligible chk k d" if "rq_Coresreq k > 100" for d
    using that by (simp add: eligible_def)
  have sub: "n = orig \<or> (\<forall>d\<in>set (take i ds). du_Numa d \<le> prev)"
    using Suc.prems(3) by (auto dest: in_set_takeD simp: take_Suc_conv_app_nth [OF i(1)])
  show ?case
  proof (cases "fst (chk ?d k)")
    case False
    then have "\<not> eligible chk k ?d" by (simp add: eligible_def)
    then show ?thesis
      using False Suc.IH [OF i(2) Suc.prems(2) sub] by (simp add: fit_step_eligible [OF assms(1)] cnt_Suc)
  next
    case found: True
    define n' where "n' = (if prev \<noteq> ?v then orig else n)"
    define tm where "tm = (if prev \<noteq> ?v then [] else tmp)"
    have n': "0 < n'" using Suc.prems(2) assms(4) by (simp add: n'_def)
    have step: "fit_step chk orig i ?d (k\<lparr>rq_Nums := n\<rparr>, prev, tmp) =
      (if eligible chk k ?d then
         let tmp'' = mset_to tm (rq_Type k) (mget_list tm (rq_Type k) @ [make_assignment k i ?d])
         in if n' = 1 then Inl (True, tmp'') else Inr (k\<lparr>rq_Nums := n' - 1\<rparr>, ?v, tmp'')
       else if du_Used ?d < du_Count ?d \<and> rq_Coresreq k > 100 then Inl (False, tm)
       else Inr (k\<lparr>rq_Nums := n'\<rparr>, ?v, tm))"
      using found numa [of ?d] i(1) n' by (simp add: fit_step_eligible [OF assms(1)] n'_def tm_def Let_def)
    have goal: "fst (fit_loop chk ds orig (Suc i) (k\<lparr>rq_Nums := n\<rparr>, prev, tmp)) \<longleftrightarrow>
        n' \<le> cnt (Suc i) ?v \<or> (\<exists>v. v \<noteq> ?v \<and> orig \<le> cnt i v)"
    proof (cases "eligible chk k ?d")
      case True
      then show ?thesis
        using step Suc.IH [of "n' - 1" ?v] i n' below cnt_Suc cnt_nonneg [of ?v] by (auto simp: Let_def)
    next
      case False
      then show ?thesis
        using step Suc.IH [of n' ?v] i n' below cnt_Suc zero assms(4)
        by (auto simp: cnt_def)
    qed
    have "n' \<le> cnt (Suc i) ?v \<or> (\<exists>v. v \<noteq> ?v \<and> orig \<le> cnt i v) \<longleftrightarrow>
        n \<le> cnt (Suc i) prev \<or> (\<exists>v. v \<noteq> prev \<and> orig \<le> cnt (Suc i) v)"
    proof (cases "prev = ?v")
      case True
      then show ?thesis using cnt_other by (metis n'_def)
    next
      case ne: False
      show ?thesis
      proof (cases "n = orig")
        case True
        then show ?thesis using ne cnt_other by (metis n'_def)
      next
        case False
        then have "?v < prev"
          using Suc.prems(3) ne i by (force simp: take_Suc_conv_app_nth)
        then have "cnt (Suc i) prev = 0" and "cnt i prev = 0"
          using cnt0 cnt_other ne by simp_all
        then show ?thesis
          using ne assms(4) Suc.prems(2) cnt_other
          by (metis (no_types, lifting) leD n'_def)
      qed
    qed
    with goal show ?thesis by simp
  qed
qed

lemma request_self_update [simp]: "k\<lparr>rq_Nums := rq_Nums k\<rparr> = k"
  by simp

section \<open>Booking\<close>

text \<open>
  The effect of a list of assignments on a device, independent of their order and of the device's
  position: every assignment that names the device adds one use and its amounts.
\<close>

definition uses_of :: "string \<Rightarrow> container_devices \<Rightarrow> container_devices" where
  "uses_of uuid sel = filter (\<lambda>a. cd_UUID a = uuid) sel"

definition book_all :: "container_devices \<Rightarrow> device_usage \<Rightarrow> device_usage" where
  "book_all sel d = d\<lparr>
     du_Used := i32 (du_Used d + int (length (uses_of (du_Id d) sel))),
     du_Usedcores := i32 (du_Usedcores d + sum_list (map cd_Usedcores (uses_of (du_Id d) sel))),
     du_Usedmem := i32 (du_Usedmem d + sum_list (map cd_Usedmem (uses_of (du_Id d) sel)))\<rparr>"

text \<open>A device whose usage is within its capacity.\<close>

definition usage_ok :: "device_usage \<Rightarrow> bool" where
  "usage_ok d \<longleftrightarrow>
     0 \<le> du_Used d \<and> du_Used d \<le> du_Count d \<and> du_Count d < 2 ^ 31
     \<and> 0 \<le> du_Usedmem d \<and> du_Usedmem d \<le> du_Totalmem d \<and> du_Totalmem d < 2 ^ 31
     \<and> 0 \<le> du_Usedcores d \<and> du_Usedcores d \<le> du_Totalcore d \<and> du_Totalcore d < 2 ^ 31"

text \<open>A request whose amounts are not negative and whose percentage does not overflow on the device.\<close>

definition request_ok :: "container_device_request \<Rightarrow> device_usage \<Rightarrow> bool" where
  "request_ok k d \<longleftrightarrow>
     0 \<le> rq_Memreq k \<and> 0 \<le> rq_Coresreq k \<and> 0 \<le> rq_MemPercentagereq k
     \<and> du_Totalmem d * rq_MemPercentagereq k < 2 ^ 31"

lemma book_usage_fields [simp]:
  "du_Id (book_usage a d) = du_Id d" "du_Count (book_usage a d) = du_Count d"
  "du_Totalmem (book_usage a d) = du_Totalmem d" "du_Totalcore (book_usage a d) = du_Totalcore d"
  "du_Numa (book_usage a d) = du_Numa d" "du_Type (book_usage a d) = du_Type d"
  by (simp_all add: book_usage_def)

lemma book_all_fields [simp]:
  "du_Id (book_all sel d) = du_Id d" "du_Count (book_all sel d) = du_Count d"
  "du_Totalmem (book_all sel d) = du_Totalmem d" "du_Totalcore (book_all sel d) = du_Totalcore d"
  "du_Numa (book_all sel d) = du_Numa d" "du_Type (book_all sel d) = du_Type d"
  by (simp_all add: book_all_def)

lemma request_ok_book_all [simp]: "request_ok k (book_all sel d) \<longleftrightarrow> request_ok k d"
  by (simp add: request_ok_def)

lemma request_ok_book_usage [simp]: "request_ok k (book_usage a d) \<longleftrightarrow> request_ok k d"
  by (simp add: request_ok_def)

lemma book_all_append: "book_all (xs @ ys) d = book_all ys (book_all xs d)"
  by (simp add: book_all_def uses_of_def i32_simps add.assoc)

lemma book_all_comp: "book_all (xs @ ys) = book_all ys \<circ> book_all xs"
  by (rule ext) (simp add: book_all_append)

lemma du_Id_comp_book_all [simp]: "du_Id \<circ> book_all sel = du_Id"
  by (rule ext) simp

lemma book_all_mset: "mset xs = mset ys \<Longrightarrow> book_all xs d = book_all ys d"
proof -
  assume "mset xs = mset ys"
  then have eq: "mset (uses_of (du_Id d) xs) = mset (uses_of (du_Id d) ys)"
    by (simp add: uses_of_def)
  have "sum_list (map f (uses_of (du_Id d) xs)) = sum_list (map f (uses_of (du_Id d) ys))"
    for f :: "container_device \<Rightarrow> int"
    by (metis eq mset_map sum_mset_sum_list)
  moreover have "length (uses_of (du_Id d) xs) = length (uses_of (du_Id d) ys)"
    using eq by (metis size_mset)
  ultimately show ?thesis by (simp add: book_all_def)
qed

lemma book_all_single: "cd_UUID a = du_Id d \<Longrightarrow> book_all [a] d = book_usage a d"
  by (simp add: book_all_def book_usage_def uses_of_def)

text \<open>Devices keep their usage in \<open>int32\<close>, so booking nothing changes nothing.\<close>

lemma book_all_other:
  "usage_ok d \<Longrightarrow> du_Id d \<notin> cd_UUID ` set sel \<Longrightarrow> book_all sel d = d"
proof -
  assume ok: "usage_ok d" and "du_Id d \<notin> cd_UUID ` set sel"
  then have "uses_of (du_Id d) sel = []"
    by (force simp: uses_of_def filter_empty_conv)
  then show ?thesis
    using ok by (simp add: book_all_def usage_ok_def i32_id)
qed

lemma mem_request_nonneg:
  assumes "request_ok k d" and "usage_ok d"
  shows "0 \<le> mem_request k d"
proof -
  have "0 \<le> du_Totalmem d * rq_MemPercentagereq k"
    using assms by (simp add: request_ok_def usage_ok_def)
  then show ?thesis
    using assms(1) by (auto simp: mem_request_def request_ok_def Let_def i32_id go_div_nonneg)
qed

text \<open>Booking an eligible device keeps its usage within its capacity.\<close>

lemma usage_ok_book:
  assumes "usage_ok d" and "request_ok k d" and "eligible chk k d"
  shows "usage_ok (book_usage (make_assignment k i d) d)"
proof -
  note ok = assms(1) [unfolded usage_ok_def]
  have mem: "i32 (du_Totalmem d - du_Usedmem d) = du_Totalmem d - du_Usedmem d"
    and core: "i32 (du_Totalcore d - du_Usedcores d) = du_Totalcore d - du_Usedcores d"
    using ok by (auto intro!: i32_id)
  have el: "du_Used d < du_Count d" "mem_request k d \<le> du_Totalmem d - du_Usedmem d"
    "rq_Coresreq k \<le> du_Totalcore d - du_Usedcores d"
    using assms(3) by (simp_all add: eligible_def mem core)
  have nn: "0 \<le> mem_request k d" "0 \<le> rq_Coresreq k"
    using mem_request_nonneg [OF assms(2,1)] assms(2) by (simp_all add: request_ok_def)
  have "i32 (du_Used d + 1) = du_Used d + 1"
    "i32 (du_Usedmem d + mem_request k d) = du_Usedmem d + mem_request k d"
    "i32 (du_Usedcores d + rq_Coresreq k) = du_Usedcores d + rq_Coresreq k"
    using ok el nn by (auto intro!: i32_id)
  then show ?thesis
    using ok el nn by (simp add: usage_ok_def book_usage_def make_assignment_def)
qed

section \<open>Booking the devices of a request\<close>

text \<open>Assignments to eligible devices of \<open>ds\<close>, at strictly decreasing positions.\<close>

definition sel_ok ::
  "(device_usage \<Rightarrow> container_device_request \<Rightarrow> bool \<times> bool) \<Rightarrow> device_usage list \<Rightarrow> container_device_request \<Rightarrow>
   container_devices \<Rightarrow> bool" where
  "sel_ok chk ds k sel \<longleftrightarrow>
     sorted_wrt (\<lambda>a b. cd_Idx b < cd_Idx a) sel
     \<and> (\<forall>a\<in>set sel. \<exists>j<length ds. a = make_assignment k j (ds ! j) \<and> eligible chk k (ds ! j))"

lemma picked_ok_sel_ok: "picked_ok chk ds k v sel \<Longrightarrow> sel_ok chk ds k sel"
  by (auto simp: picked_ok_def sel_ok_def)

lemma sel_ok_ConsD:
  assumes "sel_ok chk ds k (a # sel)"
  obtains j where "j < length ds" "a = make_assignment k j (ds ! j)" "eligible chk k (ds ! j)"
    "\<And>d. sel_ok chk (ds[j := d]) k sel"
proof -
  obtain j where j: "j < length ds" "a = make_assignment k j (ds ! j)" "eligible chk k (ds ! j)"
    using assms by (auto simp: sel_ok_def)
  have "sel_ok chk (ds[j := d]) k sel" for d
    unfolding sel_ok_def
  proof
    show "sorted_wrt (\<lambda>a b. cd_Idx b < cd_Idx a) sel"
      using assms by (simp add: sel_ok_def)
    show "\<forall>b\<in>set sel. \<exists>l<length (ds[j := d]). b = make_assignment k l (ds[j := d] ! l) \<and> eligible chk k (ds[j := d] ! l)"
    proof
      fix b
      assume b: "b \<in> set sel"
      then obtain l where l: "l < length ds" "b = make_assignment k l (ds ! l)" "eligible chk k (ds ! l)"
        using assms by (auto simp: sel_ok_def)
      have "cd_Idx b < cd_Idx a" using assms b by (simp add: sel_ok_def)
      then have "l \<noteq> j" using l(2) j(2) by (auto simp: make_assignment_def)
      then show "\<exists>l<length (ds[j := d]). b = make_assignment k l (ds[j := d] ! l) \<and> eligible chk k (ds[j := d] ! l)"
        using l by (intro exI [of _ l]) simp
    qed
  qed
  with j show thesis by (rule that)
qed

lemma list_update_book:
  assumes "distinct (map du_Id ds)" and "j < length ds" and "a = make_assignment k j (ds ! j)"
    and "\<forall>d\<in>set ds. usage_ok d"
  shows "ds[j := book_usage a (ds ! j)] = map (book_all [a]) ds"
proof (rule nth_equalityI)
  fix i
  assume "i < length (ds[j := book_usage a (ds ! j)])"
  then have i: "i < length ds" by simp
  show "ds[j := book_usage a (ds ! j)] ! i = map (book_all [a]) ds ! i"
  proof (cases "i = j")
    case True
    then show ?thesis using i assms(3) by (simp add: book_all_single make_assignment_def)
  next
    case False
    then have "du_Id (ds ! i) \<noteq> du_Id (ds ! j)"
      using assms(1,2) i by (simp add: distinct_conv_nth)
    then have "book_all [a] (ds ! i) = ds ! i"
      using assms(3,4) i by (intro book_all_other) (simp_all add: make_assignment_def)
    then show ?thesis using False i by simp
  qed
qed simp

lemma fold_book_device:
  assumes "sel_ok chk ds k sel" and "distinct (map du_Id ds)"
    and "\<forall>d\<in>set ds. usage_ok d \<and> request_ok k d"
  shows "snd (snd (fold book_device sel (t, f, ds))) = map (book_all sel) ds
     \<and> (\<forall>d\<in>set (map (book_all sel) ds). usage_ok d)"
  using assms
proof (induction sel arbitrary: t f ds)
  case Nil
  have "map (book_all []) ds = ds"
    using Nil.prems(3) by (intro map_idI book_all_other) simp_all
  then show ?case using Nil.prems(3) by simp
next
  case (Cons a sel)
  obtain j where j: "j < length ds" "a = make_assignment k j (ds ! j)" "eligible chk k (ds ! j)"
    and rest: "\<And>d. sel_ok chk (ds[j := d]) k sel"
    using sel_ok_ConsD [OF Cons.prems(1)] by metis
  define ds1 where "ds1 = ds[j := book_usage a (ds ! j)]"
  have idx: "nat (cd_Idx a) = j" using j(2) by (simp add: make_assignment_def)
  have ds1: "ds1 = map (book_all [a]) ds"
    unfolding ds1_def using Cons.prems j by (intro list_update_book) auto
  have "usage_ok (book_usage a (ds ! j))"
    using usage_ok_book [of "ds ! j" k chk j] Cons.prems(3) j by simp
  moreover have "request_ok k (book_usage a (ds ! j))"
    using Cons.prems(3) j(1) by simp
  ultimately have ok1: "\<forall>d\<in>set ds1. usage_ok d \<and> request_ok k d"
    using Cons.prems(3) set_update_subset_insert [of ds j "book_usage a (ds ! j)"]
    unfolding ds1_def by blast
  have ids: "map du_Id ds1 = map du_Id ds"
    by (simp add: ds1)
  have comp: "map (book_all sel) ds1 = map (book_all (a # sel)) ds"
    using book_all_append [of "[a]" sel] by (simp add: ds1)
  obtain t' f' where fold1: "fold book_device (a # sel) (t, f, ds) = fold book_device sel (t', f', ds1)"
    by (simp add: Let_def idx ds1_def)
  have "sel_ok chk ds1 k sel" using rest by (simp add: ds1_def)
  from Cons.IH [OF this _ ok1, of t' f'] show ?case
    using Cons.prems(2) unfolding ids comp fold1 by blast
qed

end
