(* ===== verification/Placement.thy ===== *)
theory Placement
  imports Score
begin

text \<open>
  Correctness of the placement algorithm of \<open>Score\<close>: the scan over a node's devices is sound and
  finds an assignment whenever one exists, booking never exceeds a device's capacity, and what
  \<open>calcScore\<close> accepts.  The last section states where its acceptance test (as many device types as
  containers) goes wrong.
\<close>

section \<open>The order of devices\<close>

interpretation usage_order: strict_weak_order DeviceUsageList_Less
  by unfold_locales (auto simp: DeviceUsageList_Less_def split: if_splits)

lemma sorted_numa:
  assumes "sorts_by DeviceUsageList_Less srt"
  shows "sorted (map du_Numa (srt ds))"
proof -
  have "sorted_wrt (\<lambda>a b. du_Numa a \<le> du_Numa b) (srt ds)"
    using sorts_by_sorted [OF assms]
    by (rule sorted_wrt_mono_rel [rotated]) (auto simp: DeviceUsageList_Less_def split: if_splits)
  then show ?thesis by (simp add: sorted_map)
qed

section \<open>One request\<close>

lemma checkType_nvidia:
  assumes "set devs = set GetDevices" and "rq_Type k = NvidiaGPUDevice"
  shows "checkType devs annos d k =
     (if Contains (du_Type d) NvidiaGPUDevice then (checkGPUtype annos (du_Type d), assertNuma annos)
      else (False, False))"
  using check_backends_complete [OF assms(1), of k Nvidia] assms(2)
  by (simp add: checkType_def nvidia_CheckType_def)

lemma checkType_numa:
  assumes "set devs = set GetDevices" and "rq_Type k = NvidiaGPUDevice"
    and "fst (checkType devs annos d k)"
  shows "snd (checkType devs annos d k) = assertNuma annos"
  using assms(3) by (simp add: checkType_nvidia [OF assms(1,2)] split: if_splits)

lemma fit_plain_iff:
  assumes "nums_free chk" and "0 < rq_Nums k" and "\<And>d. d \<in> set ds \<Longrightarrow> \<not> snd (chk d k)"
  shows "fst (fitInCertainDevice chk ds k) \<longleftrightarrow> rq_Nums k \<le> int (length (filter (eligible chk k) ds))"
  using fit_loop_complete_plain [where i = "length ds" and n = "rq_Nums k" and chk = chk and ds = ds and k = k] assms
  by (simp add: fitInCertainDevice_def)

lemma fit_numa_iff:
  assumes "nums_free chk" and "0 < rq_Nums k" and "sorted (map du_Numa ds)"
    and "\<And>d. d \<in> set ds \<Longrightarrow> fst (chk d k) \<Longrightarrow> snd (chk d k)"
  shows "fst (fitInCertainDevice chk ds k) \<longleftrightarrow>
     (\<exists>v. rq_Nums k \<le> int (length (filter (\<lambda>d. eligible chk k d \<and> du_Numa d = v) ds)))"
proof -
  let ?P = "\<lambda>v. rq_Nums k \<le> int (length (filter (\<lambda>d. eligible chk k d \<and> du_Numa d = v) ds))"
  have "fst (fitInCertainDevice chk ds k) \<longleftrightarrow> ?P (- 1) \<or> (\<exists>v. v \<noteq> - 1 \<and> ?P v)"
    using fit_loop_complete_numa [OF assms(1,4,3,2), of "length ds" "rq_Nums k" "- 1" "[]"] assms(2)
    by (simp add: fitInCertainDevice_def)
  moreover have "Q a \<or> (\<exists>v. v \<noteq> a \<and> Q v) \<longleftrightarrow> (\<exists>v. Q v)" for Q and a :: int
    by auto
  ultimately show ?thesis by simp
qed

text \<open>C6: every assignment that the scan returns is valid: it has exactly the requested number of devices,
  all at different positions of the node, each device has the right type and a free slot, and enough
  memory and cores left for its share, an exclusive request gets an unused card, and under NUMA
  binding all devices lie on one NUMA node.\<close>
theorem fitInCertainDevice_sound:
  assumes "set devs = set GetDevices" and "rq_Type k = NvidiaGPUDevice" and "0 < rq_Nums k"
    and "fitInCertainDevice (checkType devs annos) ds k = (True, tmp)"
  shows "int (length (mget_list tmp (rq_Type k))) = rq_Nums k
     \<and> distinct (map cd_Idx (mget_list tmp (rq_Type k)))
     \<and> (\<forall>a\<in>set (mget_list tmp (rq_Type k)). \<exists>j<length ds.
          a = make_assignment k j (ds ! j) \<and> eligible (checkType devs annos) k (ds ! j))
     \<and> (assertNuma annos \<longrightarrow> (\<exists>v. \<forall>a\<in>set (mget_list tmp (rq_Type k)).
          du_Numa (ds ! nat (cd_Idx a)) = v))"
proof -
  let ?chk = "checkType devs annos" and ?sel = "mget_list tmp (rq_Type k)"
  obtain v where len: "int (length ?sel) = rq_Nums k" and ok: "picked_ok ?chk ds k v ?sel"
    using fitInCertainDevice_picked [OF nums_free_checkType assms(3,4)] by blast
  have "distinct (map cd_Idx ?sel)"
    using ok by (simp add: picked_ok_def distinct_map_decreasing)
  moreover have "du_Numa (ds ! nat (cd_Idx a)) = v" if "assertNuma annos" "a \<in> set ?sel" for a
  proof -
    from ok that(2) obtain j where j: "a = make_assignment k j (ds ! j)" "eligible ?chk k (ds ! j)"
      "snd (?chk (ds ! j) k) \<longrightarrow> du_Numa (ds ! j) = v"
      by (auto simp: picked_ok_def)
    then have "fst (?chk (ds ! j) k)" by (simp add: eligible_def)
    then have "snd (?chk (ds ! j) k)"
      using checkType_numa [OF assms(1,2)] that(1) by simp
    then show ?thesis using j(1,3) by (simp add: make_assignment_def)
  qed
  ultimately show ?thesis
    using len ok by (auto simp: picked_ok_def)
qed


text \<open>The example of a node with two cards and a request for both of them, used by the witnesses.\<close>

definition example_request2 :: container_device_request where
  "example_request2 = example_request\<lparr>rq_Nums := 2\<rparr>"

definition example_node :: "device_usage list" where
  "example_node = [example_device, example_device\<lparr>du_Id := ''GPU-2''\<rparr>]"

lemma checkType_example_node:
  "d \<in> set example_node \<Longrightarrow> checkType GetDevices [] d (example_request\<lparr>rq_Nums := n\<rparr>) = (True, False)"
  using checkType_example
  by (auto simp: example_node_def checkType_def GetDevices_def example_request_def example_device_def
      nvidia_CheckType_def mlu_CheckType_def device_names checkGPUtype_def check_card_type_def assertNuma_def
      Contains_def sublist_Cons_right)

lemma example_eligible: "d \<in> set example_node \<Longrightarrow> eligible (checkType GetDevices []) example_request2 d"
  using checkType_example_node [of d 2]
  by (auto simp: eligible_def example_request2_def example_node_def example_device_def example_request_def
      mem_request_def i32_def)

lemma example_fits: "fst (fitInCertainDevice (checkType GetDevices []) example_node example_request2)"
proof -
  have "filter (eligible (checkType GetDevices []) example_request2) example_node = example_node"
    using example_eligible by (simp add: filter_id_conv)
  then show ?thesis
    using fit_plain_iff [of "checkType GetDevices []" example_request2 example_node]
      checkType_example_node [of _ 2]
    by (simp add: example_request2_def example_node_def)
qed

theorem fitInCertainDevice_sound_witness:
  "\<exists>tmp. fitInCertainDevice (checkType GetDevices []) example_node example_request2 = (True, tmp)
     \<and> int (length (mget_list tmp ''NVIDIA'')) = 2 \<and> distinct (map cd_Idx (mget_list tmp ''NVIDIA''))"
proof -
  obtain tmp where fit: "fitInCertainDevice (checkType GetDevices []) example_node example_request2 = (True, tmp)"
    using example_fits by (metis prod.collapse)
  have t: "rq_Type example_request2 = NvidiaGPUDevice" and n: "0 < rq_Nums example_request2"
    by (simp_all add: example_request2_def example_request_def device_names)
  show ?thesis
    using fitInCertainDevice_sound [OF refl t n fit] fit
    by (simp add: example_request2_def example_request_def)
qed

text \<open>C7: without NUMA binding the scan is complete: it succeeds exactly when the node has at least as many
  eligible devices as requested.\<close>
theorem fitInCertainDevice_complete:
  assumes "set devs = set GetDevices" and "rq_Type k = NvidiaGPUDevice" and "0 < rq_Nums k"
    and "\<not> assertNuma annos"
  shows "fst (fitInCertainDevice (checkType devs annos) ds k) \<longleftrightarrow>
     rq_Nums k \<le> int (length (filter (eligible (checkType devs annos) k) ds))"
  by (rule fit_plain_iff [OF nums_free_checkType assms(3)])
    (simp add: checkType_nvidia [OF assms(1,2)] assms(4))

theorem fitInCertainDevice_complete_witness:
  "\<not> assertNuma [] \<and> fst (fitInCertainDevice (checkType GetDevices []) example_node example_request2)"
proof -
  have t: "rq_Type example_request2 = NvidiaGPUDevice" and n: "0 < rq_Nums example_request2"
    and numa: "\<not> assertNuma []"
    by (simp_all add: example_request2_def example_request_def device_names assertNuma_def)
  have "filter (eligible (checkType GetDevices []) example_request2) example_node = example_node"
    using example_eligible by (simp add: filter_id_conv)
  then show ?thesis
    using fitInCertainDevice_complete [OF refl t n numa, of example_node] numa
    by (simp add: example_request2_def example_node_def)
qed

text \<open>C8: with NUMA binding the scan, run on the devices as \<open>fitInDevices\<close> sorts them, succeeds exactly
  when some single NUMA node has enough eligible devices: restarting the count at each NUMA node
  loses no solution because the devices of a NUMA node are adjacent.\<close>
theorem fitInCertainDevice_numa_complete:
  assumes "sorts_by DeviceUsageList_Less srt"
    and "set devs = set GetDevices" and "rq_Type k = NvidiaGPUDevice" and "0 < rq_Nums k"
    and "assertNuma annos"
  shows "fst (fitInCertainDevice (checkType devs annos) (srt ds) k) \<longleftrightarrow>
     (\<exists>v. rq_Nums k \<le> int (length (filter (\<lambda>d. eligible (checkType devs annos) k d \<and> du_Numa d = v) ds)))"
proof -
  have count: "length (filter P (srt ds)) = length (filter P ds)" for P
    by (metis mset_filter size_mset sorts_by_mset [OF assms(1)])
  have "fst (fitInCertainDevice (checkType devs annos) (srt ds) k) \<longleftrightarrow>
     (\<exists>v. rq_Nums k \<le> int (length (filter (\<lambda>d. eligible (checkType devs annos) k d \<and> du_Numa d = v) (srt ds))))"
  proof (rule fit_numa_iff [OF nums_free_checkType assms(4) sorted_numa [OF assms(1)]])
    fix d
    assume "fst (checkType devs annos d k)"
    then show "snd (checkType devs annos d k)"
      using checkType_numa [OF assms(2,3)] assms(5) by simp
  qed
  then show ?thesis by (simp add: count)
qed

theorem fitInCertainDevice_numa_complete_witness:
  "assertNuma [(''nvidia.com/numa-bind'', ''true'')]
   \<and> \<not> fst (fitInCertainDevice (checkType GetDevices [(''nvidia.com/numa-bind'', ''true'')])
          (insertionSort DeviceUsageList_Less [example_device, example_device\<lparr>du_Numa := 1\<rparr>]) example_request2)"
proof -
  let ?annos = "[(''nvidia.com/numa-bind'', ''true'')]"
  have t: "rq_Type example_request2 = NvidiaGPUDevice" and n: "0 < rq_Nums example_request2"
    and numa: "assertNuma ?annos"
    by (simp_all add: example_request2_def example_request_def device_names assertNuma_def ParseBool_def)
  have "\<not> (\<exists>v. rq_Nums example_request2 \<le> int (length (filter (\<lambda>d. eligible (checkType GetDevices ?annos)
      example_request2 d \<and> du_Numa d = v) [example_device, example_device\<lparr>du_Numa := 1\<rparr>])))"
    by (auto simp: example_request2_def example_device_def)
  then show ?thesis
    using numa fitInCertainDevice_numa_complete [OF usage_order.sorts_by_insertionSort refl t n numa] by simp
qed

section \<open>The requests of a container\<close>

text \<open>What booking relies on: distinct device ids, usage within capacity, and acceptable requests.\<close>

definition node_ok :: "device_usage list \<Rightarrow> bool" where
  "node_ok ds \<longleftrightarrow> distinct (map du_Id ds) \<and> (\<forall>d\<in>set ds. usage_ok d)"

definition requests_ok :: "container_device_requests \<Rightarrow> device_usage list \<Rightarrow> bool" where
  "requests_ok n ds \<longleftrightarrow> (\<forall>(_, k)\<in>set n. 0 < rq_Nums k \<and> (\<forall>d\<in>set ds. request_ok k d))"

lemma node_ok_mset: "mset ds = mset ds' \<Longrightarrow> node_ok ds \<longleftrightarrow> node_ok ds'"
proof -
  assume eq: "mset ds = mset ds'"
  then have "set ds = set ds'" by (metis set_mset_mset)
  moreover have "mset (map du_Id ds) = mset (map du_Id ds')" using eq by simp
  then have "distinct (map du_Id ds) = distinct (map du_Id ds')" by (metis mset_eq_imp_distinct_iff)
  ultimately show ?thesis by (simp add: node_ok_def)
qed

lemma requests_ok_mset: "mset ds' = mset (map (book_all sel) ds) \<Longrightarrow> requests_ok n ds' \<longleftrightarrow> requests_ok n ds"
proof -
  assume "mset ds' = mset (map (book_all sel) ds)"
  then have "set ds' = book_all sel ` set ds" by (metis list.set_map set_mset_mset)
  then show ?thesis by (simp add: requests_ok_def)
qed

lemma book_all_Nil_node: "node_ok ds \<Longrightarrow> map (book_all []) ds = ds"
  by (intro map_idI book_all_other) (simp_all add: node_ok_def)

text \<open>
  The capacity a device must have left for a list of assignments, in exact arithmetic: no
  wrap-around of the \<open>int32\<close> counters can make this hold by accident.
\<close>

definition room_for :: "container_devices \<Rightarrow> device_usage \<Rightarrow> bool" where
  "room_for sel d \<longleftrightarrow>
     (\<forall>a\<in>set (uses_of (du_Id d) sel). 0 \<le> cd_Usedmem a \<and> 0 \<le> cd_Usedcores a)
     \<and> du_Used d + int (length (uses_of (du_Id d) sel)) \<le> du_Count d
     \<and> du_Usedmem d + sum_list (map cd_Usedmem (uses_of (du_Id d) sel)) \<le> du_Totalmem d
     \<and> du_Usedcores d + sum_list (map cd_Usedcores (uses_of (du_Id d) sel)) \<le> du_Totalcore d"

lemma uses_of_append [simp]: "uses_of i (xs @ ys) = uses_of i xs @ uses_of i ys"
  by (simp add: uses_of_def)

lemma uses_of_Nil [simp]: "uses_of i [] = []"
  by (simp add: uses_of_def)

lemma room_for_Nil: "usage_ok d \<Longrightarrow> room_for [] d"
  by (simp add: room_for_def usage_ok_def)

lemma room_for_sums_nonneg:
  "room_for sel d \<Longrightarrow> 0 \<le> sum_list (map cd_Usedmem (uses_of (du_Id d) sel))"
  "room_for sel d \<Longrightarrow> 0 \<le> sum_list (map cd_Usedcores (uses_of (du_Id d) sel))"
  by (auto simp: room_for_def intro!: sum_list_nonneg)

lemma book_all_exact:
  assumes "usage_ok d" and "room_for sel d"
  shows "du_Used (book_all sel d) = du_Used d + int (length (uses_of (du_Id d) sel))"
    "du_Usedmem (book_all sel d) = du_Usedmem d + sum_list (map cd_Usedmem (uses_of (du_Id d) sel))"
    "du_Usedcores (book_all sel d) = du_Usedcores d + sum_list (map cd_Usedcores (uses_of (du_Id d) sel))"
  using assms room_for_sums_nonneg [OF assms(2)]
  by (auto simp: book_all_def room_for_def usage_ok_def intro!: i32_id)

lemma usage_ok_book_all: "usage_ok d \<Longrightarrow> room_for sel d \<Longrightarrow> usage_ok (book_all sel d)"
  using room_for_sums_nonneg [of sel d] by (auto simp: usage_ok_def book_all_exact room_for_def)

lemma room_for_append:
  "usage_ok d \<Longrightarrow> room_for xs d \<Longrightarrow> room_for (xs @ ys) d \<longleftrightarrow> room_for ys (book_all xs d)"
  by (auto simp: room_for_def book_all_exact)

lemma room_for_mono:
  assumes "mset xs \<subseteq># mset ys" and "room_for ys d"
  shows "room_for xs d"
proof -
  obtain Z where "mset ys = mset xs + Z" using assms(1) by (metis subset_mset.add_diff_inverse)
  moreover obtain zs where "mset zs = Z" by (metis ex_mset)
  ultimately have perm: "mset (uses_of (du_Id d) ys) = mset (uses_of (du_Id d) (xs @ zs))"
    by (simp add: uses_of_def)
  then have set_eq: "set (uses_of (du_Id d) ys) = set (uses_of (du_Id d) (xs @ zs))"
    by (metis set_mset_mset)
  have sum_eq: "sum_list (map f (uses_of (du_Id d) ys)) = sum_list (map f (uses_of (du_Id d) (xs @ zs)))"
    for f :: "container_device \<Rightarrow> int"
    by (metis perm mset_map sum_mset_sum_list)
  have len: "length (uses_of (du_Id d) ys) = length (uses_of (du_Id d) (xs @ zs))"
    using perm by (metis size_mset)
  have nn: "0 \<le> sum_list (map cd_Usedmem (uses_of (du_Id d) zs))"
    "0 \<le> sum_list (map cd_Usedcores (uses_of (du_Id d) zs))"
    using assms(2) set_eq by (auto simp: room_for_def intro!: sum_list_nonneg)
  show ?thesis
    using assms(2) nn unfolding room_for_def set_eq sum_eq len by auto
qed

lemma room_for_perm: "mset xs = mset ys \<Longrightarrow> room_for xs d \<longleftrightarrow> room_for ys d"
  using room_for_mono by (metis subset_mset.order_refl)

text \<open>The devices picked for one request are different, so each gets at most one new assignment.\<close>

lemma sel_ok_uses:
  assumes "sel_ok chk ds k sel" and "distinct (map du_Id ds)" and "i < length ds"
  shows "uses_of (du_Id (ds ! i)) sel = []
     \<or> uses_of (du_Id (ds ! i)) sel = [make_assignment k i (ds ! i)] \<and> eligible chk k (ds ! i)"
proof -
  let ?us = "uses_of (du_Id (ds ! i)) sel"
  have one: "a = make_assignment k i (ds ! i) \<and> eligible chk k (ds ! i)" if "a \<in> set ?us" for a
  proof -
    from that assms(1) obtain j where j: "j < length ds" "a = make_assignment k j (ds ! j)"
      "eligible chk k (ds ! j)" "cd_UUID a = du_Id (ds ! i)"
      by (auto simp: uses_of_def sel_ok_def)
    then have "du_Id (ds ! j) = du_Id (ds ! i)" by (simp add: make_assignment_def)
    then have "j = i" using assms(2,3) j(1) by (simp add: distinct_conv_nth) (metis nth_map)
    then show ?thesis using j by simp
  qed
  have "sorted_wrt (\<lambda>a b. cd_Idx b < cd_Idx a) ?us"
    using assms(1) by (simp add: uses_of_def sel_ok_def sorted_wrt_filter)
  then show ?thesis
  proof (cases ?us)
    case (Cons a us)
    then show ?thesis
      using one \<open>sorted_wrt _ ?us\<close> by (cases us) auto
  qed simp
qed

lemma sel_ok_room:
  assumes "sel_ok chk ds k sel" and "distinct (map du_Id ds)"
    and "\<forall>d\<in>set ds. usage_ok d \<and> request_ok k d" and "d \<in> set ds"
  shows "room_for sel d"
proof -
  obtain i where i: "i < length ds" "d = ds ! i" using assms(4) by (metis in_set_conv_nth)
  have ok: "usage_ok d" "request_ok k d" using assms(3,4) by auto
  show ?thesis
  proof (cases "uses_of (du_Id d) sel = []")
    case True
    then show ?thesis using ok by (simp add: room_for_def usage_ok_def)
  next
    case False
    then have u: "uses_of (du_Id d) sel = [make_assignment k i d]" and el: "eligible chk k d"
      using sel_ok_uses [OF assms(1,2) i(1)] i(2) by auto
    have "i32 (du_Totalmem d - du_Usedmem d) = du_Totalmem d - du_Usedmem d"
      "i32 (du_Totalcore d - du_Usedcores d) = du_Totalcore d - du_Usedcores d"
      using ok(1) by (auto simp: usage_ok_def intro!: i32_id)
    then show ?thesis
      using u el mem_request_nonneg [OF ok(2,1)] ok(2)
      by (simp add: room_for_def make_assignment_def eligible_def request_ok_def)
  qed
qed

text \<open>Assignments of one request name devices of the node and carry the request's type.\<close>

definition assigned_on :: "container_device_request \<Rightarrow> device_usage list \<Rightarrow> container_devices \<Rightarrow> bool" where
  "assigned_on k ds sel \<longleftrightarrow> (\<forall>a\<in>set sel. cd_UUID a \<in> du_Id ` set ds \<and> cd_Type a = rq_Type k)"

text \<open>A successful scan followed by the bookings.\<close>

lemma scan_and_book:
  assumes "sorts_by DeviceUsageList_Less srt" and "nums_free chk" and "node_ok ds"
    and "0 < rq_Nums k" and "\<forall>d\<in>set ds. request_ok k d"
    and "fitInCertainDevice chk (srt ds) k = (True, tmp)"
  defines "sel \<equiv> mget_list tmp (rq_Type k)"
  shows "\<exists>t' f' ds'. fold book_device sel (t, f, srt ds) = (t', f', ds')
     \<and> mset ds' = mset (map (book_all sel) ds) \<and> node_ok ds' \<and> (\<forall>d\<in>set ds. room_for sel d)
     \<and> assigned_on k ds sel \<and> int (length sel) = rq_Nums k"
proof -
  have perm: "mset (srt ds) = mset ds" and set_eq: "set (srt ds) = set ds"
    using assms(1) by (simp_all add: sorts_by_mset sorts_by_set)
  have nok: "node_ok (srt ds)" using node_ok_mset [OF perm] assms(3) by simp
  have sel: "sel_ok chk (srt ds) k sel" and len: "int (length sel) = rq_Nums k"
    using fitInCertainDevice_picked [OF assms(2,4,6)] picked_ok_sel_ok by (auto simp: sel_def)
  obtain t' f' ds' where fold: "fold book_device sel (t, f, srt ds) = (t', f', ds')"
    by (metis prod_cases3)
  have book: "ds' = map (book_all sel) (srt ds)" "\<forall>d\<in>set (map (book_all sel) (srt ds)). usage_ok d"
    using fold_book_device [OF sel, of t f] nok assms(5) set_eq fold by (auto simp: node_ok_def)
  have "mset ds' = mset (map (book_all sel) ds)"
    using perm book(1) by simp
  moreover have "map du_Id ds' = map du_Id (srt ds)" using book(1) by simp
  then have "node_ok ds'"
    using book nok by (simp add: node_ok_def)
  moreover have "\<forall>d\<in>set ds. room_for sel d"
    using sel_ok_room [OF sel] nok assms(5) set_eq by (simp add: node_ok_def)
  moreover have "assigned_on k ds sel"
    using sel set_eq by (fastforce simp: sel_ok_def assigned_on_def make_assignment_def)
  ultimately show ?thesis using fold len by blast
qed

lemma fit_requests_booked:
  assumes "sorts_by DeviceUsageList_Less srt" and "nums_free chk"
  shows "node_ok ds \<Longrightarrow> requests_ok n ds \<Longrightarrow>
     \<exists>sel. mset (fr_devices (fit_requests srt chk n devs t f s ds devinput)) = mset (map (book_all sel) ds)
       \<and> node_ok (fr_devices (fit_requests srt chk n devs t f s ds devinput))"
proof (induction n arbitrary: devs t f s ds devinput)
  case Nil
  then show ?case
    using book_all_Nil_node by (intro exI [of _ "[]"]) simp
next
  case (Cons r n)
  obtain idx k where r: "r = (idx, k)" by (cases r)
  have k: "0 < rq_Nums k" "\<forall>d\<in>set ds. request_ok k d" and n: "requests_ok n ds"
    using Cons.prems(2) r by (auto simp: requests_ok_def)
  obtain fit tmp where ft: "fitInCertainDevice chk (srt ds) k = (fit, tmp)"
    by (cases "fitInCertainDevice chk (srt ds) k")
  have perm: "mset (srt ds) = mset ds" using assms(1) by (rule sorts_by_mset)
  show ?case
  proof (cases "rq_Nums k > int (length ds) \<or> \<not> fit")
    case True
    then show ?thesis
      using Cons.prems(1) book_all_Nil_node [OF Cons.prems(1)] perm node_ok_mset [OF perm] r ft
      by (intro exI [of _ "[]"]) (auto simp: Let_def)
  next
    case False
    define sel where "sel = mget_list tmp (rq_Type k)"
    obtain t' f' ds' where fold: "fold book_device sel (t, f, srt ds) = (t', f', ds')"
      and eq: "mset ds' = mset (map (book_all sel) ds)" and ok: "node_ok ds'"
      using scan_and_book [OF assms Cons.prems(1) k, of tmp t f] ft False by (auto simp: sel_def)
    obtain sel2 where s2: "mset (fr_devices (fit_requests srt chk n (devs @ sel) t' f' (s + rq_Nums k) ds'
        (mset_to devinput (rq_Type k) (mget_list devinput (rq_Type k) @ [devs @ sel]))))
        = mset (map (book_all sel2) ds')"
      "node_ok (fr_devices (fit_requests srt chk n (devs @ sel) t' f' (s + rq_Nums k) ds'
        (mset_to devinput (rq_Type k) (mget_list devinput (rq_Type k) @ [devs @ sel]))))"
      using Cons.IH [OF ok] requests_ok_mset [OF eq] n by blast
    have "mset (map (book_all sel2) ds') = image_mset (book_all sel2) (mset ds')" by simp
    also have "\<dots> = mset (map (book_all (sel @ sel2)) ds)"
      unfolding eq book_all_comp by (simp add: multiset.map_comp)
    finally show ?thesis
      using s2 False r ft fold by (intro exI [of _ "sel @ sel2"]) (simp add: Let_def sel_def)
  qed
qed

text \<open>C9: placement never over-commits a device for well-formed requests: a positive number of devices, no negative amount,
  and a memory percentage whose product with the total memory of each device stays below 2 to the 31.  Starting from a
  node whose devices are within capacity, whether or not the requests of a container all fit, after
  \<open>fitInDevices\<close> every device of the node has at most \<open>Count\<close> users and at most its total memory and cores in
  use.  Lemma \<open>percentage_wrap_accepted\<close> shows that the bound on the percentage is needed.\<close>
theorem fitInDevices_within_capacity:
  assumes "sorts_by DeviceUsageList_Less srt" and "node_ok ds" and "requests_ok n ds"
  shows "node_ok (fr_devices (fitInDevices srt (checkType devs annos) ds n devinput))"
  using fit_requests_booked [OF assms(1) nums_free_checkType assms(2,3)] by (auto simp: fitInDevices_def)

lemma example_node_ok: "node_ok example_node"
  by (simp add: node_ok_def example_node_def example_device_def usage_ok_def)

lemma example_requests_ok: "requests_ok [(''NVIDIA'', example_request2)] example_node"
  by (simp add: requests_ok_def example_request2_def example_request_def request_ok_def example_node_def
      example_device_def)

theorem fitInDevices_within_capacity_witness:
  "node_ok example_node \<and> requests_ok [(''NVIDIA'', example_request2)] example_node
   \<and> node_ok (fr_devices (fitInDevices (insertionSort DeviceUsageList_Less) (checkType GetDevices [])
        example_node [(''NVIDIA'', example_request2)] []))"
  using example_node_ok example_requests_ok
    fitInDevices_within_capacity [OF usage_order.sorts_by_insertionSort example_node_ok example_requests_ok]
  by blast

text \<open>
  The product of the total memory and the percentage is computed in 32 bits.  A percentage of 200000 wraps to a negative
  amount, which every device has room for, and the device ends with negative memory in use.
\<close>

definition wrapping_request :: container_device_request where
  "wrapping_request = example_request\<lparr>rq_Memreq := 0, rq_MemPercentagereq := 200000\<rparr>"

lemma percentage_wrap_accepted:
  "(let r = fitInDevices (insertionSort DeviceUsageList_Less) (checkType GetDevices []) [example_device]
        [(''NVIDIA'', wrapping_request)] []
    in fr_fit r \<and> map du_Usedmem (fr_devices r) = [-10181672])"
  by code_simp

section \<open>Pods whose containers each request one type of device\<close>

definition requests_of :: "(string \<times> container_device_request) list \<Rightarrow> pod_device_requests" where
  "requests_of rs = map (\<lambda>r. [r]) rs"

definition types_of :: "(string \<times> container_device_request) list \<Rightarrow> string list" where
  "types_of rs = map (\<lambda>(_, k). rq_Type k) rs"

text \<open>All the devices assigned to a pod, over all types and containers.\<close>

definition all_devices :: "pod_devices \<Rightarrow> container_devices" where
  "all_devices pd = concat (concat (map snd pd))"

lemma fitInDevices_single:
  fixes dv :: pod_devices
  assumes "sorts_by DeviceUsageList_Less srt" and "nums_free chk" and "node_ok ds"
    and "requests_ok [(idx, k)] ds"
  defines "r \<equiv> fitInDevices srt chk ds [(idx, k)] dv"
  shows "if fr_fit r
     then \<exists>sel. fr_devinput r = mset_to dv (rq_Type k) (mget_list dv (rq_Type k) @ [sel])
            \<and> mset (fr_devices r) = mset (map (book_all sel) ds) \<and> node_ok (fr_devices r)
            \<and> (\<forall>d\<in>set ds. room_for sel d) \<and> assigned_on k ds sel \<and> int (length sel) = rq_Nums k
     else fr_devinput r = dv"
proof -
  have k: "0 < rq_Nums k" "\<forall>d\<in>set ds. request_ok k d"
    using assms(4) by (simp_all add: requests_ok_def)
  obtain fit tmp where ft: "fitInCertainDevice chk (srt ds) k = (fit, tmp)"
    by (cases "fitInCertainDevice chk (srt ds) k")
  show ?thesis
  proof (cases "rq_Nums k > int (length ds) \<or> \<not> fit")
    case True
    then show ?thesis using ft by (auto simp: r_def fitInDevices_def Let_def)
  next
    case False
    then have fit: "fitInCertainDevice chk (srt ds) k = (True, tmp)" using ft by simp
    obtain t' f' ds' where "fold book_device (mget_list tmp (rq_Type k)) (0, 0, srt ds) = (t', f', ds')"
      "mset ds' = mset (map (book_all (mget_list tmp (rq_Type k))) ds)" "node_ok ds'"
      "\<forall>d\<in>set ds. room_for (mget_list tmp (rq_Type k)) d" "assigned_on k ds (mget_list tmp (rq_Type k))"
      "int (length (mget_list tmp (rq_Type k))) = rq_Nums k"
      using scan_and_book [OF assms(1-3) k fit, of 0 0] by blast
    then show ?thesis using fit False by (auto simp: r_def fitInDevices_def Let_def)
  qed
qed

lemma score_requests_of:
  assumes "sorts_by DeviceUsageList_Less srt" and "nums_free chk"
  shows "\<lbrakk> node_ok ds; \<forall>r\<in>set rs. requests_ok [r] ds \<rbrakk> \<Longrightarrow>
     \<exists>ds' dv' sc'. score_containers srt chk c (requests_of rs) ds dv sc = Inr (ds', dv', sc')
       \<and> length dv' \<le> length dv + length rs
       \<and> (length dv' = length dv + length rs \<longrightarrow>
            distinct (types_of rs) \<and> set (types_of rs) \<inter> fst ` set dv = {}
            \<and> (\<exists>sels. map (int \<circ> length) sels = map (\<lambda>(_, k). rq_Nums k) rs
                  \<and> dv' = dv @ zip (types_of rs) (map (\<lambda>s. [s]) sels)
                  \<and> mset ds' = mset (map (book_all (concat sels)) ds) \<and> node_ok ds'
                  \<and> (\<forall>d\<in>set ds. room_for (concat sels) d)))"
proof (induction rs arbitrary: c ds dv sc)
  case Nil
  have "mset (map (book_all []) ds) = mset ds"
    using book_all_Nil_node [OF Nil.prems(1)] by simp
  moreover have "\<forall>d\<in>set ds. room_for [] d"
    using Nil.prems(1) room_for_Nil by (simp add: node_ok_def)
  ultimately show ?case using Nil.prems(1) by (simp add: requests_of_def types_of_def)
next
  case (Cons r rs)
  obtain idx k where r: "r = (idx, k)" by (cases r)
  have k: "0 < rq_Nums k" "requests_ok [(idx, k)] ds"
    using Cons.prems(2) r by (auto simp: requests_ok_def)
  define fr where "fr = fitInDevices srt chk ds [(idx, k)] dv"
  have sum: "request_sum [(idx, k)] \<noteq> 0" using k(1) by (simp add: request_sum_def)
  note single = fitInDevices_single [OF assms Cons.prems(1) k(2), of dv, folded fr_def]
  show ?case
  proof (cases "fr_fit fr")
    case False
    then have "fr_devinput fr = dv" using single by simp
    then show ?thesis
      using False r sum by (simp add: requests_of_def Let_def fr_def)
  next
    case True
    then obtain sel where dv1: "fr_devinput fr = mset_to dv (rq_Type k) (mget_list dv (rq_Type k) @ [sel])"
      and eq: "mset (fr_devices fr) = mset (map (book_all sel) ds)" and ok: "node_ok (fr_devices fr)"
      and room: "\<forall>d\<in>set ds. room_for sel d" and len: "int (length sel) = rq_Nums k"
      using single by auto
    have prems: "\<forall>r\<in>set rs. requests_ok [r] (fr_devices fr)"
      using Cons.prems(2) requests_ok_mset [OF eq] by simp
    obtain ds' dv' sc' where sc': "score_containers srt chk (Suc c) (requests_of rs) (fr_devices fr) (fr_devinput fr)
        (f32_add sc (fr_score fr)) = Inr (ds', dv', sc')"
      and le: "length dv' \<le> length (fr_devinput fr) + length rs"
      and full: "length dv' = length (fr_devinput fr) + length rs \<longrightarrow>
            distinct (types_of rs) \<and> set (types_of rs) \<inter> fst ` set (fr_devinput fr) = {}
            \<and> (\<exists>sels. map (int \<circ> length) sels = map (\<lambda>(_, k). rq_Nums k) rs
                  \<and> dv' = fr_devinput fr @ zip (types_of rs) (map (\<lambda>s. [s]) sels)
                  \<and> mset ds' = mset (map (book_all (concat sels)) (fr_devices fr)) \<and> node_ok ds'
                  \<and> (\<forall>d\<in>set (fr_devices fr). room_for (concat sels) d))"
      using Cons.IH [OF ok prems] by meson
    have here: "score_containers srt chk c (requests_of (r # rs)) ds dv sc = Inr (ds', dv', sc')"
      using sc' True sum r by (simp add: requests_of_def Let_def fr_def)
    have dlen: "length (fr_devinput fr) = (if rq_Type k \<in> fst ` set dv then length dv else Suc (length dv))"
      by (simp add: dv1 length_mset_to)
    have "length dv' \<le> length dv + length (r # rs)"
      using le dlen by (auto split: if_splits)
    moreover have "distinct (types_of (r # rs)) \<and> set (types_of (r # rs)) \<inter> fst ` set dv = {}
            \<and> (\<exists>sels. map (int \<circ> length) sels = map (\<lambda>(_, k). rq_Nums k) (r # rs)
                  \<and> dv' = dv @ zip (types_of (r # rs)) (map (\<lambda>s. [s]) sels)
                  \<and> mset ds' = mset (map (book_all (concat sels)) ds) \<and> node_ok ds'
                  \<and> (\<forall>d\<in>set ds. room_for (concat sels) d))"
      if lenf: "length dv' = length dv + length (r # rs)"
    proof -
      have new: "rq_Type k \<notin> fst ` set dv" and "length dv' = length (fr_devinput fr) + length rs"
        using le dlen lenf by (auto split: if_splits)
      with full obtain sels where d: "distinct (types_of rs)"
        "set (types_of rs) \<inter> fst ` set (fr_devinput fr) = {}"
        and s: "map (int \<circ> length) sels = map (\<lambda>(_, k). rq_Nums k) rs"
        "dv' = fr_devinput fr @ zip (types_of rs) (map (\<lambda>s. [s]) sels)"
        "mset ds' = mset (map (book_all (concat sels)) (fr_devices fr))" "node_ok ds'"
        "\<forall>d\<in>set (fr_devices fr). room_for (concat sels) d"
        by auto
      have absent: "mget dv (rq_Type k) = None" using new by (simp add: mget_None_iff)
      then have dv1': "fr_devinput fr = dv @ [(rq_Type k, [sel])]"
        by (simp add: dv1 mset_to_new mget_default_def)
      have "mset ds' = image_mset (book_all (concat sels)) (mset (fr_devices fr))"
        using s(3) by simp
      also have "\<dots> = mset (map (book_all (concat (sel # sels))) ds)"
        unfolding eq by (simp add: book_all_comp multiset.map_comp)
      finally have "mset ds' = mset (map (book_all (concat (sel # sels))) ds)" .
      moreover have "set (fr_devices fr) = book_all sel ` set ds"
        using eq by (metis list.set_map set_mset_mset)
      then have "\<forall>d\<in>set ds. room_for (concat (sel # sels)) d"
        using s(5) room Cons.prems(1) by (simp add: room_for_append node_ok_def)
      ultimately show ?thesis
        using d s new dv1' len r
        by (intro conjI exI [of _ "sel # sels"]) (auto simp: types_of_def)
    qed
    ultimately show ?thesis using here by blast
  qed
qed


lemma calcScore_Cons_Inr:
  "calcScore srt chk nums ((nodeID, ds) # nodes) = Inr (res, nodes') \<longleftrightarrow>
     (\<exists>ds' devinput score res1 nodes1.
        score_containers srt chk 0 nums ds [] (Fin 0) = Inr (ds', devinput, score)
        \<and> calcScore srt chk nums nodes = Inr (res1, nodes1)
        \<and> res = (if length devinput = length nums
                 then \<lparr>ns_nodeID = nodeID, ns_devices = devinput, ns_score = score\<rparr> # res1 else res1)
        \<and> nodes' = (nodeID, ds') # nodes1)"
  by (auto simp: bind_result_Inr_iff)

lemma calcScore_member:
  assumes "calcScore srt chk nums nodes = Inr (res, nodes')" and "ns \<in> set res"
  shows "\<exists>ds ds'. (ns_nodeID ns, ds) \<in> set nodes
     \<and> score_containers srt chk 0 nums ds [] (Fin 0) = Inr (ds', ns_devices ns, ns_score ns)
     \<and> length (ns_devices ns) = length nums"
  using assms
proof (induction nodes arbitrary: res nodes')
  case (Cons p nodes)
  obtain nodeID ds where p: "p = (nodeID, ds)" by (cases p)
  from Cons.prems(1) obtain ds' devinput score res1 nodes1 where
    here: "score_containers srt chk 0 nums ds [] (Fin 0) = Inr (ds', devinput, score)"
    and rest: "calcScore srt chk nums nodes = Inr (res1, nodes1)"
    and res: "res = (if length devinput = length nums
                 then \<lparr>ns_nodeID = nodeID, ns_devices = devinput, ns_score = score\<rparr> # res1 else res1)"
    unfolding p calcScore_Cons_Inr by blast
  show ?case
  proof (cases "ns \<in> set res1")
    case True
    then show ?thesis using Cons.IH [OF rest] by auto
  next
    case False
    then have "length devinput = length nums"
      "ns = \<lparr>ns_nodeID = nodeID, ns_devices = devinput, ns_score = score\<rparr>"
      using Cons.prems(2) res by (auto split: if_splits)
    then show ?thesis using here p by auto
  qed
qed simp

lemma concat_zip_single:
  "length ts = length sels \<Longrightarrow> concat (concat (map snd (zip ts (map (\<lambda>s. [s]) sels)))) = concat sels"
  by (induction ts sels rule: list_induct2) simp_all

lemma counts_zip_single:
  "length ts = length sels \<Longrightarrow>
     map (\<lambda>(_, v). map (int \<circ> length) v) (zip ts (map (\<lambda>s. [s]) sels)) = map (\<lambda>n. [n]) (map (int \<circ> length) sels)"
  by (induction ts sels rule: list_induct2) simp_all

text \<open>An accepted node: the assignment it was accepted with, over single-type containers.\<close>

lemma accepted_devices:
  assumes "sorts_by DeviceUsageList_Less srt" and "nums_free chk"
    and "node_ok ds" and "\<forall>r\<in>set rs. requests_ok [r] ds"
    and "score_containers srt chk 0 (requests_of rs) ds [] sc = Inr (ds', dv, sc')"
    and "length dv = length rs"
  shows "distinct (types_of rs) \<and> map fst dv = types_of rs
     \<and> map (\<lambda>(_, v). map (int \<circ> length) v) dv = map (\<lambda>(_, k). [rq_Nums k]) rs
     \<and> (\<forall>d\<in>set ds. room_for (all_devices dv) d)"
proof -
  obtain sels where d: "distinct (types_of rs)"
    and s: "map (int \<circ> length) sels = map (\<lambda>(_, k). rq_Nums k) rs"
      "dv = zip (types_of rs) (map (\<lambda>s. [s]) sels)"
      "\<forall>d\<in>set ds. room_for (concat sels) d"
    using score_requests_of [OF assms(1-4), of 0 "[]" sc] assms(5,6) by auto
  have len: "length (types_of rs) = length sels"
    using s(1) by (metis length_map types_of_def)
  have all: "all_devices dv = concat sels"
    using concat_zip_single [OF len] by (simp add: all_devices_def s(2))
  have "map (\<lambda>(_, v). map (int \<circ> length) v) dv = map (\<lambda>n. [n]) (map (int \<circ> length) sels)"
    unfolding s(2) by (rule counts_zip_single [OF len])
  also have "\<dots> = map (\<lambda>(_, k). [rq_Nums k]) rs"
    unfolding s(1) by auto
  finally have "map (\<lambda>(_, v). map (int \<circ> length) v) dv = map (\<lambda>(_, k). [rq_Nums k]) rs" .
  moreover have "map fst dv = types_of rs" using len by (simp add: s(2))
  ultimately show ?thesis
    using d s(3) unfolding all by blast
qed

text \<open>C10: what \<open>calcScore\<close> accepts, for pods whose containers each request one type of device, with well-formed requests
  (a positive number, no negative amount, no overflow of the memory percentage) on nodes within capacity: an accepted
  node is one of the candidates, the pod's assignment names each requested type once and gives every
  container exactly the number of devices it asked for, and every device of the node has room for the
  whole assignment on top of its current usage: slots, memory and cores, in exact arithmetic.\<close>
theorem calcScore_accepted:
  assumes "sorts_by DeviceUsageList_Less srt"
    and "\<forall>(_, ds)\<in>set nodes. node_ok ds \<and> (\<forall>r\<in>set rs. requests_ok [r] ds)"
    and "calcScore srt (checkType devs annos) (requests_of rs) nodes = Inr (res, nodes')"
    and "ns \<in> set res"
  shows "\<exists>ds. (ns_nodeID ns, ds) \<in> set nodes
     \<and> map fst (ns_devices ns) = types_of rs
     \<and> map (\<lambda>(_, v). map (int \<circ> length) v) (ns_devices ns) = map (\<lambda>(_, k). [rq_Nums k]) rs
     \<and> (\<forall>d\<in>set ds. room_for (all_devices (ns_devices ns)) d)"
proof -
  obtain ds ds' where ds: "(ns_nodeID ns, ds) \<in> set nodes"
    and sc: "score_containers srt (checkType devs annos) 0 (requests_of rs) ds [] (Fin 0)
        = Inr (ds', ns_devices ns, ns_score ns)"
    and len: "length (ns_devices ns) = length (requests_of rs)"
    using calcScore_member [OF assms(3,4)] by blast
  have "node_ok ds" "\<forall>r\<in>set rs. requests_ok [r] ds" using assms(2) ds by auto
  then show ?thesis
    using accepted_devices [OF assms(1) nums_free_checkType _ _ sc] len ds by (auto simp: requests_of_def)
qed

lemma example_single_fit:
  assumes "sorts_by DeviceUsageList_Less srt"
  shows "fr_fit (fitInDevices srt (checkType GetDevices []) example_node [(''NVIDIA'', example_request2)] [])"
proof -
  let ?chk = "checkType GetDevices []"
  have "set (srt example_node) = set example_node" "length (srt example_node) = length example_node"
    using assms by (simp_all add: sorts_by_set sorts_by_length)
  then have "filter (eligible ?chk example_request2) (srt example_node) = srt example_node"
    "length (srt example_node) = 2"
    using example_eligible by (auto simp: filter_id_conv example_node_def)
  then have "fst (fitInCertainDevice ?chk (srt example_node) example_request2)"
    using fit_plain_iff [of ?chk example_request2 "srt example_node"] checkType_example_node [of _ 2]
      sorts_by_set [OF assms, of example_node]
    by (simp add: example_request2_def)
  then show ?thesis
    by (auto simp: fitInDevices_def Let_def example_request2_def example_node_def split: prod.splits)
qed

lemma example_calcScore:
  assumes "sorts_by DeviceUsageList_Less srt"
  shows "\<exists>ns nodes'. calcScore srt (checkType GetDevices []) (requests_of [(''NVIDIA'', example_request2)])
     [(''node1'', example_node)] = Inr ([ns], nodes') \<and> ns_nodeID ns = ''node1''"
proof -
  let ?r = "fitInDevices srt (checkType GetDevices []) example_node [(''NVIDIA'', example_request2)] []"
  have fit: "fr_fit ?r" by (rule example_single_fit [OF assms])
  moreover have "length (fr_devinput ?r) = 1"
    using fitInDevices_single [OF assms nums_free_checkType example_node_ok example_requests_ok,
      of GetDevices "[]" "[]"] fit by auto
  ultimately show ?thesis
    by (simp add: requests_of_def request_sum_def example_request2_def Let_def)
qed

theorem calcScore_accepted_witness:
  "\<exists>ns nodes'. calcScore (insertionSort DeviceUsageList_Less) (checkType GetDevices [])
       (requests_of [(''NVIDIA'', example_request2)]) [(''node1'', example_node)] = Inr ([ns], nodes')
     \<and> map (\<lambda>(_, v). map (int \<circ> length) v) (ns_devices ns) = [[2]]
     \<and> (\<forall>d\<in>set example_node. room_for (all_devices (ns_devices ns)) d)"
proof -
  note srt = usage_order.sorts_by_insertionSort
  obtain ns nodes' where calc: "calcScore (insertionSort DeviceUsageList_Less) (checkType GetDevices [])
       (requests_of [(''NVIDIA'', example_request2)]) [(''node1'', example_node)] = Inr ([ns], nodes')"
    using example_calcScore [OF srt] by blast
  have "\<forall>(_, ds)\<in>set [(''node1'', example_node)]. node_ok ds
      \<and> (\<forall>r\<in>set [(''NVIDIA'', example_request2)]. requests_ok [r] ds)"
    using example_node_ok example_requests_ok by simp
  from calcScore_accepted [OF srt this calc, of ns] show ?thesis
    using calc by (auto simp: example_request2_def)
qed

text \<open>A single request, without NUMA binding: a node is accepted exactly when enough devices are eligible.\<close>

lemma fitInDevices_single_iff:
  assumes "sorts_by DeviceUsageList_Less srt" and "nums_free chk" and "0 < rq_Nums k"
    and "\<And>d. d \<in> set ds \<Longrightarrow> \<not> snd (chk d k)"
  shows "fr_fit (fitInDevices srt chk ds [(idx, k)] dv) \<longleftrightarrow> rq_Nums k \<le> int (length (filter (eligible chk k) ds))"
proof -
  have count: "length (filter P (srt ds)) = length (filter P ds)" for P
    by (metis mset_filter size_mset sorts_by_mset [OF assms(1)])
  have "fr_fit (fitInDevices srt chk ds [(idx, k)] dv) \<longleftrightarrow>
      rq_Nums k \<le> int (length ds) \<and> fst (fitInCertainDevice chk (srt ds) k)"
    by (auto simp: fitInDevices_def Let_def split: prod.splits)
  also have "\<dots> \<longleftrightarrow> rq_Nums k \<le> int (length ds) \<and> rq_Nums k \<le> int (length (filter (eligible chk k) ds))"
    using fit_plain_iff [OF assms(2,3), of "srt ds"] assms(4) sorts_by_set [OF assms(1)] by (simp add: count)
  also have "\<dots> \<longleftrightarrow> rq_Nums k \<le> int (length (filter (eligible chk k) ds))"
    using length_filter_le [of "eligible chk k" ds] by linarith
  finally show ?thesis .
qed

lemma calcScore_single:
  assumes "sorts_by DeviceUsageList_Less srt" and "nums_free chk"
    and "\<forall>(_, ds)\<in>set nodes. node_ok ds \<and> requests_ok [(idx, k)] ds"
  shows "\<exists>scores nodes'. calcScore srt chk [[(idx, k)]] nodes = Inr (scores, nodes')
     \<and> map ns_nodeID scores = map fst (filter (\<lambda>(_, ds). fr_fit (fitInDevices srt chk ds [(idx, k)] [])) nodes)"
  using assms(3)
proof (induction nodes)
  case (Cons q nodes)
  obtain n ds where q: "q = (n, ds)" by (cases q)
  let ?r = "fitInDevices srt chk ds [(idx, k)] []"
  have ok: "node_ok ds" "requests_ok [(idx, k)] ds" using Cons.prems q by auto
  then have sum: "request_sum [(idx, k)] \<noteq> 0" by (simp add: requests_ok_def request_sum_def)
  have "length (fr_devinput ?r) = (if fr_fit ?r then 1 else 0)"
    using fitInDevices_single [OF assms(1,2) ok, of "[]"] by (auto split: if_splits)
  then show ?case
    using Cons.IH Cons.prems sum by (auto simp: q Let_def)
qed simp

section \<open>Where the acceptance test goes wrong\<close>



text \<open>A pod in which a container without device requests follows a container whose device request fits
  makes the scheduler panic: \<open>score.devices[idx][ctrid]\<close> is indexed past its end.\<close>
lemma calcScore_plain_container_panics:
  assumes "sorts_by DeviceUsageList_Less srt" and "node_ok ds" and "requests_ok [(idx, k)] ds"
    and "fr_fit (fitInDevices srt (checkType devs annos) ds [(idx, k)] [])" and "request_sum n = 0"
  shows "is_panic (calcScore srt (checkType devs annos) ([(idx, k)] # n # nums) ((nodeID, ds) # nodes))"
proof -
  let ?r = "fitInDevices srt (checkType devs annos) ds [(idx, k)] []"
  obtain sel where "fr_devinput ?r = [(rq_Type k, [sel])]"
    using fitInDevices_single [OF assms(1) nums_free_checkType assms(2,3), of devs annos "[]"] assms(4) by auto
  then show ?thesis
    using assms(3-5) by (simp add: requests_ok_def request_sum_def pad_container_def Let_def)
qed

lemma calcScore_plain_container_panics_example:
  "is_panic (calcScore (insertionSort DeviceUsageList_Less) (checkType GetDevices [])
     [[(''NVIDIA'', example_request2)], []] [(''node1'', example_node)])"
  by (rule calcScore_plain_container_panics [OF usage_order.sorts_by_insertionSort example_node_ok
      example_requests_ok example_single_fit [OF usage_order.sorts_by_insertionSort]])
    (simp add: request_sum_def)

text \<open>For a container that requests two types of device, of which the first fits, acceptance is inverted:
  the node is accepted exactly when the second request does not fit, and then without any device for it.\<close>
lemma calcScore_two_types_inverted:
  assumes "sorts_by DeviceUsageList_Less srt" and "node_ok ds"
    and "requests_ok [(a, k1), (b, k2)] ds" and "rq_Type k1 \<noteq> rq_Type k2"
    and "fr_fit (fitInDevices srt (checkType devs annos) ds [(a, k1)] [])"
  shows "(\<exists>ns nodes'. calcScore srt (checkType devs annos) [[(a, k1), (b, k2)]] [(nodeID, ds)] = Inr ([ns], nodes')
            \<and> map fst (ns_devices ns) = [rq_Type k1])
     \<longleftrightarrow> \<not> fr_fit (fitInDevices srt (checkType devs annos) ds [(a, k1), (b, k2)] [])"
proof -
  let ?chk = "checkType devs annos"
  let ?r = "fitInDevices srt ?chk ds [(a, k1), (b, k2)] []"
  obtain tmp where le: "rq_Nums k1 \<le> int (length ds)" and fit: "fitInCertainDevice ?chk (srt ds) k1 = (True, tmp)"
    using assms(5) by (auto simp: fitInDevices_def Let_def split: if_splits prod.splits)
  define sel where "sel = mget_list tmp (rq_Type k1)"
  obtain t' f' ds' where fold: "fold book_device sel (0, 0, srt ds) = (t', f', ds')"
    by (metis prod_cases3)
  have r: "?r = fit_requests srt ?chk [(b, k2)] sel t' f' (rq_Nums k1) ds' [(rq_Type k1, [sel])]"
    using le fit fold by (simp add: fitInDevices_def Let_def sel_def)
  have dv: "map fst (fr_devinput ?r) = (if fr_fit ?r then [rq_Type k1, rq_Type k2] else [rq_Type k1])"
    unfolding r using assms(4) by (auto simp: Let_def split: prod.splits)
  then have len: "length (fr_devinput ?r) = (if fr_fit ?r then 2 else 1)"
    by (metis length_Cons length_map list.size(3) numeral_2_eq_2 One_nat_def)
  have sum: "request_sum [(a, k1), (b, k2)] \<noteq> 0"
    using assms(3) by (simp add: requests_ok_def request_sum_def)
  show ?thesis
    using sum dv len by (cases "fr_fit ?r") (simp_all add: Let_def)
qed

text \<open>The second request of the example asks for more cards than the node has.\<close>

definition example_request_mlu :: container_device_request where
  "example_request_mlu = example_request\<lparr>rq_Type := CambriconMLUDevice, rq_Nums := 3\<rparr>"

lemma length_fold_book_device: "length (snd (snd (fold book_device sel (t, f, ds)))) = length ds"
  by (rule fold_invariant_set [where I = "\<lambda>s. length (snd (snd s)) = length ds"]) (auto simp: Let_def)

lemma second_too_many:
  assumes "sorts_by DeviceUsageList_Less srt" and "int (length ds) < rq_Nums k2"
  shows "\<not> fr_fit (fitInDevices srt chk ds [(a, k1), (b, k2)] dv)"
proof -
  obtain fit tmp where ft: "fitInCertainDevice chk (srt ds) k1 = (fit, tmp)" by fastforce
  obtain t' f' ds' where fold: "fold book_device (mget_list tmp (rq_Type k1)) (0, 0, srt ds) = (t', f', ds')"
    by (metis prod_cases3)
  have "length ds' = length ds"
    using length_fold_book_device [of "mget_list tmp (rq_Type k1)" 0 0 "srt ds"] fold
      sorts_by_length [OF assms(1), of ds] by simp
  then show ?thesis
    using ft fold assms(2) by (simp add: fitInDevices_def Let_def)
qed

lemma calcScore_two_types_inverted_example:
  "\<exists>ns nodes'. calcScore (insertionSort DeviceUsageList_Less) (checkType GetDevices [])
     [[(''NVIDIA'', example_request2), (''MLU'', example_request_mlu)]] [(''node1'', example_node)]
     = Inr ([ns], nodes') \<and> map fst (ns_devices ns) = [''NVIDIA'']"
proof -
  note srt = usage_order.sorts_by_insertionSort
  have req: "requests_ok [(''NVIDIA'', example_request2), (''MLU'', example_request_mlu)] example_node"
    by (simp add: requests_ok_def example_request_mlu_def example_request2_def example_request_def request_ok_def
        example_node_def example_device_def)
  have ne: "rq_Type example_request2 \<noteq> rq_Type example_request_mlu"
    by (simp add: example_request2_def example_request_mlu_def example_request_def device_names)
  have "int (length example_node) < rq_Nums example_request_mlu"
    by (simp add: example_node_def example_request_mlu_def)
  from second_too_many [OF srt this]
  show ?thesis
    using calcScore_two_types_inverted [OF srt example_node_ok req ne example_single_fit [OF srt], of "''node1''"]
    by (simp add: example_request2_def example_request_def)
qed

end
