(* ===== verification/Registry.thy ===== *)
theory Registry
  imports Score
begin

text \<open>
  The two registries of the scheduler: \<open>nodeManager\<close> (\<open>pkg/scheduler/nodes.go\<close>), the devices every
  node has reported, and \<open>podManager\<close> (\<open>pkg/scheduler/pods.go\<close>), the devices every pod was given.
  Each is modelled by the map it keeps under its mutex; an operation is one critical section.  The
  node registry stores pointers to \<open>NodeInfo\<close> that its caller keeps, too, so it has an explicit
  store: an address is a position of \<open>nm_heap\<close>.  The locale \<open>keyed_registry\<close> is the contract of a
  registry whose entries are written once and deleted by key; it is interpreted on the pod registry.
\<close>

section \<open>Nodes\<close>

record device_info =
  di_ID :: string
  di_Index :: int
  di_Count :: int
  di_Devmem :: int
  di_Devcore :: int
  di_Type :: string
  di_Numa :: int
  di_Health :: bool

record node_info =
  ni_ID :: string
  ni_Devices :: "device_info list"

type_synonym addr = nat

record node_manager =
  nm_nodes :: "(string, addr) gomap"
  nm_heap :: "node_info list"

definition init_nodes :: node_manager where
  "init_nodes = \<lparr>nm_nodes = [], nm_heap = []\<rparr>"

definition zero_node_info :: node_info where
  "zero_node_info = \<lparr>ni_ID = [], ni_Devices = []\<rparr>"

text \<open>Allocation of a \<open>NodeInfo\<close>, reading and writing through a pointer.\<close>

definition new_node_info :: "node_info \<Rightarrow> node_manager \<Rightarrow> addr \<times> node_manager" where
  "new_node_info n m = (length (nm_heap m), m\<lparr>nm_heap := nm_heap m @ [n]\<rparr>)"

definition deref :: "node_manager \<Rightarrow> addr \<Rightarrow> node_info" where
  "deref m a = (if a < length (nm_heap m) then nm_heap m ! a else zero_node_info)"

definition set_devices :: "addr \<Rightarrow> device_info list \<Rightarrow> node_manager \<Rightarrow> node_manager" where
  "set_devices a ds m = m\<lparr>nm_heap := (nm_heap m)[a := (deref m a)\<lparr>ni_Devices := ds\<rparr>]\<rparr>"

definition addNode :: "string \<Rightarrow> addr option \<Rightarrow> node_manager \<Rightarrow> node_manager" where
  "addNode nodeID nodeInfo m =
     (case nodeInfo of
        None \<Rightarrow> m
      | Some a \<Rightarrow>
          if ni_Devices (deref m a) = [] then m
          else
            (case mget (nm_nodes m) nodeID of
               Some b \<Rightarrow> set_devices b (ni_Devices (deref m b) @ ni_Devices (deref m a)) m
             | None \<Rightarrow> m\<lparr>nm_nodes := mset_to (nm_nodes m) nodeID a\<rparr>))"

text \<open>
  The capacity given to \<open>make\<close> is the difference of the two lengths: a negative one panics.  A device
  stays when no removed device has its id and its id is not empty.
\<close>

definition keep_devices :: "device_info list \<Rightarrow> device_info list \<Rightarrow> device_info list" where
  "keep_devices ds rm = filter (\<lambda>d. \<not> list_ex (\<lambda>r. di_ID d = di_ID r) rm \<and> di_ID d \<noteq> []) ds"

definition rmNodeDevice :: "string \<Rightarrow> addr \<Rightarrow> node_manager \<Rightarrow> node_manager result" where
  "rmNodeDevice nodeID a m =
     (case mget (nm_nodes m) nodeID of
        None \<Rightarrow> Inr m
      | Some b \<Rightarrow>
          if ni_Devices (deref m b) = [] then Inr m
          else if length (ni_Devices (deref m b)) < length (ni_Devices (deref m a))
          then Inl (GoPanic ''makeslice: cap out of range'')
          else Inr (set_devices b (keep_devices (ni_Devices (deref m b)) (ni_Devices (deref m a))) m))"

definition GetNode :: "node_manager \<Rightarrow> string \<Rightarrow> node_info result" where
  "GetNode m nodeID =
     (case mget (nm_nodes m) nodeID of
        Some a \<Rightarrow> Inr (deref m a)
      | None \<Rightarrow> Inl (Errorf ''node not found''))"

definition ListNodes :: "node_manager \<Rightarrow> (string, node_info) gomap" where
  "ListNodes m = map (\<lambda>(k, a). (k, deref m a)) (nm_nodes m)"

text \<open>
  The registry is well formed when every address is allocated, two names never share an entry, an
  entry carries the name it is filed under, and no node lists a device twice.
\<close>

definition nodes_wf :: "node_manager \<Rightarrow> bool" where
  "nodes_wf m \<longleftrightarrow>
     map_ok (nm_nodes m) \<and> distinct (map snd (nm_nodes m))
     \<and> (\<forall>(k, a)\<in>set (nm_nodes m). a < length (nm_heap m) \<and> ni_ID (deref m a) = k
          \<and> distinct (map di_ID (ni_Devices (deref m a))))"

section \<open>Pods\<close>

record pod_info =
  pi_Namespace :: string
  pi_Name :: string
  pi_Uid :: string
  pi_NodeID :: string
  pi_Devices :: pod_devices

type_synonym pod_manager = "(string, pod_info) gomap"

definition init_pods :: pod_manager where
  "init_pods = []"

definition make_pod_info :: "pod \<Rightarrow> string \<Rightarrow> pod_devices \<Rightarrow> pod_info" where
  "make_pod_info p nodeID devices =
     \<lparr>pi_Namespace = pod_Namespace p, pi_Name = pod_Name p, pi_Uid = pod_UID p, pi_NodeID = nodeID,
      pi_Devices = devices\<rparr>"

definition addPod :: "pod \<Rightarrow> string \<Rightarrow> pod_devices \<Rightarrow> pod_manager \<Rightarrow> pod_manager" where
  "addPod p nodeID devices m =
     (case mget m (pod_UID p) of
        None \<Rightarrow> mset_to m (pod_UID p) (make_pod_info p nodeID devices)
      | Some _ \<Rightarrow> m)"

definition delPod :: "pod \<Rightarrow> pod_manager \<Rightarrow> pod_manager" where
  "delPod p m = (case mget m (pod_UID p) of Some _ \<Rightarrow> mdel m (pod_UID p) | None \<Rightarrow> m)"

definition GetScheduledPods :: "pod_manager \<Rightarrow> (string, pod_info) gomap" where
  "GetScheduledPods m = m"

section \<open>A registry written once per key\<close>

locale keyed_registry =
  fixes add :: "'k \<Rightarrow> 'v \<Rightarrow> 's \<Rightarrow> 's"
    and del :: "'k \<Rightarrow> 's \<Rightarrow> 's"
    and find :: "'s \<Rightarrow> 'k \<Rightarrow> 'v option"
    and inv :: "'s \<Rightarrow> bool"
  assumes inv_add: "inv s \<Longrightarrow> inv (add k v s)"
    and inv_del: "inv s \<Longrightarrow> inv (del k s)"
    and find_add: "inv s \<Longrightarrow> find (add k v s) j = (if j = k \<and> find s k = None then Some v else find s j)"
    and find_del: "inv s \<Longrightarrow> find (del k s) j = (if j = k then None else find s j)"
begin

lemma find_add_again: "inv s \<Longrightarrow> find (add k w (add k v s)) j = find (add k v s) j"
  by (simp add: find_add inv_add)

lemma find_del_add_new: "inv s \<Longrightarrow> find s k = None \<Longrightarrow> find (del k (add k v s)) j = find s j"
  by (simp add: find_add find_del inv_add)

lemma find_add_del: "inv s \<Longrightarrow> find (add k v (del k s)) j = (if j = k then Some v else find s j)"
  by (simp add: find_add find_del inv_del)

lemma find_del_del: "inv s \<Longrightarrow> find (del k (del k s)) j = find (del k s) j"
  by (simp add: find_del inv_del)

end

definition pod_add :: "string \<Rightarrow> pod_info \<Rightarrow> pod_manager \<Rightarrow> pod_manager" where
  "pod_add uid info m = (case mget m uid of None \<Rightarrow> mset_to m uid info | Some _ \<Rightarrow> m)"

definition pod_del :: "string \<Rightarrow> pod_manager \<Rightarrow> pod_manager" where
  "pod_del uid m = (case mget m uid of Some _ \<Rightarrow> mdel m uid | None \<Rightarrow> m)"

lemma addPod_eq: "addPod p nodeID devices m = pod_add (pod_UID p) (make_pod_info p nodeID devices) m"
  by (simp add: addPod_def pod_add_def)

lemma delPod_eq: "delPod p m = pod_del (pod_UID p) m"
  by (simp add: delPod_def pod_del_def)

interpretation pod_registry: keyed_registry pod_add pod_del mget map_ok
  by unfold_locales (auto simp: pod_add_def pod_del_def split: option.splits)

lemma delPod_mdel: "delPod p m = mdel m (pod_UID p)"
  by (simp add: delPod_def mdel_absent split: option.splits)

lemma addPod_delPod: "addPod p nodeID devices (delPod p m) =
    mdel m (pod_UID p) @ [(pod_UID p, make_pod_info p nodeID devices)]"
  by (simp add: delPod_mdel addPod_def mset_to_new)

section \<open>Properties of the registries\<close>

lemma deref_simps [simp]:
  "deref (m\<lparr>nm_nodes := ns\<rparr>) a = deref m a"
  "nm_nodes (set_devices b ds m) = nm_nodes m"
  "length (nm_heap (set_devices b ds m)) = length (nm_heap m)"
  by (simp_all add: deref_def set_devices_def)

lemma deref_set_devices:
  "b < length (nm_heap m) \<Longrightarrow>
     deref (set_devices b ds m) a = (if a = b then (deref m b)\<lparr>ni_Devices := ds\<rparr> else deref m a)"
  by (auto simp: deref_def set_devices_def)

lemma deref_new_node_info:
  "new_node_info n m = (a, m') \<Longrightarrow> deref m' a = n"
  "new_node_info n m = (a, m') \<Longrightarrow> b < length (nm_heap m) \<Longrightarrow> deref m' b = deref m b"
  "new_node_info n m = (a, m') \<Longrightarrow> nm_nodes m' = nm_nodes m"
  "new_node_info n m = (a, m') \<Longrightarrow> a = length (nm_heap m) \<and> length (nm_heap m') = Suc (length (nm_heap m))"
  by (auto simp: new_node_info_def deref_def nth_append)

lemma nodes_wf_init: "nodes_wf init_nodes"
  by (simp add: nodes_wf_def init_nodes_def)

lemma nodes_wf_new: "nodes_wf m \<Longrightarrow> new_node_info n m = (a, m') \<Longrightarrow> nodes_wf m'"
  unfolding nodes_wf_def using deref_new_node_info by fastforce

lemma nodes_wf_get:
  assumes "nodes_wf m" and "mget (nm_nodes m) k = Some b"
  shows "b < length (nm_heap m)" "ni_ID (deref m b) = k" "distinct (map di_ID (ni_Devices (deref m b)))"
  using assms mget_SomeD [OF assms(2)] by (auto simp: nodes_wf_def)

lemma nodes_wf_set_devices:
  assumes "nodes_wf m" and "mget (nm_nodes m) k = Some b" and "distinct (map di_ID ds)"
  shows "nodes_wf (set_devices b ds m)"
proof -
  have b: "b < length (nm_heap m)" using nodes_wf_get [OF assms(1,2)] by simp
  show ?thesis
    using assms(1,3) unfolding nodes_wf_def by (auto simp: deref_set_devices [OF b])
qed

lemma mset_to_snd: "mget m k = None \<Longrightarrow> map snd (mset_to m k v) = map snd m @ [v]"
  by (simp add: mset_to_new)

lemma nodes_wf_addNode:
  assumes "nodes_wf m" and "new_node_info n m = (a, m')" and "ni_ID n = nodeID"
    and "distinct (map di_ID (ni_Devices n))"
    and "\<And>b. mget (nm_nodes m) nodeID = Some b \<Longrightarrow>
       di_ID ` set (ni_Devices (deref m b)) \<inter> di_ID ` set (ni_Devices n) = {}"
  shows "nodes_wf (addNode nodeID (Some a) m')"
proof -
  note new = deref_new_node_info [OF assms(2)]
  have wf': "nodes_wf m'" using assms(1,2) by (rule nodes_wf_new)
  show ?thesis
  proof (cases "ni_Devices n = [] \<or> mget (nm_nodes m) nodeID \<noteq> None")
    case True
    then show ?thesis
    proof (cases "mget (nm_nodes m) nodeID")
      case None
      then show ?thesis using True wf' new by (simp add: addNode_def)
    next
      case (Some b)
      have b: "b < length (nm_heap m)" using nodes_wf_get [OF assms(1) Some] by simp
      have "distinct (map di_ID (ni_Devices (deref m b) @ ni_Devices n))"
        using nodes_wf_get [OF assms(1) Some] assms(4) assms(5) [OF Some] by simp
      then show ?thesis
        using nodes_wf_set_devices [OF wf'] Some new b wf' by (simp add: addNode_def)
    qed
  next
    case False
    then have absent: "mget (nm_nodes m) nodeID = None" by simp
    have "a \<notin> set (map snd (nm_nodes m))"
      using assms(1) new(4) by (auto simp: nodes_wf_def)
    moreover have "addNode nodeID (Some a) m' = m'\<lparr>nm_nodes := nm_nodes m @ [(nodeID, a)]\<rparr>"
      using False absent new by (simp add: addNode_def mset_to_new)
    moreover have "nodeID \<notin> fst ` set (nm_nodes m)"
      using absent by (simp add: mget_None_iff)
    ultimately show ?thesis
      using wf' new assms(3,4) unfolding nodes_wf_def by (auto simp: map_ok_def)
  qed
qed

lemma distinct_keep_devices: "distinct (map di_ID ds) \<Longrightarrow> distinct (map di_ID (keep_devices ds rm))"
  by (simp add: keep_devices_def distinct_map_filter)

text \<open>Removing a node's devices keeps the registry well formed, leaves every other node untouched and
  removes exactly the devices whose id is among the removed ones (and devices without an id).\<close>
lemma rmNodeDevice_effect:
  assumes "nodes_wf m" and "mget (nm_nodes m) nodeID = Some b" and "rmNodeDevice nodeID a m = Inr m'"
  shows "nodes_wf m'
     \<and> ni_Devices (deref m' b) = filter (\<lambda>d. di_ID d \<notin> di_ID ` set (ni_Devices (deref m a)) \<and> di_ID d \<noteq> [])
         (ni_Devices (deref m b))
     \<and> (\<forall>k c. k \<noteq> nodeID \<longrightarrow> mget (nm_nodes m) k = Some c \<longrightarrow>
          mget (nm_nodes m') k = Some c \<and> deref m' c = deref m c)"
proof (cases "ni_Devices (deref m b) = []")
  case True
  then show ?thesis using assms by (auto simp: rmNodeDevice_def)
next
  case False
  then have m': "m' = set_devices b (keep_devices (ni_Devices (deref m b)) (ni_Devices (deref m a))) m"
    using assms(2,3) by (auto simp: rmNodeDevice_def split: if_splits)
  have keep: "keep_devices ds rm = filter (\<lambda>d. di_ID d \<notin> di_ID ` set rm \<and> di_ID d \<noteq> []) ds" for ds rm
    unfolding keep_devices_def by (intro filter_cong refl) (auto simp: list_ex_iff)
  have b: "b < length (nm_heap m)" using nodes_wf_get [OF assms(1,2)] by simp
  have "c \<noteq> b" if "k \<noteq> nodeID" "mget (nm_nodes m) k = Some c" for k c
    using that nodes_wf_get(2) [OF assms(1)] assms(2) by metis
  moreover have "nodes_wf m'"
    unfolding m' using nodes_wf_get [OF assms(1,2)]
    by (intro nodes_wf_set_devices [OF assms(1,2)] distinct_keep_devices)
  ultimately show ?thesis
    using m' b by (simp add: deref_set_devices keep)
qed

text \<open>A registry with one node of two cards, as used by the witnesses.\<close>

definition example_info :: "string \<Rightarrow> device_info" where
  "example_info i = \<lparr>di_ID = i, di_Index = 0, di_Count = 10, di_Devmem = 16384, di_Devcore = 100,
     di_Type = ''NVIDIA-Tesla'', di_Numa = 0, di_Health = True\<rparr>"

definition example_nodes :: node_manager where
  "example_nodes = \<lparr>nm_nodes = [(''node1'', 0)],
     nm_heap = [\<lparr>ni_ID = ''node1'', ni_Devices = [example_info ''GPU-1'', example_info ''GPU-2'']\<rparr>,
                \<lparr>ni_ID = ''node1'', ni_Devices = [example_info ''GPU-2'']\<rparr>]\<rparr>"

lemma example_nodes_wf: "nodes_wf example_nodes"
  by (simp add: nodes_wf_def example_nodes_def deref_def example_info_def)

lemma rmNodeDevice_effect_example:
  "\<exists>m'. rmNodeDevice ''node1'' 1 example_nodes = Inr m' \<and> nodes_wf m'
     \<and> ni_Devices (deref m' 0) = [example_info ''GPU-1'']"
proof -
  have get: "mget (nm_nodes example_nodes) ''node1'' = Some 0"
    by (simp add: example_nodes_def)
  obtain m' where m': "rmNodeDevice ''node1'' 1 example_nodes = Inr m'"
    using get by (simp add: rmNodeDevice_def deref_def example_nodes_def)
  show ?thesis
    using m' rmNodeDevice_effect [OF example_nodes_wf get m']
    by (simp add: deref_def example_nodes_def example_info_def)
qed

end
