(* ===== verification/Scheduler.thy ===== *)
theory Scheduler
  imports Placement Registry
begin

text \<open>
  The scheduler extender, \<open>pkg/scheduler/scheduler.go\<close>: the pod events of the informer, the
  computation of every node's usage from the two registries, and the extender's \<open>Filter\<close> and
  \<open>Bind\<close> calls.  What the code takes from outside is an argument: the answers of the API server, the
  clock, the order in which Go visits a map (\<open>itr\<close>) and the results of \<open>sort.Sort\<close> (\<open>srt\<close>, \<open>srtN\<close>).
  The state holds the registries and the two usage maps that the code keeps for the metrics.
\<close>

record scheduler =
  sc_nodes :: node_manager
  sc_pods :: pod_manager
  sc_cachedstatus :: "(string, device_usage list) gomap"
  sc_overviewstatus :: "(string, device_usage list) gomap"

definition NewScheduler :: scheduler where
  "NewScheduler = \<lparr>sc_nodes = init_nodes, sc_pods = init_pods, sc_cachedstatus = [], sc_overviewstatus = []\<rparr>"

section \<open>Pod events\<close>

definition onAddPod :: "annotations \<Rightarrow> pod \<Rightarrow> scheduler \<Rightarrow> scheduler" where
  "onAddPod support p s =
     (case mget (pod_Annotations p) AssignedNodeAnnotations of
        None \<Rightarrow> s
      | Some nodeID \<Rightarrow>
          if IsPodInTerminatedState p then s\<lparr>sc_pods := delPod p (sc_pods s)\<rparr>
          else s\<lparr>sc_pods := addPod p nodeID (DecodePodDevices support (pod_Annotations p)) (sc_pods s)\<rparr>)"

definition onUpdatePod :: "annotations \<Rightarrow> pod \<Rightarrow> pod \<Rightarrow> scheduler \<Rightarrow> scheduler" where
  "onUpdatePod support oldPod newPod s = onAddPod support newPod s"

definition onDelPod :: "pod \<Rightarrow> scheduler \<Rightarrow> scheduler" where
  "onDelPod p s =
     (case mget (pod_Annotations p) AssignedNodeAnnotations of
        None \<Rightarrow> s
      | Some _ \<Rightarrow> s\<lparr>sc_pods := delPod p (sc_pods s)\<rparr>)"

section \<open>Usage of the nodes\<close>

definition new_usage :: "device_info \<Rightarrow> device_usage" where
  "new_usage d =
     \<lparr>du_Id = di_ID d, du_Index = di_Index d, du_Used = 0, du_Count = di_Count d, du_Usedmem = 0,
      du_Totalmem = di_Devmem d, du_Totalcore = di_Devcore d, du_Usedcores = 0, du_Numa = di_Numa d,
      du_Type = di_Type d, du_Health = di_Health d\<rparr>"

text \<open>The innermost loop: every device of the node with the assigned id is booked.\<close>

definition book_matching :: "container_device \<Rightarrow> device_usage list \<Rightarrow> device_usage list" where
  "book_matching udevice ds = map (\<lambda>d. if du_Id d = cd_UUID udevice then book_usage udevice d else d) ds"

definition book_pod ::
  "pod_info \<Rightarrow> (string, device_usage list) gomap \<Rightarrow> (string, device_usage list) gomap" where
  "book_pod p overall =
     (case mget overall (pi_NodeID p) of
        None \<Rightarrow> overall
      | Some ds \<Rightarrow> mset_to overall (pi_NodeID p) (fold book_matching (all_devices (pi_Devices p)) ds))"

definition overall_nodes :: "node_manager \<Rightarrow> (string, device_usage list) gomap" where
  "overall_nodes m =
     fold (\<lambda>(_, node) res. mset_to res (ni_ID node) (map new_usage (ni_Devices node))) (ListNodes m) []"

definition cache_node ::
  "node_manager \<Rightarrow> (string, device_usage list) gomap \<Rightarrow> string \<Rightarrow>
   (string, device_usage list) gomap \<times> (string, string) gomap \<Rightarrow>
   (string, device_usage list) gomap \<times> (string, string) gomap" where
  "cache_node m overall nodeID st =
     (case GetNode m nodeID of
        Inl _ \<Rightarrow> (fst st, mset_to (snd st) nodeID ''node unregisterd'')
      | Inr node \<Rightarrow> (mset_to (fst st) (ni_ID node) (mget_list overall (ni_ID node)), snd st))"

definition getNodesUsage ::
  "string list \<Rightarrow> scheduler \<Rightarrow>
   scheduler \<times> (string, device_usage list) gomap \<times> (string, string) gomap" where
  "getNodesUsage nodes s =
     (let overall = fold (\<lambda>(_, p). book_pod p) (sc_pods s) (overall_nodes (sc_nodes s))
      in case fold (cache_node (sc_nodes s) overall) nodes ([], []) of
           (cache, failed) \<Rightarrow>
             (s\<lparr>sc_overviewstatus := overall, sc_cachedstatus := cache\<rparr>, cache, failed))"

definition InspectAllNodesUsage :: "scheduler \<Rightarrow> (string, device_usage list) gomap" where
  "InspectAllNodesUsage s = sc_overviewstatus s"

section \<open>Filter\<close>

record filter_result =
  flt_NodeNames :: "string list option"
  flt_FailedNodes :: "(string, string) gomap"
  flt_Error :: string

text \<open>What \<open>Filter\<close> gets from outside: configuration, map orders, sorting, clock, API server.\<close>

record filter_env =
  fe_cfg :: device_config
  fe_devs :: "(string, backend) gomap"
  fe_itr :: "(string, device_usage list) gomap \<Rightarrow> (string, device_usage list) gomap"
  fe_srt :: "device_usage list \<Rightarrow> device_usage list"
  fe_srtN :: "node_score list \<Rightarrow> node_score list"
  fe_now :: int
  fe_inreq :: annotations
  fe_support :: annotations
  fe_patch :: "annotations \<Rightarrow> annotations \<Rightarrow> annotations result"

definition filter_total :: "pod_device_requests \<Rightarrow> int" where
  "filter_total nums = sum_list (map request_sum nums)"

definition filter_annotations :: "filter_env \<Rightarrow> node_score \<Rightarrow> annotations" where
  "filter_annotations env m =
     maps_Copy
       (maps_Copy
          (mset_to (mset_to [] AssignedNodeAnnotations (ns_nodeID m)) AssignedTimeAnnotations (Itoa (fe_now env)))
          (EncodePodDevices (fe_inreq env) (ns_devices m)))
       (EncodePodDevices (fe_support env) (ns_devices m))"

text \<open>
  \<open>Filter\<close> returns the new state, the pod's annotations at the server, and the extender's answer (a
  result or an error).  A panic, which can only come from \<open>calcScore\<close>, has no successor state.
\<close>

definition Filter ::
  "filter_env \<Rightarrow> pod \<Rightarrow> string list \<Rightarrow> scheduler \<Rightarrow> (scheduler \<times> annotations \<times> filter_result result) result" where
  "Filter env p nodeNames s =
     (let annos = pod_Annotations p;
          nums = Resourcereqs (fe_cfg env) (fe_devs env) p
      in if filter_total nums = 0
         then Inr (s, annos, Inr \<lparr>flt_NodeNames = Some nodeNames, flt_FailedNodes = [], flt_Error = []\<rparr>)
         else
           case getNodesUsage nodeNames (s\<lparr>sc_pods := delPod p (sc_pods s)\<rparr>) of
             (s1, usage, failed) \<Rightarrow>
               bind_result (calcScore (fe_srt env) (checkType (fe_devs env) annos) nums (fe_itr env usage))
                 (\<lambda>(scores, usage').
                    let s2 = s1\<lparr>sc_cachedstatus := usage',
                                sc_overviewstatus := maps_Copy (sc_overviewstatus s1) usage'\<rparr>
                    in if scores = []
                       then Inr (s2, annos, Inr \<lparr>flt_NodeNames = None, flt_FailedNodes = failed, flt_Error = []\<rparr>)
                       else
                         let m = last (fe_srtN env scores);
                             s3 = s2\<lparr>sc_pods := addPod p (ns_nodeID m) (ns_devices m) (sc_pods s2)\<rparr>
                         in case fe_patch env annos (filter_annotations env m) of
                              Inl err \<Rightarrow> Inr (s3\<lparr>sc_pods := delPod p (sc_pods s3)\<rparr>, annos, Inl err)
                            | Inr annos' \<Rightarrow>
                                Inr (s3, annos',
                                     Inr \<lparr>flt_NodeNames = Some [ns_nodeID m], flt_FailedNodes = [], flt_Error = []\<rparr>)))"

section \<open>Bind\<close>

text \<open>
  \<open>Bind\<close> talks to the API server only.  The arguments are the answers it gets: whether the pod could
  be read, the node lock's answer, the patch of the pod's annotations, and the binding itself.  The
  result is the answers' effects (the patch that was applied, whether the binding was created) and
  the error text returned to the caller.
\<close>

record bind_env =
  be_get :: "pod result"
  be_lock :: "unit result"
  be_patch :: "pod \<Rightarrow> annotations \<Rightarrow> annotations result"
  be_bind :: "unit result"
  be_now :: int

record bind_outcome =
  bo_locked :: bool
  bo_annotations :: "annotations option"
  bo_bound :: bool
  bo_Error :: string

fun error_text :: "go_error \<Rightarrow> string" where
  "error_text (Errorf s) = s"
| "error_text (GoPanic s) = s"

definition zero_pod :: pod where
  "zero_pod = \<lparr>pod_Name = [], pod_Namespace = [], pod_UID = [], pod_Annotations = [], pod_Containers = [],
     pod_SchedulerName = [], pod_Phase = PodUnknown, pod_ContainerStatuses = 0\<rparr>"

definition bind_patch :: "int \<Rightarrow> annotations" where
  "bind_patch now =
     mset_to (mset_to [] DeviceBindPhase DeviceBindAllocating) BindTimeAnnotations (Itoa now)"

definition Bind :: "bind_env \<Rightarrow> bind_outcome" where
  "Bind env =
     (let current = (case be_get env of Inr p \<Rightarrow> p | Inl _ \<Rightarrow> zero_pod)
      in \<lparr>bo_locked = (case be_lock env of Inr _ \<Rightarrow> True | Inl _ \<Rightarrow> False),
          bo_annotations =
            (case be_patch env current (bind_patch (be_now env)) of Inr a \<Rightarrow> Some a | Inl _ \<Rightarrow> None),
          bo_bound = (case be_bind env of Inr _ \<Rightarrow> True | Inl _ \<Rightarrow> False),
          bo_Error = (case be_bind env of Inr _ \<Rightarrow> [] | Inl e \<Rightarrow> error_text e)\<rparr>)"

section \<open>Usage as a function of the registries\<close>

text \<open>All assignments of the pods on a node.\<close>

definition pods_on :: "pod_manager \<Rightarrow> string \<Rightarrow> container_devices" where
  "pods_on pods nodeID =
     concat (map (\<lambda>(_, p). if pi_NodeID p = nodeID then all_devices (pi_Devices p) else []) pods)"

definition registered :: "node_manager \<Rightarrow> string \<Rightarrow> device_info list option" where
  "registered m nodeID = map_option (\<lambda>a. ni_Devices (deref m a)) (mget (nm_nodes m) nodeID)"

lemma pods_on_simps [simp]:
  "pods_on [] nodeID = []"
  "pods_on ((uid, p) # pods) nodeID =
     (if pi_NodeID p = nodeID then all_devices (pi_Devices p) else []) @ pods_on pods nodeID"
  "pods_on (pods @ pods') nodeID = pods_on pods nodeID @ pods_on pods' nodeID"
  by (simp_all add: pods_on_def)

definition usage_in_range :: "device_usage \<Rightarrow> bool" where
  "usage_in_range d \<longleftrightarrow> in_i32 (du_Used d) \<and> in_i32 (du_Usedmem d) \<and> in_i32 (du_Usedcores d)"

lemma usage_in_range_book_all [simp]: "usage_in_range (book_all sel d)"
  by (simp add: usage_in_range_def book_all_def)

lemma usage_in_range_new [simp]: "usage_in_range (new_usage d)"
  by (simp add: usage_in_range_def new_usage_def)

lemma book_all_Nil: "usage_in_range d \<Longrightarrow> book_all [] d = d"
  by (simp add: book_all_def uses_of_def usage_in_range_def i32_in_i32)

lemma book_all_one:
  "usage_in_range d \<Longrightarrow> book_all [a] d = (if du_Id d = cd_UUID a then book_usage a d else d)"
  by (auto simp: book_all_def uses_of_def usage_in_range_def i32_in_i32 book_usage_def)

lemma fold_book_matching:
  "\<forall>d\<in>set ds. usage_in_range d \<Longrightarrow> fold book_matching us ds = map (book_all us) ds"
proof (induction us arbitrary: ds)
  case Nil
  then show ?case by (simp add: book_all_Nil map_idI)
next
  case (Cons u us)
  have one: "book_matching u ds = map (book_all [u]) ds"
    using Cons.prems by (simp add: book_matching_def book_all_one)
  have "fold book_matching (u # us) ds = map (book_all us) (map (book_all [u]) ds)"
    using Cons.IH [of "map (book_all [u]) ds"] by (simp add: one)
  then show ?case
    using book_all_append [of "[u]" us] by simp
qed

text \<open>Every value of a map of usages is in range.\<close>

definition usages_in_range :: "(string, device_usage list) gomap \<Rightarrow> bool" where
  "usages_in_range m \<longleftrightarrow> (\<forall>k ds. mget m k = Some ds \<longrightarrow> (\<forall>d\<in>set ds. usage_in_range d))"

lemma mget_book_pod:
  assumes "usages_in_range m"
  shows "mget (book_pod p m) k =
     map_option (map (book_all (if pi_NodeID p = k then all_devices (pi_Devices p) else []))) (mget m k)"
proof -
  have r: "\<forall>d\<in>set ds. usage_in_range d" if "mget m k = Some ds" for k ds
    using assms that by (auto simp: usages_in_range_def)
  have "map (book_all []) ds = ds" if "mget m k = Some ds" for ds
    using r [OF that] by (simp add: book_all_Nil map_idI)
  then show ?thesis
    using r by (auto simp: book_pod_def fold_book_matching split: option.splits)
qed

lemma usages_in_range_book_pod: "usages_in_range m \<Longrightarrow> usages_in_range (book_pod p m)"
  using mget_book_pod unfolding usages_in_range_def by auto

lemma mget_book_pods:
  assumes "usages_in_range m"
  shows "mget (fold (\<lambda>(_, p). book_pod p) pods m) k = map_option (map (book_all (pods_on pods k))) (mget m k)"
  using assms
proof (induction pods arbitrary: m)
  case Nil
  then have "map (book_all []) ds = ds" if "mget m k = Some ds" for ds
    using that by (auto simp: usages_in_range_def book_all_Nil map_idI)
  then show ?case by (cases "mget m k") simp_all
next
  case (Cons q pods)
  obtain uid p where q: "q = (uid, p)" by (cases q)
  show ?case
    using Cons.IH [OF usages_in_range_book_pod [OF Cons.prems, of p]] mget_book_pod [OF Cons.prems, of p k]
    by (cases "mget m k") (simp_all add: q book_all_append)
qed

lemma mget_fold_overall:
  assumes "\<forall>(k, n)\<in>set ns. ni_ID n = k" and "map_ok ns"
  shows "mget (fold (\<lambda>(_, node) res. mset_to res (ni_ID node) (f node)) ns m) k =
     (case mget ns k of Some n \<Rightarrow> Some (f n) | None \<Rightarrow> mget m k)"
  using assms
proof (induction ns arbitrary: m)
  case (Cons q ns)
  obtain i n where q: "q = (i, n)" by (cases q)
  have "mget ns i = None" and "ni_ID n = i" and ns: "\<forall>(k, n)\<in>set ns. ni_ID n = k" "map_ok ns"
    using Cons.prems q by (simp_all add: mget_None_iff)
  then show ?case
    using Cons.IH [OF ns] q by (cases "k = i"; cases "mget ns k") simp_all
qed simp

lemma mget_ListNodes: "mget (ListNodes m) k = map_option (deref m) (mget (nm_nodes m) k)"
  by (simp add: ListNodes_def mget_def map_of_map)

lemma mget_overall_nodes:
  assumes "nodes_wf m"
  shows "mget (overall_nodes m) k = map_option (map new_usage) (registered m k)"
proof -
  have "\<forall>(k, n)\<in>set (ListNodes m). ni_ID n = k" "map_ok (ListNodes m)"
    using assms by (auto simp: ListNodes_def nodes_wf_def map_ok_def comp_def case_prod_unfold)
  then show ?thesis
    unfolding overall_nodes_def
    by (simp add: mget_fold_overall mget_ListNodes registered_def split: option.splits)
qed

lemma usages_in_range_overall: "nodes_wf m \<Longrightarrow> usages_in_range (overall_nodes m)"
  by (auto simp: usages_in_range_def mget_overall_nodes)


lemma GetNode_registered:
  "nodes_wf m \<Longrightarrow> GetNode m k = (case registered m k of
     None \<Rightarrow> Inl (Errorf ''node not found'')
   | Some ds \<Rightarrow> Inr \<lparr>ni_ID = k, ni_Devices = ds\<rparr>)"
  using nodes_wf_get(2) [of m k]
  by (cases "mget (nm_nodes m) k") (auto simp: GetNode_def registered_def intro: node_info.equality)

lemma mget_fold_cache:
  assumes "nodes_wf m"
  shows "mget (fst (fold (cache_node m overall) nodes (c, f))) k =
      (if k \<in> set nodes \<and> registered m k \<noteq> None then Some (mget_list overall k) else mget c k)"
    and "mget (snd (fold (cache_node m overall) nodes (c, f))) k =
      (if k \<in> set nodes \<and> registered m k = None then Some ''node unregisterd'' else mget f k)"
proof (induction nodes arbitrary: c f)
  case (Cons n nodes)
  {
    case 1
    show ?case
      using Cons.IH(1) by (cases "registered m n") (auto simp: cache_node_def GetNode_registered [OF assms])
  next
    case 2
    show ?case
      using Cons.IH(2) by (cases "registered m n") (auto simp: cache_node_def GetNode_registered [OF assms])
  }
qed simp_all

text \<open>The usage of a node as the registries determine it.\<close>

definition node_usage :: "scheduler \<Rightarrow> string \<Rightarrow> device_usage list option" where
  "node_usage s k =
     map_option (map (\<lambda>d. book_all (pods_on (sc_pods s) k) (new_usage d))) (registered (sc_nodes s) k)"

lemma getNodesUsage_overview:
  assumes "nodes_wf (sc_nodes s)"
  shows "mget (sc_overviewstatus (fst (getNodesUsage nodes s))) k = node_usage s k"
proof -
  have "mget (fold (\<lambda>(_, p). book_pod p) (sc_pods s) (overall_nodes (sc_nodes s))) k = node_usage s k"
    using mget_book_pods [OF usages_in_range_overall [OF assms]] mget_overall_nodes [OF assms]
    by (cases "registered (sc_nodes s) k") (simp_all add: node_usage_def)
  then show ?thesis by (simp add: getNodesUsage_def Let_def split: prod.splits)
qed

lemma getNodesUsage_state [simp]:
  "sc_nodes (fst (getNodesUsage nodes s)) = sc_nodes s"
  "sc_pods (fst (getNodesUsage nodes s)) = sc_pods s"
  by (simp_all add: getNodesUsage_def Let_def split: prod.splits)

lemma getNodesUsage_usage:
  assumes "nodes_wf (sc_nodes s)" and "getNodesUsage nodes s = (s', usage, failed)"
  shows "mget usage k = (if k \<in> set nodes then node_usage s k else None)"
    and "mget failed k =
      (if k \<in> set nodes \<and> registered (sc_nodes s) k = None then Some ''node unregisterd'' else None)"
proof -
  let ?overall = "fold (\<lambda>(_, p). book_pod p) (sc_pods s) (overall_nodes (sc_nodes s))"
  have fold: "(usage, failed) = fold (cache_node (sc_nodes s) ?overall) nodes ([], [])"
    using assms(2) by (auto simp: getNodesUsage_def Let_def split: prod.splits)
  have overall: "mget ?overall k = node_usage s k"
    using mget_book_pods [OF usages_in_range_overall [OF assms(1)]] mget_overall_nodes [OF assms(1)]
    by (cases "registered (sc_nodes s) k") (simp_all add: node_usage_def)
  have "usage = fst (fold (cache_node (sc_nodes s) ?overall) nodes ([], []))"
    using fold by (metis fst_conv)
  then show "mget usage k = (if k \<in> set nodes then node_usage s k else None)"
    using overall by (auto simp: mget_fold_cache(1) [OF assms(1)] mget_default_def node_usage_def)
  have "failed = snd (fold (cache_node (sc_nodes s) ?overall) nodes ([], []))"
    using fold by (metis snd_conv)
  then show "mget failed k =
      (if k \<in> set nodes \<and> registered (sc_nodes s) k = None then Some ''node unregisterd'' else None)"
    by (simp add: mget_fold_cache(2) [OF assms(1)])
qed

text \<open>C12: the usage that \<open>Filter\<close> plans with is a function of the two registries: for every candidate node
  that is registered, each reported device appears with exactly the assignments of the pods recorded
  on that node added up, in whatever order the maps are visited; a candidate that is not registered is
  listed as failed, and no other node appears.\<close>
theorem getNodesUsage_spec:
  assumes "nodes_wf (sc_nodes s)" and "getNodesUsage nodes s = (s', usage, failed)"
  shows "mget usage k =
      (case registered (sc_nodes s) k of
         Some ds \<Rightarrow> if k \<in> set nodes then Some (map (\<lambda>d. book_all (pods_on (sc_pods s) k) (new_usage d)) ds) else None
       | None \<Rightarrow> None)
    \<and> (mget failed k \<noteq> None \<longleftrightarrow> k \<in> set nodes \<and> registered (sc_nodes s) k = None)"
  using getNodesUsage_usage [OF assms, of k]
  by (cases "registered (sc_nodes s) k") (auto simp: node_usage_def)

definition example_scheduler :: scheduler where
  "example_scheduler = NewScheduler\<lparr>sc_nodes := example_nodes,
     sc_pods := [(''u9'', \<lparr>pi_Namespace = ''ns'', pi_Name = ''p9'', pi_Uid = ''u9'', pi_NodeID = ''node1'',
        pi_Devices = [(''NVIDIA'', [[\<lparr>cd_Idx = 0, cd_UUID = ''GPU-1'', cd_Type = ''NVIDIA'', cd_Usedmem = 1000,
          cd_Usedcores = 30\<rparr>]])]\<rparr>)]\<rparr>"

lemma example_registered:
  "registered example_nodes k =
     (if k = ''node1'' then Some [example_info ''GPU-1'', example_info ''GPU-2''] else None)"
  by (simp add: registered_def example_nodes_def deref_def)

theorem getNodesUsage_spec_witness:
  "\<exists>s' usage failed. getNodesUsage [''node1'', ''node2''] example_scheduler = (s', usage, failed)
     \<and> (\<exists>d1 d2. mget usage ''node1'' = Some [d1, d2] \<and> du_Used d1 = 1 \<and> du_Usedmem d1 = 1000 \<and> du_Used d2 = 0)
     \<and> mget failed ''node2'' \<noteq> None"
proof -
  obtain s' usage failed where g: "getNodesUsage [''node1'', ''node2''] example_scheduler = (s', usage, failed)"
    by (metis prod_cases3)
  have wf: "nodes_wf (sc_nodes example_scheduler)"
    using example_nodes_wf by (simp add: example_scheduler_def)
  note spec = getNodesUsage_spec [OF wf g]
  show ?thesis
    using g spec [of "''node1''"] spec [of "''node2''"]
    by (simp add: example_scheduler_def NewScheduler_def example_registered example_info_def new_usage_def
        book_all_def uses_of_def all_devices_def i32_def)
qed

section \<open>No over-commitment\<close>

text \<open>
  The invariant: every registered device has sane capacities, and the assignments of all recorded
  pods fit into it together, in exact arithmetic.
\<close>

definition device_ok :: "device_info \<Rightarrow> bool" where
  "device_ok d \<longleftrightarrow> usage_ok (new_usage d)"

definition capacity_ok :: "scheduler \<Rightarrow> bool" where
  "capacity_ok s \<longleftrightarrow>
     (\<forall>k ds d. registered (sc_nodes s) k = Some ds \<longrightarrow> d \<in> set ds \<longrightarrow>
        device_ok d \<and> room_for (pods_on (sc_pods s) k) (new_usage d))"

definition sched_inv :: "scheduler \<Rightarrow> bool" where
  "sched_inv s \<longleftrightarrow> nodes_wf (sc_nodes s) \<and> map_ok (sc_pods s) \<and> capacity_ok s"

lemma mset_pods_on_mdel: "mset (pods_on (mdel pods uid) k) \<subseteq># mset (pods_on pods k)"
proof (induction pods)
  case (Cons q pods)
  obtain u p where q: "q = (u, p)" by (cases q)
  show ?case
    using Cons.IH by (auto simp: q intro: subset_mset.add_increasing subset_mset.add_mono)
qed simp

lemma sched_inv_delPod: "sched_inv s \<Longrightarrow> sched_inv (s\<lparr>sc_pods := delPod p (sc_pods s)\<rparr>)"
  unfolding sched_inv_def capacity_ok_def
  by (auto simp: delPod_mdel intro: room_for_mono [OF mset_pods_on_mdel])

lemma registered_device:
  "nodes_wf m \<Longrightarrow> registered m k = Some ds \<Longrightarrow> distinct (map di_ID ds)"
  using nodes_wf_get(3) by (auto simp: registered_def)

lemma new_usage_Id [simp]: "du_Id (new_usage d) = di_ID d"
  by (simp add: new_usage_def)

text \<open>Under the invariant, the usage of a node is one that placement may start from.\<close>

lemma node_usage_ok:
  assumes "sched_inv s" and "node_usage s k = Some us"
  shows "node_ok us"
proof -
  obtain ds where ds: "registered (sc_nodes s) k = Some ds"
    and us: "us = map (\<lambda>d. book_all (pods_on (sc_pods s) k) (new_usage d)) ds"
    using assms(2) by (auto simp: node_usage_def)
  have "distinct (map di_ID ds)"
    using assms(1) ds registered_device by (auto simp: sched_inv_def)
  then have "distinct (map du_Id us)" by (simp add: us comp_def)
  moreover have "\<forall>d\<in>set us. usage_ok d"
    using assms(1) ds by (auto simp: us sched_inv_def capacity_ok_def device_ok_def usage_ok_book_all)
  ultimately show ?thesis by (simp add: node_ok_def)
qed

lemma room_for_added:
  assumes "sched_inv s" and "node_usage s k = Some us" and "\<forall>u\<in>set us. room_for sel u"
    and "registered (sc_nodes s) k = Some ds" and "d \<in> set ds"
  shows "room_for (pods_on (sc_pods s) k @ sel) (new_usage d)"
proof -
  have "usage_ok (new_usage d)" "room_for (pods_on (sc_pods s) k) (new_usage d)"
    using assms(1,4,5) by (auto simp: sched_inv_def capacity_ok_def device_ok_def)
  then show ?thesis
    using assms(2-5) by (auto simp: room_for_append node_usage_def)
qed

text \<open>Every device of the node has room for the recorded assignments and the new one together.\<close>

definition room_on :: "scheduler \<Rightarrow> string \<Rightarrow> container_devices \<Rightarrow> bool" where
  "room_on s nodeID sel \<longleftrightarrow> (\<forall>ds d. registered (sc_nodes s) nodeID = Some ds \<longrightarrow> d \<in> set ds \<longrightarrow>
     room_for (pods_on (sc_pods s) nodeID @ sel) (new_usage d))"

text \<open>Recording an assignment for which there is room keeps the invariant.\<close>

lemma sched_inv_record:
  assumes "sched_inv s" and "room_on s nodeID (all_devices dv)"
  shows "sched_inv (s\<lparr>sc_pods := addPod p nodeID dv (sc_pods s)\<rparr>)"
proof (cases "mget (sc_pods s) (pod_UID p)")
  case (Some pi)
  then show ?thesis using assms(1) by (simp add: addPod_def sched_inv_def capacity_ok_def)
next
  case None
  then have pods: "addPod p nodeID dv (sc_pods s) = sc_pods s @ [(pod_UID p, make_pod_info p nodeID dv)]"
    by (simp add: addPod_def mset_to_new)
  have "map_ok (addPod p nodeID dv (sc_pods s))"
    using assms(1) by (simp add: addPod_eq sched_inv_def pod_registry.inv_add)
  moreover have "room_for (pods_on (addPod p nodeID dv (sc_pods s)) k) (new_usage d)"
    if "registered (sc_nodes s) k = Some ds" "d \<in> set ds" for k ds d
    using assms that by (cases "k = nodeID") (auto simp: pods make_pod_info_def room_on_def sched_inv_def capacity_ok_def)
  ultimately show ?thesis
    using assms(1) by (auto simp: sched_inv_def capacity_ok_def)
qed

lemma sched_inv_addPod:
  assumes "sched_inv s" and "mget (sc_pods s) (pod_UID p) = None"
    and "node_usage s nodeID = Some us" and "\<forall>u\<in>set us. room_for (all_devices dv) u"
  shows "sched_inv (s\<lparr>sc_pods := addPod p nodeID dv (sc_pods s)\<rparr>)"
  using room_for_added [OF assms(1,3,4)] by (auto simp: room_on_def intro!: sched_inv_record [OF assms(1)])

section \<open>Filter and the invariant\<close>

text \<open>
  The contracts of what \<open>Filter\<close> is given: a map is visited once per entry, both sorts permute, and
  the sort of scores leaves no greater score before a smaller one unless a score is not a number.
\<close>

definition env_ok :: "filter_env \<Rightarrow> bool" where
  "env_ok env \<longleftrightarrow>
     sorts_by DeviceUsageList_Less (fe_srt env)
     \<and> (\<forall>m. mset (fe_itr env m) = mset m)
     \<and> (\<forall>xs. mset (fe_srtN env xs) = mset xs
          \<and> ((\<forall>x\<in>set xs. ns_score x \<noteq> NaN) \<longrightarrow> sorted_wrt (\<lambda>a b. \<not> NodeScoreList_Less b a) (fe_srtN env xs)))"

text \<open>The node chosen from a list of scores.\<close>

definition chosen :: "filter_env \<Rightarrow> node_score list \<Rightarrow> node_score" where
  "chosen env scores = last (fe_srtN env scores)"

lemma chosen_mem: "env_ok env \<Longrightarrow> scores \<noteq> [] \<Longrightarrow> chosen env scores \<in> set scores"
  unfolding env_ok_def chosen_def by (metis last_in_set mset_zero_iff_right set_mset_mset)

lemma chosen_max:
  assumes "env_ok env" and "\<forall>x\<in>set scores. ns_score x \<noteq> NaN" and "y \<in> set scores"
  shows "\<not> f32_less (ns_score (chosen env scores)) (ns_score y)"
proof -
  have perm: "mset (fe_srtN env scores) = mset scores"
    and sorted: "sorted_wrt (\<lambda>a b. \<not> NodeScoreList_Less b a) (fe_srtN env scores)"
    using assms(1,2) by (auto simp: env_ok_def)
  have mem: "y \<in> set (fe_srtN env scores)" using perm assms(3) by (metis set_mset_mset)
  then obtain zs z where eq: "fe_srtN env scores = zs @ [z]"
    by (metis append_butlast_last_id empty_iff empty_set)
  then show ?thesis
    using sorted mem f32_less_irrefl
    by (auto simp: chosen_def NodeScoreList_Less_def sorted_wrt_append)
qed

text \<open>The branches of \<open>Filter\<close> for a pod that requests devices.\<close>

lemma Filter_cases:
  assumes "Filter env p nodeNames s = Inr (s', annos', res)"
    and "filter_total (Resourcereqs (fe_cfg env) (fe_devs env) p) \<noteq> 0"
  obtains s1 usage failed scores usage' where
    "getNodesUsage nodeNames (s\<lparr>sc_pods := delPod p (sc_pods s)\<rparr>) = (s1, usage, failed)"
    "calcScore (fe_srt env) (checkType (fe_devs env) (pod_Annotations p))
       (Resourcereqs (fe_cfg env) (fe_devs env) p) (fe_itr env usage) = Inr (scores, usage')"
    "sc_nodes s' = sc_nodes s"
    "if scores = []
     then sc_pods s' = delPod p (sc_pods s) \<and> annos' = pod_Annotations p
       \<and> res = Inr \<lparr>flt_NodeNames = None, flt_FailedNodes = failed, flt_Error = []\<rparr>
     else
       case fe_patch env (pod_Annotations p) (filter_annotations env (chosen env scores)) of
         Inl err \<Rightarrow> sc_pods s' = delPod p (sc_pods s) \<and> annos' = pod_Annotations p \<and> res = Inl err
       | Inr annos \<Rightarrow>
           sc_pods s' = addPod p (ns_nodeID (chosen env scores)) (ns_devices (chosen env scores))
             (delPod p (sc_pods s)) \<and> annos' = annos
           \<and> res = Inr \<lparr>flt_NodeNames = Some [ns_nodeID (chosen env scores)], flt_FailedNodes = [], flt_Error = []\<rparr>"
proof -
  obtain s1 usage failed where g:
    "getNodesUsage nodeNames (s\<lparr>sc_pods := delPod p (sc_pods s)\<rparr>) = (s1, usage, failed)"
    by (metis prod_cases3)
  have s1: "sc_nodes s1 = sc_nodes s" "sc_pods s1 = delPod p (sc_pods s)"
    using getNodesUsage_state [of nodeNames "s\<lparr>sc_pods := delPod p (sc_pods s)\<rparr>"] g by simp_all
  have undo: "delPod p (addPod p n dv (delPod p (sc_pods s))) = delPod p (sc_pods s)" for n dv
    by (simp add: addPod_def delPod_mdel mdel_mset_to_new)
  obtain scores usage' where c: "calcScore (fe_srt env) (checkType (fe_devs env) (pod_Annotations p))
       (Resourcereqs (fe_cfg env) (fe_devs env) p) (fe_itr env usage) = Inr (scores, usage')"
    using assms g by (auto simp: Filter_def Let_def bind_result_Inr_iff)
  show thesis
    by (rule that [OF g c])
      (use assms g c s1 undo in \<open>auto simp: Filter_def Let_def chosen_def split: if_splits sum.splits\<close>)
qed

text \<open>A pod whose containers each request one type of device, with amounts the devices can count.\<close>

definition single_type_requests ::
  "filter_env \<Rightarrow> pod \<Rightarrow> scheduler \<Rightarrow> (string \<times> container_device_request) list \<Rightarrow> bool" where
  "single_type_requests env p s rs \<longleftrightarrow>
     Resourcereqs (fe_cfg env) (fe_devs env) p = requests_of rs
     \<and> (\<forall>k ds d r. registered (sc_nodes s) k = Some ds \<longrightarrow> d \<in> set ds \<longrightarrow> r \<in> set rs \<longrightarrow>
          request_ok (snd r) (new_usage d))"

lemma container_requests_positive:
  "(idx, rq) \<in> set (container_requests cfg devs ctr) \<Longrightarrow> 0 < rq_Nums rq"
  using container_requests_fold [of idx rq "\<lambda>b. GenerateResourceRequests cfg b ctr" devs "[]"]
  by (auto simp: container_requests_def)

lemma single_type_positive:
  assumes "Resourcereqs cfg devs p = requests_of rs" and "r \<in> set rs"
  shows "0 < rq_Nums (snd r)"
proof -
  have "[r] \<in> set (Resourcereqs cfg devs p)"
    using assms by (auto simp: requests_of_def)
  then obtain ctr where "[r] = container_requests cfg devs ctr"
    by (auto simp: Resourcereqs_def)
  then have "(fst r, snd r) \<in> set (container_requests cfg devs ctr)"
    by (metis list.set_intros(1) prod.collapse)
  then show ?thesis by (rule container_requests_positive)
qed

lemma node_usage_requests_ok:
  assumes "single_type_requests env p s rs" and "node_usage s k = Some us" and "r \<in> set rs"
  shows "requests_ok [r] us"
  using assms single_type_positive [of "fe_cfg env" "fe_devs env" p rs r]
  by (cases r) (auto simp: requests_ok_def single_type_requests_def node_usage_def)

lemma usage_map_ok:
  assumes "getNodesUsage nodes s = (s1, usage, failed)"
  shows "map_ok usage"
proof -
  let ?ov = "fold (\<lambda>(_, p). book_pod p) (sc_pods s) (overall_nodes (sc_nodes s))"
  have "map_ok (fst (fold (cache_node (sc_nodes s) ?ov) nodes ([], [])))"
    by (rule fold_invariant_set [where I = "\<lambda>st. map_ok (fst st)"]) (auto simp: cache_node_def split: sum.splits)
  then show ?thesis using assms by (auto simp: getNodesUsage_def Let_def split: prod.splits)
qed

lemma usage_entries:
  assumes "nodes_wf (sc_nodes s)" and "env_ok env" and "getNodesUsage nodes s = (s1, usage, failed)"
  shows "(k, us) \<in> set (fe_itr env usage) \<longleftrightarrow> k \<in> set nodes \<and> node_usage s k = Some us"
proof -
  have "set (fe_itr env usage) = set usage"
    using assms(2) unfolding env_ok_def by (metis set_mset_mset)
  then have "(k, us) \<in> set (fe_itr env usage) \<longleftrightarrow> mget usage k = Some us"
    using mget_Some_iff [OF usage_map_ok [OF assms(3)], of k us] by simp
  then show ?thesis
    unfolding getNodesUsage_usage(1) [OF assms(1,3)] by simp
qed

text \<open>What \<open>Filter\<close> accepts has room on the node, counted with all recorded pods.\<close>

lemma Filter_scores:
  assumes "sched_inv s" and "env_ok env" and "single_type_requests env p s rs"
    and "getNodesUsage nodeNames s = (s1, usage, failed)"
    and "calcScore (fe_srt env) (checkType devs annos) (requests_of rs) (fe_itr env usage) = Inr (scores, usage')"
    and "ns \<in> set scores"
  shows "\<exists>us. ns_nodeID ns \<in> set nodeNames \<and> node_usage s (ns_nodeID ns) = Some us
     \<and> (\<forall>u\<in>set us. room_for (all_devices (ns_devices ns)) u)
     \<and> map fst (ns_devices ns) = types_of rs
     \<and> map (\<lambda>(_, v). map (int \<circ> length) v) (ns_devices ns) = map (\<lambda>(_, k). [rq_Nums k]) rs"
proof -
  have wf: "nodes_wf (sc_nodes s)" using assms(1) by (simp add: sched_inv_def)
  note get = usage_entries [OF wf assms(2,4)]
  have "\<forall>(k, us)\<in>set (fe_itr env usage). node_ok us \<and> (\<forall>r\<in>set rs. requests_ok [r] us)"
    using get node_usage_ok [OF assms(1)] node_usage_requests_ok [OF assms(3)] by fastforce
  moreover have "sorts_by DeviceUsageList_Less (fe_srt env)" using assms(2) by (simp add: env_ok_def)
  ultimately show ?thesis
    using calcScore_member [OF assms(5,6)] get
      accepted_devices [of "fe_srt env" "checkType devs annos" _ rs "Fin 0" _ "ns_devices ns" "ns_score ns"]
    by (fastforce simp: requests_of_def)
qed

lemma sched_inv_cong:
  "sc_nodes s' = sc_nodes s \<Longrightarrow> sc_pods s' = sc_pods s \<Longrightarrow> sched_inv s' \<longleftrightarrow> sched_inv s"
  by (simp add: sched_inv_def capacity_ok_def)

text \<open>One \<open>Filter\<close> call keeps the invariant, whatever the API server answers.\<close>

lemma Filter_sched_inv:
  assumes "sched_inv s" and "env_ok env" and "single_type_requests env p s rs"
    and "Filter env p nodeNames s = Inr (s', annos', res)"
  shows "sched_inv s'"
proof (cases "filter_total (Resourcereqs (fe_cfg env) (fe_devs env) p) = 0")
  case True
  then show ?thesis using assms(1,4) by (simp add: Filter_def Let_def)
next
  case False
  let ?s0 = "s\<lparr>sc_pods := delPod p (sc_pods s)\<rparr>"
  have inv0: "sched_inv ?s0" using assms(1) by (rule sched_inv_delPod)
  have req: "Resourcereqs (fe_cfg env) (fe_devs env) p = requests_of rs" "single_type_requests env p ?s0 rs"
    using assms(3) by (simp_all add: single_type_requests_def)
  from assms(4) False show ?thesis
  proof (rule Filter_cases)
    fix s1 usage failed scores usage'
    assume g: "getNodesUsage nodeNames ?s0 = (s1, usage, failed)"
      and c: "calcScore (fe_srt env) (checkType (fe_devs env) (pod_Annotations p))
        (Resourcereqs (fe_cfg env) (fe_devs env) p) (fe_itr env usage) = Inr (scores, usage')"
      and nodes: "sc_nodes s' = sc_nodes s"
      and pods: "if scores = []
       then sc_pods s' = delPod p (sc_pods s) \<and> annos' = pod_Annotations p
         \<and> res = Inr \<lparr>flt_NodeNames = None, flt_FailedNodes = failed, flt_Error = []\<rparr>
       else
         case fe_patch env (pod_Annotations p) (filter_annotations env (chosen env scores)) of
           Inl err \<Rightarrow> sc_pods s' = delPod p (sc_pods s) \<and> annos' = pod_Annotations p \<and> res = Inl err
         | Inr annos \<Rightarrow>
             sc_pods s' = addPod p (ns_nodeID (chosen env scores)) (ns_devices (chosen env scores))
               (delPod p (sc_pods s)) \<and> annos' = annos
             \<and> res = Inr \<lparr>flt_NodeNames = Some [ns_nodeID (chosen env scores)], flt_FailedNodes = [], flt_Error = []\<rparr>"
    show "sched_inv s'"
    proof (cases "sc_pods s' = delPod p (sc_pods s)")
      case True
      then show ?thesis using inv0 sched_inv_cong [of s' ?s0] nodes by simp
    next
      case False
      define m where "m = chosen env scores"
      have "scores \<noteq> []" and pods': "sc_pods s' = addPod p (ns_nodeID m) (ns_devices m) (sc_pods ?s0)"
        using pods False by (auto simp: m_def split: if_splits sum.splits)
      then have "m \<in> set scores" using chosen_mem [OF assms(2)] by (simp add: m_def)
      then obtain us where us: "node_usage ?s0 (ns_nodeID m) = Some us"
        "\<forall>u\<in>set us. room_for (all_devices (ns_devices m)) u"
        using Filter_scores [OF inv0 assms(2) req(2) g] c req(1) by metis
      have "mget (sc_pods ?s0) (pod_UID p) = None" by (simp add: delPod_mdel)
      from sched_inv_addPod [OF inv0 this us] show ?thesis
        using sched_inv_cong [of s' "?s0\<lparr>sc_pods := addPod p (ns_nodeID m) (ns_devices m) (sc_pods ?s0)\<rparr>"]
          nodes pods' by simp
    qed
  qed
qed


section \<open>Runs of the scheduler\<close>

text \<open>
  The events that reach a scheduler: \<open>Filter\<close> calls, deletions, additions and updates of pods, and the periodic
  recomputation.  An added or updated pod that carries an assignment and is not on record is recorded
  without a look at the devices; such an event is admitted here only when the devices have room.
\<close>

definition fits_in :: "annotations \<Rightarrow> pod \<Rightarrow> scheduler \<Rightarrow> bool" where
  "fits_in support p s \<longleftrightarrow>
     mget (sc_pods s) (pod_UID p) \<noteq> None \<or> IsPodInTerminatedState p
     \<or> (case mget (pod_Annotations p) AssignedNodeAnnotations of
          None \<Rightarrow> True
        | Some n \<Rightarrow> room_on s n (all_devices (DecodePodDevices support (pod_Annotations p))))"

inductive sched_step :: "scheduler \<Rightarrow> scheduler \<Rightarrow> bool" where
  step_filter: "env_ok env \<Longrightarrow> single_type_requests env p s rs \<Longrightarrow>
     Filter env p nodeNames s = Inr (s', annos', res) \<Longrightarrow> sched_step s s'"
| step_delete: "sched_step s (onDelPod p s)"
| step_add: "fits_in support p s \<Longrightarrow> sched_step s (onAddPod support p s)"
| step_update: "fits_in support p s \<Longrightarrow> sched_step s (onUpdatePod support old p s)"
| step_recompute: "sched_step s (fst (getNodesUsage nodes s))"

inductive_cases sched_stepE: "sched_step s s'"

lemma onDelPod_sched_inv: "sched_inv s \<Longrightarrow> sched_inv (onDelPod p s)"
  by (simp add: onDelPod_def sched_inv_delPod split: option.splits)

lemma addPod_known: "mget m (pod_UID p) \<noteq> None \<Longrightarrow> addPod p nodeID dv m = m"
  by (auto simp: addPod_def)

lemma onAddPod_sched_inv: "sched_inv s \<Longrightarrow> fits_in support p s \<Longrightarrow> sched_inv (onAddPod support p s)"
  by (auto simp: onAddPod_def fits_in_def sched_inv_delPod addPod_known sched_inv_record split: option.splits)

lemma sched_step_inv: "sched_step s s' \<Longrightarrow> sched_inv s \<Longrightarrow> sched_inv s'"
proof (induction rule: sched_step.induct)
  case (step_filter env p s rs nodeNames s' annos' res)
  then show ?case using Filter_sched_inv by blast
next
  case (step_delete s p)
  then show ?case by (simp add: onDelPod_sched_inv)
next
  case (step_add support p s)
  then show ?case by (simp add: onAddPod_sched_inv)
next
  case (step_update support p s old)
  then show ?case by (simp add: onUpdatePod_def onAddPod_sched_inv)
next
  case (step_recompute s nodes)
  then show ?case using sched_inv_cong [of "fst (getNodesUsage nodes s)" s] by simp
qed

lemma sched_run_inv: "sched_step\<^sup>*\<^sup>* s s' \<Longrightarrow> sched_inv s \<Longrightarrow> sched_inv s'"
  by (induction rule: rtranclp_induct) (auto intro: sched_step_inv)

text \<open>C3: no device is over-committed by the scheduler's own decisions.  Starting from registered nodes and no pods,
  after any sequence of \<open>Filter\<close> calls, pod deletions, pod additions and updates and recomputations, with any map
  order, any sort and any answers of the API server, the assignments recorded for a device number at
  most its \<open>Count\<close>, and their memory and cores add up, without wrap-around, to at most what the device
  reported.  Two conditions on the events: the containers of a filtered pod each request one type of device, with
  amounts that are not negative and a memory percentage whose product with the memory of a card stays in
  32 bits; and an addition or update of a pod that is not on record brings no assignment
  for which the devices have no room, which the code does not check.\<close>
theorem sched_no_overcommit:
  assumes "nodes_wf (sc_nodes s)" and "sc_pods s = []"
    and "\<forall>k ds d. registered (sc_nodes s) k = Some ds \<longrightarrow> d \<in> set ds \<longrightarrow> device_ok d"
    and "sched_step\<^sup>*\<^sup>* s s'"
    and "registered (sc_nodes s') k = Some ds" and "d \<in> set ds"
  shows "int (length (uses_of (di_ID d) (pods_on (sc_pods s') k))) \<le> di_Count d
    \<and> sum_list (map cd_Usedmem (uses_of (di_ID d) (pods_on (sc_pods s') k))) \<le> di_Devmem d
    \<and> sum_list (map cd_Usedcores (uses_of (di_ID d) (pods_on (sc_pods s') k))) \<le> di_Devcore d"
proof -
  have "sched_inv s"
    using assms(1-3) by (auto simp: sched_inv_def capacity_ok_def device_ok_def intro: room_for_Nil)
  then have "room_for (pods_on (sc_pods s') k) (new_usage d)"
    using sched_run_inv [OF assms(4)] assms(5,6) by (auto simp: sched_inv_def capacity_ok_def)
  then show ?thesis
    by (simp add: room_for_def new_usage_def)
qed

text \<open>
  A concrete environment for the witnesses.  Scores are sorted by an order that agrees with
  \<open>float32\<close>'s on numbers and puts the values that are not numbers first.
\<close>

definition score_less :: "node_score \<Rightarrow> node_score \<Rightarrow> bool" where
  "score_less a b \<longleftrightarrow> ns_score b \<noteq> NaN \<and> (ns_score a = NaN \<or> f32_less (ns_score a) (ns_score b))"

interpretation score_order: strict_weak_order score_less
proof
  show "\<not> score_less a a" for a by (auto simp: score_less_def f32_less_irrefl)
  show "score_less a b \<Longrightarrow> score_less b c \<Longrightarrow> score_less a c" for a b c
    by (cases "ns_score a"; cases "ns_score b"; cases "ns_score c") (simp_all add: score_less_def)
  show "\<not> score_less a b \<Longrightarrow> \<not> score_less b c \<Longrightarrow> \<not> score_less a c" for a b c
    by (cases "ns_score a"; cases "ns_score b"; cases "ns_score c") (simp_all add: score_less_def)
qed

definition example_env :: filter_env where
  "example_env = \<lparr>fe_cfg = GlobalFlagSet, fe_devs = GetDevices, fe_itr = rev,
     fe_srt = insertionSort DeviceUsageList_Less, fe_srtN = insertionSort score_less, fe_now = 1700000000,
     fe_inreq = InRequestDevices, fe_support = SupportDevices, fe_patch = patch_always\<rparr>"

lemma example_env_ok: "env_ok example_env"
proof -
  have "sorted_wrt (\<lambda>a b. \<not> NodeScoreList_Less b a) (insertionSort score_less xs)"
    if "\<forall>x\<in>set xs. ns_score x \<noteq> NaN" for xs
  proof -
    have "set (insertionSort score_less xs) = set xs"
      by (rule sorts_by_set [OF score_order.sorts_by_insertionSort])
    then show ?thesis
      using sorts_by_sorted [OF score_order.sorts_by_insertionSort, of xs] that
      by (elim sorted_wrt_mono_rel [rotated]) (auto simp: score_less_def NodeScoreList_Less_def)
  qed
  then show ?thesis
    using usage_order.sorts_by_insertionSort sorts_by_mset [OF score_order.sorts_by_insertionSort]
    by (auto simp: env_ok_def example_env_def)
qed

definition example_start :: scheduler where
  "example_start = NewScheduler\<lparr>sc_nodes := example_nodes\<rparr>"

definition example_rs :: "(string \<times> container_device_request) list" where
  "example_rs = [(''NVIDIA'',
     \<lparr>rq_Nums = 1, rq_Type = ''NVIDIA'', rq_Memreq = 3000, rq_MemPercentagereq = 101, rq_Coresreq = 0\<rparr>)]"

lemma example_single_type: "single_type_requests example_env example_gpu_pod example_start example_rs"
  using Resourcereqs_example
  by (simp add: single_type_requests_def example_env_def requests_of_def example_rs_def request_ok_def example_start_def
      example_registered new_usage_def example_info_def)

lemma example_start_wf: "nodes_wf (sc_nodes example_start)"
  using example_nodes_wf by (simp add: example_start_def)

lemma example_start_pods: "sc_pods example_start = []"
  by (simp add: example_start_def NewScheduler_def init_pods_def)

lemma example_devices_ok:
  "\<forall>k ds d. registered (sc_nodes example_start) k = Some ds \<longrightarrow> d \<in> set ds \<longrightarrow> device_ok d"
  by (auto simp: example_start_def example_registered device_ok_def new_usage_def example_info_def usage_ok_def)

lemma example_start_inv: "sched_inv example_start"
  using example_start_wf example_devices_ok
  by (auto simp: sched_inv_def capacity_ok_def device_ok_def example_start_pods intro: room_for_Nil)


section \<open>Completeness of Filter\<close>

lemma Filter_finds_node:
  assumes "sched_inv s" and "env_ok env" and "single_type_requests env p s [(idx, k)]"
    and "set (fe_devs env) = set GetDevices" and "rq_Type k = NvidiaGPUDevice"
    and "\<not> assertNuma (pod_Annotations p)"
    and "\<And>a. \<exists>annos. fe_patch env (pod_Annotations p) a = Inr annos"
    and "n \<in> set nodeNames" and "node_usage (s\<lparr>sc_pods := delPod p (sc_pods s)\<rparr>) n = Some us"
    and "rq_Nums k \<le> int (length (filter (eligible (checkType (fe_devs env) (pod_Annotations p)) k) us))"
  shows "\<exists>s' annos' r n' us'. Filter env p nodeNames s = Inr (s', annos', Inr r) \<and> flt_NodeNames r = Some [n']
     \<and> n' \<in> set nodeNames \<and> node_usage (s\<lparr>sc_pods := delPod p (sc_pods s)\<rparr>) n' = Some us'
     \<and> rq_Nums k \<le> int (length (filter (eligible (checkType (fe_devs env) (pod_Annotations p)) k) us'))"
proof -
  let ?s0 = "s\<lparr>sc_pods := delPod p (sc_pods s)\<rparr>" and ?chk = "checkType (fe_devs env) (pod_Annotations p)"
  let ?fit = "\<lambda>ds. fr_fit (fitInDevices (fe_srt env) ?chk ds [(idx, k)] [])"
  have inv0: "sched_inv ?s0" using assms(1) by (rule sched_inv_delPod)
  have req: "Resourcereqs (fe_cfg env) (fe_devs env) p = [[(idx, k)]]" "single_type_requests env p ?s0 [(idx, k)]"
    using assms(3) by (simp_all add: single_type_requests_def requests_of_def)
  have pos: "0 < rq_Nums k"
    using single_type_positive [of "fe_cfg env" "fe_devs env" p "[(idx, k)]" "(idx, k)"] req(1)
    by (simp add: requests_of_def)
  have srt: "sorts_by DeviceUsageList_Less (fe_srt env)" using assms(2) by (simp add: env_ok_def)
  have fit_iff: "?fit ds \<longleftrightarrow> rq_Nums k \<le> int (length (filter (eligible ?chk k) ds))" for ds
    by (rule fitInDevices_single_iff [OF srt nums_free_checkType pos])
      (simp add: checkType_nvidia [OF assms(4,5)] assms(6))
  obtain s1 usage failed where g: "getNodesUsage nodeNames ?s0 = (s1, usage, failed)" by (metis prod_cases3)
  have wf: "nodes_wf (sc_nodes ?s0)" using inv0 by (simp add: sched_inv_def)
  note entries = usage_entries [OF wf assms(2) g]
  have "\<forall>(_, ds)\<in>set (fe_itr env usage). node_ok ds \<and> requests_ok [(idx, k)] ds"
    using entries node_usage_ok [OF inv0] node_usage_requests_ok [OF req(2)] by fastforce
  from calcScore_single [OF srt nums_free_checkType this]
  obtain scores usage' where c: "calcScore (fe_srt env) ?chk [[(idx, k)]] (fe_itr env usage) = Inr (scores, usage')"
    and ids: "map ns_nodeID scores = map fst (filter (\<lambda>(_, ds). ?fit ds) (fe_itr env usage))"
    by blast
  have "(n, us) \<in> set (filter (\<lambda>(_, ds). ?fit ds) (fe_itr env usage))"
    using entries assms(8-10) fit_iff by auto
  then have "filter (\<lambda>(_, ds). ?fit ds) (fe_itr env usage) \<noteq> []" by (metis empty_iff empty_set)
  then have ne: "scores \<noteq> []" using ids by auto
  define m where "m = chosen env scores"
  have "m \<in> set scores" using chosen_mem [OF assms(2) ne] by (simp add: m_def)
  then have "ns_nodeID m \<in> set (map ns_nodeID scores)" by simp
  then obtain us' where us': "(ns_nodeID m, us') \<in> set (fe_itr env usage)" "?fit us'"
    unfolding ids by auto
  obtain annos where "fe_patch env (pod_Annotations p) (filter_annotations env m) = Inr annos"
    using assms(7) by blast
  then show ?thesis
    using g c ne req(1) us' entries fit_iff pos
    by (auto simp: Filter_def Let_def m_def chosen_def filter_total_def request_sum_def)
qed

text \<open>C4: \<open>Filter\<close> finds a node whenever there is one: for a pod with one container that requests GPUs
  without NUMA binding, if some candidate node has, under the usage of all other recorded pods, at
  least as many eligible cards as requested, and the API server accepts the patch, then the answer
  names a single candidate node, and that node indeed has that many eligible cards.\<close>
theorem Filter_complete:
  assumes "sched_inv s" and "env_ok env" and "single_type_requests env p s [(idx, k)]"
    and "set (fe_devs env) = set GetDevices" and "rq_Type k = NvidiaGPUDevice"
    and "\<not> assertNuma (pod_Annotations p)"
    and "\<And>a. \<exists>annos. fe_patch env (pod_Annotations p) a = Inr annos"
    and "n \<in> set nodeNames" and "node_usage (s\<lparr>sc_pods := delPod p (sc_pods s)\<rparr>) n = Some us"
    and "rq_Nums k \<le> int (length (filter (eligible (checkType (fe_devs env) (pod_Annotations p)) k) us))"
  shows "\<exists>s' annos' r n' us'. Filter env p nodeNames s = Inr (s', annos', Inr r) \<and> flt_NodeNames r = Some [n']
     \<and> n' \<in> set nodeNames \<and> node_usage (s\<lparr>sc_pods := delPod p (sc_pods s)\<rparr>) n' = Some us'
     \<and> rq_Nums k \<le> int (length (filter (eligible (checkType (fe_devs env) (pod_Annotations p)) k) us'))"
  using assms by (rule Filter_finds_node)

lemma example_usage:
  "node_usage (example_start\<lparr>sc_pods := delPod p (sc_pods example_start)\<rparr>) ''node1''
     = Some (map new_usage [example_info ''GPU-1'', example_info ''GPU-2''])"
  by (simp add: node_usage_def example_start_def NewScheduler_def init_pods_def delPod_def example_registered
      book_all_Nil)

lemma example_enough:
  "1 \<le> int (length (filter (eligible (checkType GetDevices (pod_Annotations example_gpu_pod)) (snd (hd example_rs)))
      (map new_usage [example_info ''GPU-1'', example_info ''GPU-2''])))"
  by (simp add: eligible_def checkType_def GetDevices_def example_rs_def example_info_def new_usage_def
      nvidia_CheckType_def mlu_CheckType_def device_names checkGPUtype_def check_card_type_def assertNuma_def
      Contains_def sublist_Cons_right example_gpu_pod_def example_pod_def mem_request_def i32_def)


lemma example_hyps:
  "single_type_requests example_env example_gpu_pod example_start [(''NVIDIA'', snd (hd example_rs))]"
  "set (fe_devs example_env) = set GetDevices" "rq_Type (snd (hd example_rs)) = NvidiaGPUDevice"
  "\<not> assertNuma (pod_Annotations example_gpu_pod)"
  "\<exists>annos. fe_patch example_env (pod_Annotations example_gpu_pod) a = Inr annos"
  "''node1'' \<in> set [''node1'', ''node2'']"
  "rq_Nums (snd (hd example_rs)) \<le> int (length (filter (eligible (checkType (fe_devs example_env)
     (pod_Annotations example_gpu_pod)) (snd (hd example_rs))) (map new_usage [example_info ''GPU-1'', example_info ''GPU-2''])))"
proof -
  show "single_type_requests example_env example_gpu_pod example_start [(''NVIDIA'', snd (hd example_rs))]"
    using example_single_type by (simp add: example_rs_def)
  show "rq_Nums (snd (hd example_rs)) \<le> int (length (filter (eligible (checkType (fe_devs example_env)
     (pod_Annotations example_gpu_pod)) (snd (hd example_rs))) (map new_usage [example_info ''GPU-1'', example_info ''GPU-2''])))"
    using example_enough by (simp add: example_env_def example_rs_def)
qed (simp_all add: example_env_def example_rs_def device_names assertNuma_def example_gpu_pod_def example_pod_def
    patch_always_def)

theorem Filter_complete_witness:
  "\<exists>s' annos' r. Filter example_env example_gpu_pod [''node1'', ''node2''] example_start = Inr (s', annos', Inr r)
     \<and> flt_NodeNames r \<noteq> None"
  using Filter_complete [OF example_start_inv example_env_ok example_hyps(1-6) example_usage example_hyps(7)]
  by auto

lemma example_Filter:
  "\<exists>s' annos' r n'. Filter example_env example_gpu_pod [''node1'', ''node2''] example_start = Inr (s', annos', Inr r)
     \<and> flt_NodeNames r = Some [n']"
  using Filter_finds_node [OF example_start_inv example_env_ok example_hyps(1-6) example_usage example_hyps(7)]
  by blast

theorem sched_no_overcommit_witness:
  "\<exists>s' annos' r. Filter example_env example_gpu_pod [''node1'', ''node2''] example_start = Inr (s', annos', Inr r)
     \<and> sched_step\<^sup>*\<^sup>* example_start s'
     \<and> (\<forall>ds d. registered (sc_nodes s') ''node1'' = Some ds \<longrightarrow> d \<in> set ds \<longrightarrow>
          sum_list (map cd_Usedmem (uses_of (di_ID d) (pods_on (sc_pods s') ''node1''))) \<le> di_Devmem d)"
proof -
  obtain s' annos' r where f:
    "Filter example_env example_gpu_pod [''node1'', ''node2''] example_start = Inr (s', annos', Inr r)"
    using example_Filter by blast
  have run: "sched_step\<^sup>*\<^sup>* example_start s'"
    using step_filter [OF example_env_ok example_single_type f] by (rule r_into_rtranclp)
  show ?thesis
    using f run sched_no_overcommit [OF example_start_wf example_start_pods example_devices_ok run] by blast
qed

text \<open>The annotations that \<open>Filter\<close> sends.\<close>

lemma map_ok_maps_Copy: "map_ok m \<Longrightarrow> map_ok (maps_Copy m p)"
  unfolding maps_Copy_def by (rule fold_invariant_set [where I = map_ok]) auto

lemma map_ok_EncodePodDevices: "map_ok (EncodePodDevices cl pd)"
  unfolding EncodePodDevices_def by (rule fold_invariant_set [where I = map_ok]) auto

lemma keys_EncodePodDevices: "fst ` set (EncodePodDevices cl pd) \<subseteq> insert [] (snd ` set cl)"
proof -
  have "mget_default [] cl dt \<in> insert [] (snd ` set cl)" for dt
    by (cases "mget cl dt") (force simp: mget_default_def dest: mget_SomeD)+
  then show ?thesis
    unfolding EncodePodDevices_def
    by (intro fold_invariant_set [where I = "\<lambda>m. fst ` set m \<subseteq> insert [] (snd ` set cl)"])
      (simp_all add: case_prod_unfold)
qed

lemma mget_EncodePodDevices_None:
  "k \<noteq> [] \<Longrightarrow> k \<notin> snd ` set cl \<Longrightarrow> mget (EncodePodDevices cl pd) k = None"
  using keys_EncodePodDevices [of cl pd] by (auto simp: mget_None_iff)

lemma map_ok_filter_annotations: "map_ok (filter_annotations env m)"
  by (simp add: filter_annotations_def map_ok_maps_Copy annotation_names)

lemma mget_filter_annotations_node:
  assumes "AssignedNodeAnnotations \<notin> snd ` set (fe_inreq env)" "AssignedNodeAnnotations \<notin> snd ` set (fe_support env)"
  shows "mget (filter_annotations env m) AssignedNodeAnnotations = Some (ns_nodeID m)"
proof -
  have "AssignedNodeAnnotations \<noteq> []" by (simp add: AssignedNodeAnnotations_def)
  then show ?thesis
    using mget_EncodePodDevices_None [OF _ assms(1)] mget_EncodePodDevices_None [OF _ assms(2)]
    by (simp add: filter_annotations_def mget_maps_Copy map_ok_EncodePodDevices annotation_names)
qed

text \<open>The state and the published annotation after a successful \<open>Filter\<close>.\<close>

lemma Filter_success_cases:
  assumes "sched_inv s" and "env_ok env" and "single_type_requests env p s rs"
    and "filter_total (Resourcereqs (fe_cfg env) (fe_devs env) p) \<noteq> 0"
    and "Filter env p nodeNames s = Inr (s', annos', Inr r)" and "flt_NodeNames r = Some ns"
  obtains m scores usage' where
    "calcScore (fe_srt env) (checkType (fe_devs env) (pod_Annotations p)) (requests_of rs)
       (fe_itr env (fst (snd (getNodesUsage nodeNames (s\<lparr>sc_pods := delPod p (sc_pods s)\<rparr>))))) = Inr (scores, usage')"
    "m = chosen env scores" "m \<in> set scores" "ns = [ns_nodeID m]" "sc_nodes s' = sc_nodes s"
    "fe_patch env (pod_Annotations p) (filter_annotations env m) = Inr annos'"
    "sc_pods s' = addPod p (ns_nodeID m) (ns_devices m) (delPod p (sc_pods s))"
proof -
  have req: "Resourcereqs (fe_cfg env) (fe_devs env) p = requests_of rs"
    using assms(3) by (simp add: single_type_requests_def)
  from assms(5,4) show thesis
  proof (rule Filter_cases, goal_cases)
    case (1 s1 usage failed scores usage')
    have ne: "scores \<noteq> []" using 1(4) assms(6) by (auto split: if_splits)
    have "fe_patch env (pod_Annotations p) (filter_annotations env (chosen env scores)) = Inr annos'"
      "sc_pods s' = addPod p (ns_nodeID (chosen env scores)) (ns_devices (chosen env scores)) (delPod p (sc_pods s))"
      "ns = [ns_nodeID (chosen env scores)]"
      using 1(4) ne assms(6) by (auto split: sum.splits)
    then show thesis
      using that [of scores usage' "chosen env scores"] 1(1-3) req chosen_mem [OF assms(2) ne] by auto
  qed
qed


lemma example_total:
  "filter_total (Resourcereqs (fe_cfg example_env) (fe_devs example_env) example_gpu_pod) \<noteq> 0"
  using Resourcereqs_example by (simp add: example_env_def filter_total_def request_sum_def)


text \<open>C33: a \<open>Filter\<close> call that does not place its pod records nothing: when the API server refuses the patch, or
  when no node is accepted, the pod's annotations are unchanged, the pod is not on record (also when it was
  before), every other pod's record is as it was, and the usage that is computed next, for the overview and
  for the next decision, is that of the other pods.  Until then the overview may still show the devices of
  the refused attempt as used.\<close>
theorem Filter_failure_unrecorded:
  assumes "nodes_wf (sc_nodes s)" and "map_ok (sc_pods s)" and "filter_total (Resourcereqs (fe_cfg env) (fe_devs env) p) \<noteq> 0"
    and "Filter env p nodeNames s = Inr (s', annos', res)"
    and "(\<exists>err. res = Inl err) \<or> (\<exists>r. res = Inr r \<and> flt_NodeNames r = None)"
  shows "annos' = pod_Annotations p \<and> sc_nodes s' = sc_nodes s
     \<and> mget (sc_pods s') uid = (if uid = pod_UID p then None else mget (sc_pods s) uid)
     \<and> mget (InspectAllNodesUsage (fst (getNodesUsage nodes s'))) k = node_usage (s\<lparr>sc_pods := delPod p (sc_pods s)\<rparr>) k"
  using assms(4,3)
proof (rule Filter_cases, goal_cases)
  case (1 s1 usage failed scores usage')
  have pods: "annos' = pod_Annotations p \<and> sc_pods s' = delPod p (sc_pods s)"
    using 1(4) assms(5) by (auto split: if_splits sum.splits)
  then have "mget (InspectAllNodesUsage (fst (getNodesUsage nodes s'))) k = node_usage (s\<lparr>sc_pods := delPod p (sc_pods s)\<rparr>) k"
    using 1(3) getNodesUsage_overview [of s' nodes k] assms(1) by (simp add: InspectAllNodesUsage_def node_usage_def)
  then show ?thesis
    using pods 1(3) pod_registry.find_del [OF assms(2)] by (simp add: delPod_eq)
qed

text \<open>A server that refuses every patch.\<close>

definition refusing_env :: filter_env where
  "refusing_env = example_env\<lparr>fe_patch := (\<lambda>_ _. Inl (Errorf ''conflict''))\<rparr>"


lemma refusing_total:
  "filter_total (Resourcereqs (fe_cfg refusing_env) (fe_devs refusing_env) example_gpu_pod) \<noteq> 0"
  using example_total by (simp add: refusing_env_def)

lemma Filter_refused:
  assumes "Filter env p nodeNames s = Inr (s', annos', Inr r)" and "flt_NodeNames r = Some ns"
    and "filter_total (Resourcereqs (fe_cfg env) (fe_devs env) p) \<noteq> 0"
  shows "\<exists>s'. Filter (env\<lparr>fe_patch := (\<lambda>_ _. Inl err)\<rparr>) p nodeNames s = Inr (s', pod_Annotations p, Inl err)"
  using assms
  by (auto simp: Filter_def Let_def bind_result_Inr_iff split: if_splits prod.splits)

theorem Filter_failure_unrecorded_witness:
  "\<exists>s'. Filter refusing_env example_gpu_pod [''node1'', ''node2''] example_start
       = Inr (s', pod_Annotations example_gpu_pod, Inl (Errorf ''conflict''))
     \<and> mget (sc_pods s') (pod_UID example_gpu_pod) = None
     \<and> mget (InspectAllNodesUsage (fst (getNodesUsage [''node1''] s'))) ''node1''
         = Some (map new_usage [example_info ''GPU-1'', example_info ''GPU-2''])"
proof -
  obtain s' where f: "Filter refusing_env example_gpu_pod [''node1'', ''node2''] example_start
       = Inr (s', pod_Annotations example_gpu_pod, Inl (Errorf ''conflict''))"
    using example_Filter Filter_refused [OF _ _ example_total] unfolding refusing_env_def by blast
  have ok: "map_ok (sc_pods example_start)" by (simp add: example_start_pods)
  note rec = Filter_failure_unrecorded [OF example_start_wf ok refusing_total f, of "pod_UID example_gpu_pod" "[''node1'']" "''node1''"]
  show ?thesis using f rec example_usage by (simp del: list.map)
qed

end
