(* ===== verification/Nodelock.thy ===== *)
theory Nodelock
  imports Types
begin

text \<open>
  The node lock, \<open>pkg/util/nodelock/nodelock.go\<close>: an annotation on the node object serves as a mutex
  between the scheduler and the device plugins.  The API server is modelled by the node's annotations
  and their version: an update carries the version it was computed from and is refused when the node
  has changed since.  A script says what happens around each call: nothing, a failing call, or a
  write by another client just before it.
\<close>

definition NodeLockTime :: string where
  "NodeLockTime = ''4pd.io/mutex.lock''"

definition MaxLockRetry :: nat where
  "MaxLockRetry = 5"

section \<open>The API server\<close>

record node_copy =
  nc_Annotations :: annotations
  nc_Version :: nat

datatype api_event = Quiet | ApiError string | OtherWrites annotations

record api_world =
  aw_node :: node_copy
  aw_script :: "api_event list"
  aw_calls :: nat

definition next_event :: "api_world \<Rightarrow> api_event \<times> api_world" where
  "next_event w =
     (case aw_script w of
        [] \<Rightarrow> (Quiet, w\<lparr>aw_calls := Suc (aw_calls w)\<rparr>)
      | e # es \<Rightarrow> (e, w\<lparr>aw_script := es, aw_calls := Suc (aw_calls w)\<rparr>))"

fun other_client :: "api_event \<Rightarrow> node_copy \<Rightarrow> node_copy" where
  "other_client (OtherWrites a) n = \<lparr>nc_Annotations = a, nc_Version = Suc (nc_Version n)\<rparr>"
| "other_client _ n = n"

definition api_Get :: "api_world \<Rightarrow> node_copy result \<times> api_world" where
  "api_Get w =
     (case next_event w of
        (ApiError e, w') \<Rightarrow> (Inl (Errorf e), w')
      | (ev, w') \<Rightarrow> (Inr (other_client ev (aw_node w')), w'\<lparr>aw_node := other_client ev (aw_node w')\<rparr>))"

definition api_Update :: "node_copy \<Rightarrow> api_world \<Rightarrow> unit result \<times> api_world" where
  "api_Update n w =
     (case next_event w of
        (ApiError e, w') \<Rightarrow> (Inl (Errorf e), w')
      | (ev, w') \<Rightarrow>
          let current = other_client ev (aw_node w')
          in if nc_Version current = nc_Version n
             then (Inr (), w'\<lparr>aw_node := \<lparr>nc_Annotations = nc_Annotations n, nc_Version = Suc (nc_Version n)\<rparr>\<rparr>)
             else (Inl (Errorf ''conflict''), w'\<lparr>aw_node := current\<rparr>))"

section \<open>The lock\<close>

text \<open>Writing to a node that has no annotations at all is a write to a nil map.\<close>

definition with_lock :: "string \<Rightarrow> node_copy \<Rightarrow> node_copy result" where
  "with_lock now n =
     (if nc_Annotations n = [] then Inl (GoPanic ''assignment to entry in nil map'')
      else Inr (n\<lparr>nc_Annotations := mset_to (nc_Annotations n) NodeLockTime now\<rparr>))"

definition without_lock :: "node_copy \<Rightarrow> node_copy result" where
  "without_lock n = Inr (n\<lparr>nc_Annotations := mdel (nc_Annotations n) NodeLockTime\<rparr>)"

text \<open>
  The retry loop, shared by both operations: while the last error stands and retries are left, read
  the node again, change it and update it.  A change may read the clock, which is a function of the number of
  calls to the server made so far.
\<close>

definition retry_once :: "(nat \<Rightarrow> node_copy \<Rightarrow> node_copy result) \<Rightarrow> api_world \<Rightarrow> unit result \<times> api_world" where
  "retry_once change w =
     (case api_Get w of
        (Inl e, w1) \<Rightarrow> (Inl e, w1)
      | (Inr n, w1) \<Rightarrow> (case change (aw_calls w1) n of Inl p \<Rightarrow> (Inl p, w1) | Inr n' \<Rightarrow> api_Update n' w1))"

fun retry_loop ::
  "(nat \<Rightarrow> node_copy \<Rightarrow> node_copy result) \<Rightarrow> nat \<Rightarrow> unit result \<times> api_world \<Rightarrow> unit result \<times> api_world" where
  "retry_loop change 0 r = r"
| "retry_loop change (Suc i) (r, w) =
     (case r of
        Inr _ \<Rightarrow> (r, w)
      | Inl e \<Rightarrow> if is_panic r then (r, w) else retry_loop change i (retry_once change w))"

definition report :: "string \<Rightarrow> unit result \<times> api_world \<Rightarrow> unit result \<times> api_world" where
  "report msg rw =
     (case rw of (r, w) \<Rightarrow>
        (case r of Inr _ \<Rightarrow> (Inr (), w) | Inl e \<Rightarrow> if is_panic r then (r, w) else (Inl (Errorf msg), w)))"

definition SetNodeLock :: "(nat \<Rightarrow> string) \<Rightarrow> api_world \<Rightarrow> unit result \<times> api_world" where
  "SetNodeLock now w =
     (case api_Get w of
        (Inl e, w1) \<Rightarrow> (Inl e, w1)
      | (Inr node, w1) \<Rightarrow>
          if mget (nc_Annotations node) NodeLockTime \<noteq> None then (Inl (Errorf ''node is locked''), w1)
          else
            case with_lock (now (aw_calls w1)) node of
              Inl p \<Rightarrow> (Inl p, w1)
            | Inr newNode \<Rightarrow>
                report ''setNodeLock exceeds retry count''
                  (retry_loop (\<lambda>t. with_lock (now t)) MaxLockRetry (api_Update newNode w1)))"

definition ReleaseNodeLock :: "api_world \<Rightarrow> unit result \<times> api_world" where
  "ReleaseNodeLock w =
     (case api_Get w of
        (Inl e, w1) \<Rightarrow> (Inl e, w1)
      | (Inr node, w1) \<Rightarrow>
          if mget (nc_Annotations node) NodeLockTime = None then (Inr (), w1)
          else
            case without_lock node of
              Inl p \<Rightarrow> (Inl p, w1)
            | Inr newNode \<Rightarrow>
                report ''releaseNodeLock exceeds retry count''
                  (retry_loop (\<lambda>_. without_lock) MaxLockRetry (api_Update newNode w1)))"

text \<open>
  \<open>age ts\<close> is an error when the timestamp does not parse, else whether it is older than 5 minutes; \<open>now t\<close> is the
  clock, read after \<open>t\<close> calls.
\<close>

definition LockNode :: "(string \<Rightarrow> bool result) \<Rightarrow> (nat \<Rightarrow> string) \<Rightarrow> api_world \<Rightarrow> unit result \<times> api_world" where
  "LockNode age now w =
     (case api_Get w of
        (Inl e, w1) \<Rightarrow> (Inl e, w1)
      | (Inr node, w1) \<Rightarrow>
          (case mget (nc_Annotations node) NodeLockTime of
             None \<Rightarrow> SetNodeLock now w1
           | Some lockTime \<Rightarrow>
               (case age lockTime of
                  Inl e \<Rightarrow> (Inl e, w1)
                | Inr expired \<Rightarrow>
                    if expired then
                      (case ReleaseNodeLock w1 of
                         (Inl e, w2) \<Rightarrow> (Inl e, w2)
                       | (Inr _, w2) \<Rightarrow> SetNodeLock now w2)
                    else (Inl (Errorf ''node has been locked within 5 minutes''), w1))))"

section \<open>Quiet runs\<close>

text \<open>No other client writes the node; calls may still fail.\<close>

definition undisturbed :: "api_world \<Rightarrow> bool" where
  "undisturbed w \<longleftrightarrow> (\<forall>a. OtherWrites a \<notin> set (aw_script w))"

abbreviation lock_of :: "api_world \<Rightarrow> string option" where
  "lock_of w \<equiv> mget (nc_Annotations (aw_node w)) NodeLockTime"

lemma api_Get_undisturbed:
  assumes "undisturbed w" and "api_Get w = (r, w')"
  shows "undisturbed w' \<and> aw_node w' = aw_node w \<and> (\<forall>n. r = Inr n \<longrightarrow> n = aw_node w)
     \<and> aw_calls w' = Suc (aw_calls w) \<and> \<not> is_panic r"
  using assms unfolding api_Get_def next_event_def undisturbed_def
  by (auto split: list.splits api_event.splits)

lemma api_Update_undisturbed:
  assumes "undisturbed w" and "api_Update n w = (r, w')"
  shows "undisturbed w' \<and> aw_calls w' = Suc (aw_calls w) \<and> \<not> is_panic r
     \<and> (case r of Inl _ \<Rightarrow> aw_node w' = aw_node w | Inr _ \<Rightarrow> nc_Annotations (aw_node w') = nc_Annotations n)"
  using assms unfolding api_Update_def next_event_def undisturbed_def
  by (auto simp: Let_def split: list.splits api_event.splits if_splits)

text \<open>What the retry loop keeps, for a change that depends on the annotations only.\<close>

lemma retry_loop_undisturbed:
  assumes "\<And>t n. nc_Annotations n = A \<Longrightarrow> \<exists>n'. change t n = Inr n' \<and> nc_Annotations n' = B t"
  shows "\<lbrakk> retry_loop change i (r, w) = (r', w'); undisturbed w; \<not> is_panic r;
     case r of Inl _ \<Rightarrow> nc_Annotations (aw_node w) = A | Inr _ \<Rightarrow> nc_Annotations (aw_node w) = B (aw_calls w - 1) \<rbrakk> \<Longrightarrow>
     undisturbed w' \<and> \<not> is_panic r'
     \<and> (case r' of Inl _ \<Rightarrow> nc_Annotations (aw_node w') = A | Inr _ \<Rightarrow> nc_Annotations (aw_node w') = B (aw_calls w' - 1))"
proof (induction i arbitrary: r w)
  case (Suc i)
  show ?case
  proof (cases r)
    case (Inr x)
    then show ?thesis using Suc.prems by auto
  next
    case (Inl e)
    obtain g w1 where g: "api_Get w = (g, w1)" by fastforce
    note gu = api_Get_undisturbed [OF Suc.prems(2) g]
    have A: "nc_Annotations (aw_node w1) = A" using gu Suc.prems(4) Inl by simp
    show ?thesis
    proof (cases g)
      case (Inl e')
      then have once: "retry_once change w = (Inl e', w1)" using g by (simp add: retry_once_def)
      have "\<not> is_panic (Inl e' :: unit result)" using gu Inl by (cases e') auto
      then show ?thesis
        using Suc.IH [of "Inl e'" w1] Suc.prems(1,3) gu A once \<open>r = Inl e\<close> by (simp del: is_panic_simps)
    next
      case (Inr n)
      then obtain n' where n': "change (aw_calls w1) n = Inr n'" "nc_Annotations n' = B (aw_calls w1)"
        using assms [of n "aw_calls w1"] gu A by auto
      obtain u w2 where u: "api_Update n' w1 = (u, w2)" by fastforce
      have "retry_once change w = (u, w2)" using g Inr n' u by (simp add: retry_once_def)
      then show ?thesis
        using Suc.IH [of u w2] Suc.prems(1,3) gu A n' \<open>r = Inl e\<close> api_Update_undisturbed [OF conjunct1 [OF gu] u]
        by (auto split: sum.splits simp del: is_panic_simps)
    qed
  qed
qed simp


lemma with_lock_ok:
  "nc_Annotations n = A \<Longrightarrow> A \<noteq> [] \<Longrightarrow> \<exists>n'. with_lock now n = Inr n' \<and> nc_Annotations n' = mset_to A NodeLockTime now"
  by (simp add: with_lock_def)

lemma without_lock_ok:
  "nc_Annotations n = A \<Longrightarrow> \<exists>n'. without_lock n = Inr n' \<and> nc_Annotations n' = mdel A NodeLockTime"
  by (simp add: without_lock_def)

lemma report_cases:
  assumes "report msg (r, w) = (r', w')" and "\<not> is_panic r"
  shows "w' = w \<and> \<not> is_panic r' \<and> (r' = Inr () \<longleftrightarrow> r = Inr ())"
  using assms by (cases r) (auto simp: report_def)

text \<open>Both operations, when nobody else writes the node: all or nothing.\<close>

lemma SetNodeLock_undisturbed:
  assumes "undisturbed w" and "nc_Annotations (aw_node w) \<noteq> []" and "SetNodeLock now w = (r, w')"
  shows "undisturbed w' \<and> \<not> is_panic r
    \<and> (r = Inr () \<longrightarrow> lock_of w = None \<and> nc_Annotations (aw_node w') = mset_to (nc_Annotations (aw_node w)) NodeLockTime (now (aw_calls w' - 1)))
    \<and> (r \<noteq> Inr () \<longrightarrow> nc_Annotations (aw_node w') = nc_Annotations (aw_node w))"
proof -
  let ?A = "nc_Annotations (aw_node w)"
  obtain g w1 where g: "api_Get w = (g, w1)" by fastforce
  note gu = api_Get_undisturbed [OF assms(1) g]
  show ?thesis
  proof (cases "\<exists>node. g = Inr node \<and> mget (nc_Annotations node) NodeLockTime = None")
    case False
    then show ?thesis
      using assms(3) g gu by (cases g) (auto simp: SetNodeLock_def is_panic_def split: go_error.splits)
  next
    case True
    then have node: "g = Inr (aw_node w)" "lock_of w = None" using gu by auto
    obtain n' where n': "with_lock (now (aw_calls w1)) (aw_node w) = Inr n'" "nc_Annotations n' = mset_to ?A NodeLockTime (now (aw_calls w1))"
      using with_lock_ok [OF refl assms(2)] by blast
    obtain u w2 where u: "api_Update n' w1 = (u, w2)" by fastforce
    note uu = api_Update_undisturbed [OF conjunct1 [OF gu] u]
    obtain q w3 where q: "retry_loop (\<lambda>t. with_lock (now t)) MaxLockRetry (u, w2) = (q, w3)" by fastforce
    have rep: "report ''setNodeLock exceeds retry count'' (q, w3) = (r, w')"
      using assms(3) g node n' u q by (simp add: SetNodeLock_def)
    have loop: "undisturbed w3 \<and> \<not> is_panic q \<and> (case q of Inl _ \<Rightarrow> nc_Annotations (aw_node w3) = ?A
        | Inr _ \<Rightarrow> nc_Annotations (aw_node w3) = mset_to ?A NodeLockTime (now (aw_calls w3 - 1)))"
      using uu gu n'(2) by (intro retry_loop_undisturbed [OF with_lock_ok q]) (auto simp: assms(2) split: sum.splits)
    then show ?thesis
      using report_cases [OF rep] node(2) by (auto split: sum.splits)
  qed
qed

lemma ReleaseNodeLock_undisturbed:
  assumes "undisturbed w" and "ReleaseNodeLock w = (r, w')"
  shows "undisturbed w' \<and> \<not> is_panic r
    \<and> (r = Inr () \<longrightarrow> nc_Annotations (aw_node w') = mdel (nc_Annotations (aw_node w)) NodeLockTime)
    \<and> (r \<noteq> Inr () \<longrightarrow> nc_Annotations (aw_node w') = nc_Annotations (aw_node w))"
proof -
  let ?A = "nc_Annotations (aw_node w)"
  obtain g w1 where g: "api_Get w = (g, w1)" by fastforce
  note gu = api_Get_undisturbed [OF assms(1) g]
  show ?thesis
  proof (cases "\<exists>node. g = Inr node \<and> mget (nc_Annotations node) NodeLockTime \<noteq> None")
    case False
    then show ?thesis
      using assms(2) g gu
      by (cases g) (auto simp: ReleaseNodeLock_def mdel_absent is_panic_def split: go_error.splits)
  next
    case True
    then have node: "g = Inr (aw_node w)" "lock_of w \<noteq> None" using gu by auto
    obtain n' where n': "without_lock (aw_node w) = Inr n'" "nc_Annotations n' = mdel ?A NodeLockTime"
      using without_lock_ok [OF refl] by blast
    obtain u w2 where u: "api_Update n' w1 = (u, w2)" by fastforce
    note uu = api_Update_undisturbed [OF conjunct1 [OF gu] u]
    obtain q w3 where q: "retry_loop (\<lambda>_. without_lock) MaxLockRetry (u, w2) = (q, w3)" by fastforce
    have rep: "report ''releaseNodeLock exceeds retry count'' (q, w3) = (r, w')"
      using assms(2) g node n' u q by (auto simp: ReleaseNodeLock_def)
    have loop: "undisturbed w3 \<and> \<not> is_panic q \<and> (case q of Inl _ \<Rightarrow> nc_Annotations (aw_node w3) = ?A
        | Inr _ \<Rightarrow> nc_Annotations (aw_node w3) = mdel ?A NodeLockTime)"
      using uu gu n'(2) by (intro retry_loop_undisturbed [OF without_lock_ok q]) (auto split: sum.splits)
    then show ?thesis
      using report_cases [OF rep] by (auto split: sum.splits)
  qed
qed

lemma LockNode_undisturbed:
  assumes "undisturbed w" and "nc_Annotations (aw_node w) \<noteq> []" and "mdel (nc_Annotations (aw_node w)) NodeLockTime \<noteq> []"
    and "LockNode age now w = (r, w')"
  shows "(r = Inr () \<longrightarrow> undisturbed w' \<and> (lock_of w = None \<or> (\<exists>t. lock_of w = Some t \<and> age t = Inr True)) \<and> lock_of w' = Some (now (aw_calls w' - 1))
        \<and> (\<forall>k. k \<noteq> NodeLockTime \<longrightarrow> mget (nc_Annotations (aw_node w')) k = mget (nc_Annotations (aw_node w)) k))
     \<and> (\<forall>t. lock_of w = Some t \<longrightarrow> age t \<noteq> Inr True \<longrightarrow> r \<noteq> Inr () \<and> aw_node w' = aw_node w)"
proof -
  obtain g w1 where g: "api_Get w = (g, w1)" by fastforce
  note gu = api_Get_undisturbed [OF assms(1) g]
  show ?thesis
  proof (cases g)
    case (Inl e)
    then show ?thesis using assms(4) g gu by (auto simp: LockNode_def)
  next
    case (Inr node)
    then have node: "g = Inr (aw_node w)" using gu by simp
    show ?thesis
    proof (cases "lock_of w")
      case None
      then have "SetNodeLock now w1 = (r, w')" using assms(4) g node by (simp add: LockNode_def)
      then show ?thesis
        using SetNodeLock_undisturbed [of w1 now r w'] gu assms(2) None by auto
    next
      case (Some t)
      show ?thesis
      proof (cases "age t = Inr True")
        case True
        obtain q w2 where q: "ReleaseNodeLock w1 = (q, w2)" by fastforce
        note ru = ReleaseNodeLock_undisturbed [OF conjunct1 [OF gu] q]
        show ?thesis
        proof (cases q)
          case (Inl e)
          then show ?thesis using assms(4) g node Some True q by (auto simp: LockNode_def)
        next
          case (Inr u)
          then have "SetNodeLock now w2 = (r, w')"
            using assms(4) g node Some True q by (simp add: LockNode_def)
          then show ?thesis
            using SetNodeLock_undisturbed [of w2 now r w'] ru Inr gu assms(3) Some True by auto
        qed
      next
        case False
        then have "r \<noteq> Inr () \<and> w' = w1"
          using assms(4) g node Some by (cases "age t") (auto simp: LockNode_def)
        then show ?thesis using gu Some False by auto
      qed
    qed
  qed
qed

section \<open>Properties of the lock\<close>

text \<open>C19: mutual exclusion when no other client writes the node, whichever calls fail: \<open>LockNode\<close> succeeds
  only if the lock was free or had expired, and then the node carries the new lock, with the time read before
  the last update, and all its other annotations; otherwise, and also when a retry limit is reached, a lock that has not expired is
  still there with its old value.\<close>
theorem LockNode_mutual_exclusion:
  assumes "undisturbed w" and "nc_Annotations (aw_node w) \<noteq> []" and "mdel (nc_Annotations (aw_node w)) NodeLockTime \<noteq> []"
    and "LockNode age now w = (r, w')"
  shows "(r = Inr () \<longrightarrow> (lock_of w = None \<or> (\<exists>t. lock_of w = Some t \<and> age t = Inr True)) \<and> lock_of w' = Some (now (aw_calls w' - 1))
        \<and> (\<forall>k. k \<noteq> NodeLockTime \<longrightarrow> mget (nc_Annotations (aw_node w')) k = mget (nc_Annotations (aw_node w)) k))
     \<and> (\<forall>t. lock_of w = Some t \<longrightarrow> age t \<noteq> Inr True \<longrightarrow> r \<noteq> Inr () \<and> aw_node w' = aw_node w)"
  using LockNode_undisturbed [OF assms] by blast

definition example_world :: "annotations \<Rightarrow> api_event list \<Rightarrow> api_world" where
  "example_world a es = \<lparr>aw_node = \<lparr>nc_Annotations = a, nc_Version = 0\<rparr>, aw_script = es, aw_calls = 0\<rparr>"

theorem LockNode_mutual_exclusion_witness:
  "\<exists>r w'. LockNode (\<lambda>_. Inr False) (\<lambda>_. ''12:00'') (example_world [(''a'', ''b''), (NodeLockTime, ''11:58'')] []) = (r, w')
     \<and> r \<noteq> Inr () \<and> lock_of w' = Some ''11:58''"
proof -
  let ?w = "example_world [(''a'', ''b''), (NodeLockTime, ''11:58'')] []"
  obtain r w' where l: "LockNode (\<lambda>_. Inr False) (\<lambda>_. ''12:00'') ?w = (r, w')" by fastforce
  have "undisturbed ?w" "nc_Annotations (aw_node ?w) \<noteq> []" "mdel (nc_Annotations (aw_node ?w)) NodeLockTime \<noteq> []"
    and lock: "lock_of ?w = Some ''11:58''"
    by (simp_all add: undisturbed_def example_world_def NodeLockTime_def)
  from LockNode_mutual_exclusion [OF this(1-3) l] show ?thesis
    using l lock by auto
qed

text \<open>C40: the retry loop of \<open>SetNodeLock\<close> breaks mutual exclusion: when another client takes the lock
  between the first read and the update, the update is refused, but the retry overwrites the other
  client's lock without looking at it, and reports success.  The lock it leaves carries the time of the retry.\<close>
theorem SetNodeLock_steals:
  assumes "mget annos NodeLockTime = None" and "annos \<noteq> []" and "mget other NodeLockTime = Some t" and "other \<noteq> []"
  shows "\<exists>w'. SetNodeLock now (example_world annos [Quiet, OtherWrites other]) = (Inr (), w') \<and> lock_of w' = Some (now 3)"
  using assms
  by (auto simp: SetNodeLock_def example_world_def api_Get_def api_Update_def next_event_def with_lock_def
      MaxLockRetry_def numeral_eq_Suc retry_once_def report_def Let_def)

theorem SetNodeLock_steals_witness:
  "\<exists>w'. SetNodeLock (\<lambda>t. if t < 3 then ''12:00'' else ''12:01'') (example_world [(''a'', ''b'')] [Quiet, OtherWrites [(''a'', ''b''), (NodeLockTime, ''11:59'')]])
     = (Inr (), w') \<and> lock_of w' = Some ''12:01''"
  using SetNodeLock_steals [of "[(''a'', ''b'')]" "[(''a'', ''b''), (NodeLockTime, ''11:59'')]" "''11:59''" "\<lambda>t. if t < 3 then ''12:00'' else ''12:01''"]
  by (simp add: NodeLockTime_def)

text \<open>The number of calls, whatever the server does.\<close>

lemma api_Get_calls: "api_Get w = (r, w') \<Longrightarrow> aw_calls w' = Suc (aw_calls w)"
  by (auto simp: api_Get_def next_event_def split: list.splits api_event.splits)

lemma api_Update_calls: "api_Update n w = (r, w') \<Longrightarrow> aw_calls w' = Suc (aw_calls w)"
  by (auto simp: api_Update_def next_event_def Let_def split: list.splits api_event.splits if_splits)

lemma retry_once_calls: "retry_once change w = (r, w') \<Longrightarrow> aw_calls w' \<le> aw_calls w + 2"
  by (auto simp: retry_once_def split: prod.splits sum.splits dest!: api_Get_calls api_Update_calls)

lemma retry_loop_calls: "retry_loop change i (r, w) = (r', w') \<Longrightarrow> aw_calls w' \<le> aw_calls w + 2 * i"
proof (induction i arbitrary: r w)
  case (Suc i)
  obtain r1 w1 where once: "retry_once change w = (r1, w1)" by fastforce
  show ?case
    using Suc.prems Suc.IH [of r1 w1] retry_once_calls [OF once] once by (auto split: sum.splits if_splits)
qed simp

lemma report_world: "snd (report msg rw) = snd rw"
  by (auto simp: report_def split: prod.splits sum.splits)

lemma first_update_calls:
  "api_Get w = (g, w1) \<Longrightarrow> snd (report msg (retry_loop change MaxLockRetry (api_Update n w1))) = w' \<Longrightarrow>
     aw_calls w' \<le> aw_calls w + 12"
proof -
  assume g: "api_Get w = (g, w1)" and w': "snd (report msg (retry_loop change MaxLockRetry (api_Update n w1))) = w'"
  obtain u w2 where u: "api_Update n w1 = (u, w2)" by fastforce
  obtain q w3 where q: "retry_loop change MaxLockRetry (u, w2) = (q, w3)" by fastforce
  have "w' = w3" using w' u q report_world [of msg "(q, w3)"] by simp
  then show ?thesis
    using api_Get_calls [OF g] api_Update_calls [OF u] retry_loop_calls [OF q] by (simp add: MaxLockRetry_def)
qed

lemma SetNodeLock_calls: "aw_calls (snd (SetNodeLock now w)) \<le> aw_calls w + 12"
proof -
  obtain g w1 where g: "api_Get w = (g, w1)" by fastforce
  show ?thesis
    using api_Get_calls [OF g] first_update_calls [OF g refl] g
    by (simp add: SetNodeLock_def split: sum.splits)
qed

lemma ReleaseNodeLock_calls: "aw_calls (snd (ReleaseNodeLock w)) \<le> aw_calls w + 12"
proof -
  obtain g w1 where g: "api_Get w = (g, w1)" by fastforce
  show ?thesis
    using api_Get_calls [OF g] first_update_calls [OF g refl] g
    by (simp add: ReleaseNodeLock_def split: sum.splits)
qed

text \<open>C20: \<open>LockNode\<close> always returns after at most 25 calls to the API server, whatever the server answers
  and however other clients interfere: the retries are bounded.\<close>
theorem LockNode_calls_bounded:
  "aw_calls (snd (LockNode age now w)) \<le> aw_calls w + 25"
proof -
  obtain g w1 where g: "api_Get w = (g, w1)" by fastforce
  obtain q w2 where q: "ReleaseNodeLock w1 = (q, w2)" by fastforce
  have "aw_calls w2 \<le> aw_calls w1 + 12" using ReleaseNodeLock_calls [of w1] q by simp
  then show ?thesis
    using api_Get_calls [OF g] SetNodeLock_calls [of now w1] SetNodeLock_calls [of now w2] g q
    by (auto simp: LockNode_def split: sum.splits option.splits)
qed

end
