(* ===== verification/Handover.thy ===== *)
theory Handover
  imports Codec Devices Nodelock
begin

text \<open>
  What every device plugin does with the assignment of a pod: it reads and erases it
  (\<open>pkg/util/util.go\<close>) and ends the allocation (\<open>pkg/device/devices.go\<close>) by marking the pod and
  releasing the node lock.  The state is what the API server holds: the pod's annotations and the
  node with its lock.
\<close>

section \<open>The end of an allocation\<close>

record cluster_state =
  cl_annos :: annotations
  cl_lock :: api_world

type_synonym patch_api = "annotations \<Rightarrow> annotations \<Rightarrow> annotations result"

text \<open>The errors of the patch and of the release are logged and dropped.\<close>

definition finish_allocation :: "patch_api \<Rightarrow> string \<Rightarrow> cluster_state \<Rightarrow> cluster_state" where
  "finish_allocation api_patch phase st =
     st\<lparr>cl_annos := (case api_patch (cl_annos st) [(DeviceBindPhase, phase)] of Inr a \<Rightarrow> a | Inl _ \<Rightarrow> cl_annos st),
        cl_lock := snd (ReleaseNodeLock (cl_lock st))\<rparr>"

definition PodAllocationSuccess :: "patch_api \<Rightarrow> cluster_state \<Rightarrow> cluster_state" where
  "PodAllocationSuccess api_patch st = finish_allocation api_patch DeviceBindSuccess st"

definition PodAllocationFailed :: "patch_api \<Rightarrow> cluster_state \<Rightarrow> cluster_state" where
  "PodAllocationFailed api_patch st = finish_allocation api_patch DeviceBindFailed st"

definition PodAllocationTrySuccess :: "patch_api \<Rightarrow> bool \<Rightarrow> cluster_state \<Rightarrow> cluster_state" where
  "PodAllocationTrySuccess api_patch get_ok st =
     (let annos = mget_default [] (if get_ok then cl_annos st else []) AssignedIDsToAllocateAnnotations
      in if list_ex (\<lambda>val. Contains annos val) DevicesToHandle then st else PodAllocationSuccess api_patch st)"

section \<open>Lemmas on the hand-over\<close>

text \<open>The assignment the plugin finds in a pod whose annotation the scheduler wrote.\<close>

lemma next_request_encoded:
  assumes "mget (pod_Annotations p) key = Some (EncodePodSingleDevice pd)"
    and "list_all container_device_ok (concat pd)" and "concat pd \<noteq> []" and "pod_Containers p = c # cs"
  shows "GetNextDeviceRequest [(dt, key)] dt p = Inr (c, map forget_idx (concat pd))"
  using DecodePodDevices_single_encoded [OF assms(1,2), of dt] assms(3,4)
  by (simp add: GetNextDeviceRequest_def del: map_concat)

lemma erase_encoded:
  assumes "merges api_patch" and "\<And>a p. \<exists>a'. api_patch a p = Inr a'"
    and "mget (pod_Annotations p) key = Some (EncodePodSingleDevice pd)"
    and "list_all container_device_ok (concat pd)" and "concat pd \<noteq> []"
  obtains p' where "EraseNextDeviceTypeFromAnnotation (\<lambda>_. api_patch annos) [(dt, key)] dt p = Inr p'"
    "mget (pod_Annotations p') key = Some (EncodePodSingleDevice [[], []])"
    "\<And>k. k \<noteq> key \<Longrightarrow> mget (pod_Annotations p') k = mget annos k"
proof -
  have ne: "map forget_idx (concat pd) \<noteq> []" using assms(5) by simp
  obtain a' where a': "api_patch annos [(key, EncodePodSingleDevice [[], []])] = Inr a'"
    using assms(2) by blast
  show thesis
    using that [of "p\<lparr>pod_Annotations := a'\<rparr>"] mergesD [OF assms(1) _ a'] a' ne
      DecodePodDevices_single_encoded [OF assms(3,4), of dt]
    by (simp add: EraseNextDeviceTypeFromAnnotation_def del: map_concat)
qed

lemma finish_allocation_phase:
  assumes "merges api_patch" and "\<And>a p. \<exists>a'. api_patch a p = Inr a'"
  shows "mget (cl_annos (finish_allocation api_patch phase st)) k =
     (if k = DeviceBindPhase then Some phase else mget (cl_annos st) k)"
proof -
  obtain a' where a': "api_patch (cl_annos st) [(DeviceBindPhase, phase)] = Inr a'"
    using assms(2) by blast
  then show ?thesis using mergesD [OF assms(1) _ a', of k] by (simp add: finish_allocation_def)
qed

lemma finish_allocation_lock [simp]:
  "cl_lock (finish_allocation api_patch phase st) = snd (ReleaseNodeLock (cl_lock st))"
  by (simp add: finish_allocation_def)

lemmas finish_defs = PodAllocationSuccess_def PodAllocationFailed_def

lemma no_request_erased:
  "mget annos key = Some (EncodePodSingleDevice [[], []]) \<Longrightarrow>
     GetNextDeviceRequest [(dt, key)] dt (p\<lparr>pod_Annotations := annos\<rparr>) = Inl (Errorf ''device request not found'')"
  using DecodePodDevices_single_encoded [of annos key "[[], []]" dt] by (simp add: GetNextDeviceRequest_def)

lemma Contains_Nil: "Contains [] t \<longleftrightarrow> t = []"
  by (auto simp: Contains_def)

lemma map_UUID_forget: "map cd_UUID (map forget_idx ds) = map cd_UUID ds"
  by (simp add: forget_idx_def)

lemma EraseNext_patch:
  assumes "merges api_patch" and "k \<noteq> mget_default [] inreq dt"
    and "EraseNextDeviceTypeFromAnnotation (\<lambda>_. api_patch annos) inreq dt p = Inr p'"
  shows "mget (pod_Annotations p') k = mget annos k"
proof -
  obtain v where v: "api_patch annos [(mget_default [] inreq dt, v)] = Inr (pod_Annotations p')"
    using assms(3)
    by (auto simp: EraseNextDeviceTypeFromAnnotation_def bind_result_Inr_iff split: option.splits)
  show ?thesis using mergesD [OF assms(1) _ v, of k] assms(2) by simp
qed

section \<open>A pod that waits for its devices\<close>

definition example_allocating :: "container_devices list \<Rightarrow> pod" where
  "example_allocating pd = example_pod\<lparr>pod_Annotations :=
     [(BindTimeAnnotations, ''0''), (DeviceBindPhase, DeviceBindAllocating), (AssignedNodeAnnotations, ''n1''),
      (''k'', EncodePodSingleDevice pd)]\<rparr>"

lemma example_allocating_pending:
  "GetPendingPod (Inr [example_allocating pd]) ''n1'' = Inr (example_allocating pd)"
  by (simp add: GetPendingPod_def is_pending_on_def example_allocating_def annotation_names)

lemma example_assignment_ok: "container_device_ok example_assignment"
  by (simp add: container_device_ok_def example_assignment_def in_i32_def)

text \<open>A device type that the checklist does not name is never found in an annotation.\<close>

lemma decode_pod_loop_unlisted:
  "dt \<notin> fst ` set checklist \<Longrightarrow> mget pd dt = None \<Longrightarrow> mget (decode_pod_loop checklist annos pd) dt = None"
  by (induction checklist annos pd rule: decode_pod_loop.induct) (auto split: option.splits sum.splits)

lemma GetNextDeviceRequest_unlisted:
  "dt \<notin> fst ` set checklist \<Longrightarrow> GetNextDeviceRequest checklist dt p = Inl (Errorf ''device request not found'')"
  by (simp add: GetNextDeviceRequest_def DecodePodDevices_def decode_pod_loop_unlisted)

end
