(* ===== verification/Rm_Devices.thy ===== *)
theory Rm_Devices
  imports Types
begin

text \<open>
  The devices of the NVIDIA device plugin
  (\<open>pkg/device-plugin/nvidiadevice/nvinternal/rm\<close>: \<open>devices.go\<close>, \<open>device_map.go\<close>,
  \<open>nvml_devices.go\<close>, \<open>nvml_manager.go\<close>, \<open>tegra_devices.go\<close>, \<open>tegra_manager.go\<close>, \<open>rm.go\<close>).  What the
  NVML library answers about a card is a record of results; the library's visitors call the given
  function on every card and stop at the first error.
\<close>

section \<open>Annotated ids\<close>

text \<open>\<open>strings.SplitN(s, sep, 2)\<close>: the text before and after the first separator, if there is one.\<close>

fun cut :: "string \<Rightarrow> string \<Rightarrow> (string \<times> string) option" where
  "cut sep [] = (if sep = [] then Some ([], []) else None)"
| "cut sep (c # cs) =
     (if HasPrefix (c # cs) sep then Some ([], drop (length sep) (c # cs))
      else map_option (\<lambda>(a, b). (c # a, b)) (cut sep cs))"

definition NewAnnotatedID :: "string \<Rightarrow> int \<Rightarrow> string" where
  "NewAnnotatedID uid replica = uid @ ''::'' @ Itoa replica"

definition HasAnnotations :: "string \<Rightarrow> bool" where
  "HasAnnotations r \<longleftrightarrow> cut ''::'' r \<noteq> None"

definition AnnotatedID_Split :: "string \<Rightarrow> string \<times> int" where
  "AnnotatedID_Split r = (case cut ''::'' r of None \<Rightarrow> (r, 0) | Some (uid, rep) \<Rightarrow> (uid, fst (ParseInt 64 rep)))"

definition AnnotatedID_GetID :: "string \<Rightarrow> string" where
  "AnnotatedID_GetID r = fst (AnnotatedID_Split r)"

definition AnyHasAnnotations :: "string list \<Rightarrow> bool" where
  "AnyHasAnnotations rs \<longleftrightarrow> list_ex HasAnnotations rs"

definition AnnotatedIDs_GetIDs :: "string list \<Rightarrow> string list" where
  "AnnotatedIDs_GetIDs rs = map AnnotatedID_GetID rs"

section \<open>Devices\<close>

record rm_device =
  rd_ID :: string
  rd_Health :: string
  rd_Topology :: "int option"
  rd_Paths :: "string list"
  rd_Index :: string

type_synonym rm_devices = "(string, rm_device) gomap"

text \<open>The interface \<open>deviceInfo\<close>: the answers of its three methods.\<close>

record device_source =
  src_UUID :: "string result"
  src_Paths :: "string list result"
  src_Numa :: "(bool \<times> int) result"

definition Healthy :: string where "Healthy = ''Healthy''"
definition Unhealthy :: string where "Unhealthy = ''Unhealthy''"

definition BuildDevice :: "string \<Rightarrow> device_source \<Rightarrow> rm_device result" where
  "BuildDevice index d =
     bind_result (src_UUID d) (\<lambda>uuid.
     bind_result (src_Paths d) (\<lambda>paths.
     bind_result (src_Numa d) (\<lambda>(hasNuma, numa).
       Inr \<lparr>rd_ID = uuid, rd_Health = Healthy, rd_Topology = (if hasNuma then Some numa else None),
            rd_Paths = paths, rd_Index = index\<rparr>)))"

definition Devices_Contains :: "rm_devices \<Rightarrow> string list \<Rightarrow> bool" where
  "Devices_Contains ds ids \<longleftrightarrow> list_all (\<lambda>uid. mget ds uid \<noteq> None) ids"

definition GetByID :: "rm_devices \<Rightarrow> string \<Rightarrow> rm_device option" where
  "GetByID ds uid = mget ds uid"

definition GetByIndex :: "rm_devices \<Rightarrow> string \<Rightarrow> rm_device option" where
  "GetByIndex ds index = find (\<lambda>d. rd_Index d = index) (map snd ds)"

definition Subset :: "rm_devices \<Rightarrow> string list \<Rightarrow> rm_devices" where
  "Subset ds ids = fold (\<lambda>uid res. case mget ds uid of None \<Rightarrow> res | Some d \<Rightarrow> mset_to res uid d) ids []"

definition Difference :: "rm_devices \<Rightarrow> rm_devices \<Rightarrow> rm_devices" where
  "Difference ds ods = filter (\<lambda>(uid, _). \<not> Devices_Contains ods [uid]) ds"

definition Devices_GetIDs :: "rm_devices \<Rightarrow> string list" where
  "Devices_GetIDs ds = map (\<lambda>(_, d). rd_ID d) ds"

text \<open>
  \<open>GetPluginDevices\<close>: what the kubelet sees, \<open>DeviceSplitCount\<close> copies of every card (or the MIG
  devices as they are).  \<open>ds.GetIDs()[0]\<close> panics without devices.
\<close>

definition GetPluginDevices :: "nat \<Rightarrow> rm_devices \<Rightarrow> (string \<times> string) list result" where
  "GetPluginDevices DeviceSplitCount ds =
     (case Devices_GetIDs ds of
        [] \<Rightarrow> Inl (GoPanic ''index out of range'')
      | first # _ \<Rightarrow>
          Inr (if \<not> Contains first ''MIG''
               then concat (map (\<lambda>(_, d). map (\<lambda>i. (rd_ID d @ ''-'' @ nat_str i, rd_Health d)) [0..<DeviceSplitCount]) ds)
               else map (\<lambda>(_, d). (rd_ID d, rd_Health d)) ds))"

definition GetIndices :: "rm_devices \<Rightarrow> string list" where
  "GetIndices ds = map (\<lambda>(_, d). rd_Index d) ds"

definition Devices_GetPaths :: "rm_devices \<Rightarrow> string list" where
  "Devices_GetPaths ds = concat (map (\<lambda>(_, d). rd_Paths d) ds)"

definition IsMigDevice :: "rm_device \<Rightarrow> bool" where
  "IsMigDevice d \<longleftrightarrow> Contains (rd_Index d) '':''"

definition Device_AlignedAllocationSupported :: "rm_device \<Rightarrow> bool" where
  "Device_AlignedAllocationSupported d \<longleftrightarrow> \<not> IsMigDevice d \<and> ''/dev/dxg'' \<notin> set (rd_Paths d)"

definition AlignedAllocationSupported :: "rm_devices \<Rightarrow> bool" where
  "AlignedAllocationSupported ds \<longleftrightarrow> list_all (\<lambda>(_, d). Device_AlignedAllocationSupported d) ds"

definition Device_GetUUID :: "rm_device \<Rightarrow> string" where
  "Device_GetUUID d = AnnotatedID_GetID (rd_ID d)"

section \<open>The device map\<close>

type_synonym device_map = "(string, rm_devices) gomap"

definition DeviceMap_insert :: "string \<Rightarrow> rm_device \<Rightarrow> device_map \<Rightarrow> device_map" where
  "DeviceMap_insert name dev d = mset_to d name (mset_to (mget_default [] d name) (rd_ID dev) dev)"

definition setEntry :: "string \<Rightarrow> string \<Rightarrow> device_source \<Rightarrow> device_map \<Rightarrow> device_map result" where
  "setEntry name index info d = bind_result (BuildDevice index info) (\<lambda>dev. Inr (DeviceMap_insert name dev d))"

definition DeviceMap_merge :: "device_map \<Rightarrow> device_map \<Rightarrow> device_map" where
  "DeviceMap_merge d o_map =
     fold (\<lambda>(name, devices) d. fold (\<lambda>(_, dev). DeviceMap_insert name dev) devices d) o_map d"

definition DeviceMap_isEmpty :: "device_map \<Rightarrow> bool" where
  "DeviceMap_isEmpty d \<longleftrightarrow> list_all (\<lambda>(_, devices). devices = []) d"

text \<open>Which devices of a resource are to be replicated.\<close>

datatype device_ref = RefUUID string | RefIndex string | RefOther string

record replicated_devices =
  rpd_All :: bool
  rpd_Count :: int
  rpd_List :: "device_ref list"

record replicated_resource =
  rpr_Name :: string
  rpr_Rename :: string
  rpr_Devices :: replicated_devices
  rpr_Replicas :: nat

fun resolve_refs :: "rm_devices \<Rightarrow> device_ref list \<Rightarrow> string list result" where
  "resolve_refs devices [] = Inr []"
| "resolve_refs devices (RefUUID u # refs) =
     (case GetByID devices u of
        None \<Rightarrow> Inl (Errorf ''no matching device with UUID'')
      | Some d \<Rightarrow> bind_result (resolve_refs devices refs) (\<lambda>ids. Inr (rd_ID d # ids)))"
| "resolve_refs devices (RefIndex i # refs) =
     (case GetByIndex devices i of
        None \<Rightarrow> Inl (Errorf ''no matching device at index'')
      | Some d \<Rightarrow> bind_result (resolve_refs devices refs) (\<lambda>ids. Inr (rd_ID d # ids)))"
| "resolve_refs devices (RefOther _ # refs) = resolve_refs devices refs"

definition getIDsOfDevicesToReplicate :: "device_map \<Rightarrow> replicated_resource \<Rightarrow> string list result" where
  "getIDsOfDevicesToReplicate d r =
     (case mget d (rpr_Name r) of
        None \<Rightarrow> Inr []
      | Some devices \<Rightarrow>
          let sel = rpr_Devices r
          in if rpd_All sel then Inr (Devices_GetIDs devices)
             else if rpd_Count sel > 0 then
               (if rpd_Count sel > int (length devices) then Inl (Errorf ''requested more devices than available'')
                else Inr (take (nat (rpd_Count sel)) (Devices_GetIDs devices)))
             else if rpd_List sel \<noteq> [] then resolve_refs devices (rpd_List sel)
             else Inl (Errorf ''unexpected error''))"

text \<open>The replicas of one device; the original must be in the map, since its id was taken from there.\<close>

definition replicas_of :: "rm_devices \<Rightarrow> nat \<Rightarrow> string \<Rightarrow> rm_device list" where
  "replicas_of devices n uid =
     (case mget devices uid of
        None \<Rightarrow> []
      | Some d \<Rightarrow> map (\<lambda>i. d\<lparr>rd_ID := NewAnnotatedID uid (int i)\<rparr>) [0..<n])"

definition replicate_resource ::
  "device_map \<Rightarrow> replicated_resource \<Rightarrow> device_map \<Rightarrow> device_map result" where
  "replicate_resource oDevices r devices =
     bind_result (getIDsOfDevicesToReplicate oDevices r) (\<lambda>ids.
       if ids = [] then Inr devices
       else
         let orig = mget_default [] oDevices (rpr_Name r);
             kept = fold (\<lambda>(_, dev). DeviceMap_insert (rpr_Name r) dev) (Difference orig (Subset orig ids)) devices;
             name = (if rpr_Rename r \<noteq> [] then rpr_Rename r else rpr_Name r)
         in Inr (fold (DeviceMap_insert name) (concat (map (replicas_of orig (rpr_Replicas r)) ids)) kept))"

fun replicate_resources ::
  "device_map \<Rightarrow> replicated_resource list \<Rightarrow> device_map \<Rightarrow> device_map result" where
  "replicate_resources oDevices [] devices = Inr devices"
| "replicate_resources oDevices (r # rs) devices =
     bind_result (replicate_resource oDevices r devices) (replicate_resources oDevices rs)"

definition updateDeviceMapWithReplicas :: "replicated_resource list \<Rightarrow> device_map \<Rightarrow> device_map result" where
  "updateDeviceMapWithReplicas resources oDevices =
     replicate_resources oDevices resources
       (filter (\<lambda>(r, _). r \<notin> set (map rpr_Name resources)) oDevices)"

section \<open>Building the map from the cards\<close>

datatype mig_strategy = MigStrategyNone | MigStrategySingle | MigStrategyMixed

record resource_pattern =
  rp_Matches :: "string \<Rightarrow> bool"
  rp_Name :: string

record mig_card =
  mc_Profile :: "string result"
  mc_Attributes :: "int result"
  mc_Source :: device_source

record gpu_card =
  gc_Name :: "string result"
  gc_MigEnabled :: "bool result"
  gc_Source :: device_source
  gc_Migs :: "mig_card list result"

record rm_config =
  cf_MigStrategy :: mig_strategy
  cf_GPUs :: "resource_pattern list"
  cf_MIGs :: "resource_pattern list"
  cf_Replicated :: "replicated_resource list"
  cf_HasDXCore :: bool

text \<open>On WSL (\<open>wsl_devices.go\<close>) every card has the one path \<open>/dev/dxg\<close>.\<close>

definition newGPUDevice :: "bool \<Rightarrow> nat \<Rightarrow> device_source \<Rightarrow> string \<times> device_source" where
  "newGPUDevice isWsl i gpu = (nat_str i, if isWsl then gpu\<lparr>src_Paths := Inr [''/dev/dxg'']\<rparr> else gpu)"

definition newMigDevice :: "nat \<Rightarrow> nat \<Rightarrow> device_source \<Rightarrow> string \<times> device_source" where
  "newMigDevice i j mig = (nat_str i @ '':'' @ nat_str j, mig)"

definition visit_gpu :: "rm_config \<Rightarrow> nat \<Rightarrow> gpu_card \<Rightarrow> device_map \<Rightarrow> device_map result" where
  "visit_gpu cfg i gpu devices =
     bind_result (gc_Name gpu) (\<lambda>name.
     bind_result (gc_MigEnabled gpu) (\<lambda>migEnabled.
       if migEnabled \<and> cf_MigStrategy cfg \<noteq> MigStrategyNone then Inr devices
       else
         case find (\<lambda>r. rp_Matches r name) (cf_GPUs cfg) of
           None \<Rightarrow> Inl (Errorf ''GPU name does not match any resource patterns'')
         | Some r \<Rightarrow> (case newGPUDevice (cf_HasDXCore cfg) i (gc_Source gpu) of (index, info) \<Rightarrow> setEntry (rp_Name r) index info devices)))"

text \<open>
  \<open>VisitDevices\<close> stops at the first error; \<open>buildGPUDeviceMap\<close> ignores that error and returns what was
  entered so far.
\<close>

fun visit_gpus :: "rm_config \<Rightarrow> nat \<Rightarrow> gpu_card list \<Rightarrow> device_map \<Rightarrow> device_map" where
  "visit_gpus cfg i [] devices = devices"
| "visit_gpus cfg i (g # gs) devices =
     (case visit_gpu cfg i g devices of
        Inl _ \<Rightarrow> devices
      | Inr devices' \<Rightarrow> visit_gpus cfg (Suc i) gs devices')"

definition buildGPUDeviceMap :: "rm_config \<Rightarrow> gpu_card list \<Rightarrow> device_map" where
  "buildGPUDeviceMap cfg gpus = visit_gpus cfg 0 gpus []"

definition visit_mig :: "rm_config \<Rightarrow> nat \<Rightarrow> nat \<Rightarrow> mig_card \<Rightarrow> device_map \<Rightarrow> device_map result" where
  "visit_mig cfg i j mig devices =
     bind_result (mc_Profile mig) (\<lambda>profile.
       case find (\<lambda>r. rp_Matches r profile) (cf_MIGs cfg) of
         None \<Rightarrow> Inl (Errorf ''MIG profile does not match any resource patterns'')
       | Some r \<Rightarrow> (case newMigDevice i j (mc_Source mig) of (index, info) \<Rightarrow> setEntry (rp_Name r) index info devices))"

text \<open>\<open>VisitMigDevices\<close>: the MIG devices of every card on which MIG is enabled.\<close>

fun visit_migs_of :: "('s \<Rightarrow> nat \<Rightarrow> nat \<Rightarrow> mig_card \<Rightarrow> 's result) \<Rightarrow> nat \<Rightarrow> nat \<Rightarrow> mig_card list \<Rightarrow> 's \<Rightarrow> 's result" where
  "visit_migs_of f i j [] s = Inr s"
| "visit_migs_of f i j (m # ms) s = bind_result (f s i j m) (visit_migs_of f i (Suc j) ms)"

fun VisitMigDevices :: "('s \<Rightarrow> nat \<Rightarrow> nat \<Rightarrow> mig_card \<Rightarrow> 's result) \<Rightarrow> nat \<Rightarrow> gpu_card list \<Rightarrow> 's \<Rightarrow> 's result" where
  "VisitMigDevices f i [] s = Inr s"
| "VisitMigDevices f i (g # gs) s =
     bind_result (gc_MigEnabled g) (\<lambda>enabled.
       if \<not> enabled then VisitMigDevices f (Suc i) gs s
       else bind_result (gc_Migs g) (\<lambda>ms. bind_result (visit_migs_of f i 0 ms s) (VisitMigDevices f (Suc i) gs)))"

definition buildMigDeviceMap :: "rm_config \<Rightarrow> gpu_card list \<Rightarrow> device_map result" where
  "buildMigDeviceMap cfg gpus = VisitMigDevices (\<lambda>s i j m. visit_mig cfg i j m s) 0 gpus []"

definition check_mig_configured :: "gpu_card \<Rightarrow> unit result" where
  "check_mig_configured g =
     bind_result (gc_MigEnabled g) (\<lambda>enabled.
       if \<not> enabled then Inr ()
       else bind_result (gc_Migs g) (\<lambda>ms. if ms = [] then Inl (Errorf ''invalid MIG configuration'') else Inr ()))"

fun check_all_configured :: "gpu_card list \<Rightarrow> unit result" where
  "check_all_configured [] = Inr ()"
| "check_all_configured (g # gs) = bind_result (check_mig_configured g) (\<lambda>_. check_all_configured gs)"

definition same_attributes :: "int option \<Rightarrow> nat \<Rightarrow> nat \<Rightarrow> mig_card \<Rightarrow> int option result" where
  "same_attributes previous i j m =
     bind_result (mc_Attributes m) (\<lambda>attrs.
       case previous of
         None \<Rightarrow> Inr (Some attrs)
       | Some p \<Rightarrow> if attrs \<noteq> p then Inl (Errorf ''more than one MIG device type present on node'') else Inr previous)"

definition assertAllMigDevicesAreValid :: "bool \<Rightarrow> gpu_card list \<Rightarrow> unit result" where
  "assertAllMigDevicesAreValid uniform gpus =
     bind_result (check_all_configured gpus) (\<lambda>_.
       if \<not> uniform then Inr ()
       else bind_result (VisitMigDevices same_attributes 0 gpus None) (\<lambda>_. Inr ()))"

definition buildDeviceMapFromConfigResources :: "rm_config \<Rightarrow> gpu_card list \<Rightarrow> device_map result" where
  "buildDeviceMapFromConfigResources cfg gpus =
     (let deviceMap = buildGPUDeviceMap cfg gpus
      in if cf_MigStrategy cfg = MigStrategyNone then Inr deviceMap
         else
           bind_result (buildMigDeviceMap cfg gpus) (\<lambda>migDeviceMap.
             let uniform = (cf_MigStrategy cfg = MigStrategySingle)
             in bind_result (assertAllMigDevicesAreValid uniform gpus) (\<lambda>_.
                  if uniform \<and> \<not> DeviceMap_isEmpty deviceMap \<and> \<not> DeviceMap_isEmpty migDeviceMap
                  then Inl (Errorf ''all devices on the node must be configured with the same migEnabled value'')
                  else Inr (DeviceMap_merge deviceMap migDeviceMap))))"

definition device_map_build :: "rm_config \<Rightarrow> gpu_card list \<Rightarrow> device_map result" where
  "device_map_build cfg gpus =
     bind_result (buildDeviceMapFromConfigResources cfg gpus) (updateDeviceMapWithReplicas (cf_Replicated cfg))"

text \<open>Tegra systems have one device without paths, once per matching resource.\<close>

definition tegra_source :: device_source where
  "tegra_source = \<lparr>src_UUID = Inr ''tegra'', src_Paths = Inr [], src_Numa = Inr (False, - 1)\<rparr>"

fun visit_tegra :: "nat \<Rightarrow> resource_pattern list \<Rightarrow> device_map \<Rightarrow> device_map result" where
  "visit_tegra i [] devices = Inr devices"
| "visit_tegra i (r # rs) devices =
     (if rp_Matches r ''tegra''
      then bind_result (setEntry (rp_Name r) (nat_str i) tegra_source devices) (visit_tegra (Suc i) rs)
      else visit_tegra i rs devices)"

definition buildTegraDeviceMap :: "rm_config \<Rightarrow> device_map result" where
  "buildTegraDeviceMap cfg = visit_tegra 0 (cf_GPUs cfg) []"

section \<open>Default resources\<close>

text \<open>
  \<open>AddDefaultResourcesToConfig\<close>: \<open>matches\<close> and \<open>AddMIGResource\<close> are the configuration library's pattern
  matching and insertion, \<open>profiles\<close> the MIG profiles that NVML lists (with the C and G of their
  info), \<open>hasNVML\<close> and \<open>init\<close> the state of the library.
\<close>

record mig_profile =
  mp_String :: string
  mp_C :: nat
  mp_G :: nat

type_synonym mig_adder = "string \<Rightarrow> string \<Rightarrow> resource_pattern list \<Rightarrow> resource_pattern list result"

definition dotted :: "string \<Rightarrow> string" where
  "dotted s = map (\<lambda>c. if c = CHR ''+'' then CHR ''.'' else c) s"

fun add_profiles :: "mig_adder \<Rightarrow> mig_profile list \<Rightarrow> resource_pattern list \<Rightarrow> resource_pattern list result" where
  "add_profiles add [] migs = Inr migs"
| "add_profiles add (p # ps) migs =
     (if mp_C p \<noteq> mp_G p then add_profiles add ps migs
      else bind_result (add (mp_String p) (dotted (''mig-'' @ mp_String p)) migs) (add_profiles add ps))"

definition AddDefaultResourcesToConfig ::
  "(string \<Rightarrow> string \<Rightarrow> bool) \<Rightarrow> mig_adder \<Rightarrow> bool \<Rightarrow> unit result \<Rightarrow> bool \<Rightarrow> mig_profile list result \<Rightarrow> string \<Rightarrow> rm_config \<Rightarrow>
   rm_config result" where
  "AddDefaultResourcesToConfig matches AddMIGResource hasNVML init FailOnInitError profiles resourceName cfg =
     (let cfg1 = cfg\<lparr>cf_GPUs := cf_GPUs cfg @ [\<lparr>rp_Matches = matches ''*'', rp_Name = resourceName\<rparr>]\<rparr>;
          with_migs = (\<lambda>migs. Inr (cfg1\<lparr>cf_MIGs := migs\<rparr>))
      in case cf_MigStrategy cfg of
           MigStrategySingle \<Rightarrow> bind_result (AddMIGResource ''*'' ''gpu'' (cf_MIGs cfg1)) with_migs
         | MigStrategyMixed \<Rightarrow>
             if \<not> hasNVML then Inr cfg1
             else
               (case init of
                  Inl _ \<Rightarrow> if FailOnInitError then Inl (Errorf ''failed to initialize NVML'') else Inr cfg1
                | Inr _ \<Rightarrow> bind_result profiles (\<lambda>ps. bind_result (add_profiles AddMIGResource ps (cf_MIGs cfg1)) with_migs))
         | MigStrategyNone \<Rightarrow> Inr cfg1)"

section \<open>Resource managers\<close>

datatype manager_kind = NvmlManager | TegraManager

record resource_manager =
  rmg_kind :: manager_kind
  rmg_resource :: string
  rmg_devices :: rm_devices

definition managers_for :: "manager_kind \<Rightarrow> device_map \<Rightarrow> resource_manager list" where
  "managers_for kind deviceMap =
     map (\<lambda>(name, ds). \<lparr>rmg_kind = kind, rmg_resource = name, rmg_devices = ds\<rparr>)
       (filter (\<lambda>(_, ds). ds \<noteq> []) deviceMap)"

definition NewNVMLResourceManagers :: "unit result \<Rightarrow> rm_config \<Rightarrow> gpu_card list \<Rightarrow> resource_manager list result" where
  "NewNVMLResourceManagers init cfg gpus =
     bind_result init (\<lambda>_. bind_result (device_map_build cfg gpus) (\<lambda>dm. Inr (managers_for NvmlManager dm)))"

definition NewTegraResourceManagers :: "rm_config \<Rightarrow> resource_manager list result" where
  "NewTegraResourceManagers cfg =
     bind_result (buildTegraDeviceMap cfg) (\<lambda>dm.
     bind_result (updateDeviceMapWithReplicas (cf_Replicated cfg) dm) (\<lambda>dm. Inr (managers_for TegraManager dm)))"

definition NewResourceManagers ::
  "bool \<Rightarrow> bool \<Rightarrow> bool \<Rightarrow> unit result \<Rightarrow> rm_config \<Rightarrow> gpu_card list \<Rightarrow> resource_manager list result" where
  "NewResourceManagers hasNVML isTegra FailOnInitError init cfg gpus =
     (if \<not> hasNVML \<and> \<not> isTegra then
        (if FailOnInitError then Inl (Errorf ''platform detection failed'') else Inr [])
      else if hasNVML then NewNVMLResourceManagers init cfg gpus
      else NewTegraResourceManagers cfg)"

definition GetDevicePaths :: "resource_manager \<Rightarrow> string list \<Rightarrow> string list" where
  "GetDevicePaths r ids =
     (case rmg_kind r of
        TegraManager \<Rightarrow> []
      | NvmlManager \<Rightarrow>
          [''/dev/nvidiactl'', ''/dev/nvidia-uvm'', ''/dev/nvidia-uvm-tools'', ''/dev/nvidia-modeset'']
          @ Devices_GetPaths (Subset (rmg_devices r) ids))"


section \<open>Properties of annotated ids\<close>

lemma cut_annotation: "CHR '':'' \<notin> set a \<Longrightarrow> cut ''::'' (a @ ''::'' @ b) = Some (a, b)"
  by (induction a) (auto simp: HasPrefix_def)

lemma Split_NewAnnotatedID:
  assumes "CHR '':'' \<notin> set uid" and "- (2 ^ 63) \<le> r" and "r < 2 ^ 63"
  shows "AnnotatedID_Split (NewAnnotatedID uid r) = (uid, r)"
  using cut_annotation [OF assms(1), of "Itoa r"] ParseInt_Itoa [of 64 r] assms(2,3)
  by (simp add: AnnotatedID_Split_def NewAnnotatedID_def)

lemma NewAnnotatedID_inject:
  assumes "CHR '':'' \<notin> set u" and "CHR '':'' \<notin> set v"
  shows "NewAnnotatedID u i = NewAnnotatedID v j \<longleftrightarrow> u = v \<and> i = j"
proof
  assume "NewAnnotatedID u i = NewAnnotatedID v j"
  then have "cut ''::'' (u @ ''::'' @ Itoa i) = cut ''::'' (v @ ''::'' @ Itoa j)"
    by (simp add: NewAnnotatedID_def)
  then show "u = v \<and> i = j"
    unfolding cut_annotation [OF assms(1)] cut_annotation [OF assms(2)] by simp
qed simp

section \<open>Properties of replication\<close>

lemma fold_insert_same:
  "mget_default [] (fold (DeviceMap_insert name) devs m) name =
     fold (\<lambda>d ds. mset_to ds (rd_ID d) d) devs (mget_default [] m name)"
  by (induction devs arbitrary: m) (simp_all add: DeviceMap_insert_def)

lemma mget_fold_by_ID:
  assumes "distinct (map rd_ID devs)"
  shows "mget (fold (\<lambda>d ds. mset_to ds (rd_ID d) d) devs base) k = Some e \<longleftrightarrow>
     (e \<in> set devs \<and> rd_ID e = k) \<or> (k \<notin> rd_ID ` set devs \<and> mget base k = Some e)"
  using assms
proof (induction devs arbitrary: base)
  case (Cons d devs)
  have "rd_ID d \<notin> rd_ID ` set devs" using Cons.prems by simp
  then show ?case
    using Cons.IH [of "mset_to base (rd_ID d) d"] Cons.prems by (auto split: if_splits)
qed simp

text \<open>Devices filed under their own id, and ids that carry no annotation yet.\<close>

definition devices_wf :: "rm_devices \<Rightarrow> bool" where
  "devices_wf ds \<longleftrightarrow> map_ok ds \<and> (\<forall>(k, d)\<in>set ds. rd_ID d = k)"

definition plain_ids :: "rm_devices \<Rightarrow> bool" where
  "plain_ids ds \<longleftrightarrow> (\<forall>(k, d)\<in>set ds. CHR '':'' \<notin> set k)"

lemma GetIDs_keys: "devices_wf ds \<Longrightarrow> Devices_GetIDs ds = map fst ds"
  by (auto simp: devices_wf_def Devices_GetIDs_def)

lemma mget_Subset: "mget (Subset ds ids) k = (if k \<in> set ids then mget ds k else None)"
proof -
  have "mget (fold (\<lambda>i res. case mget ds i of None \<Rightarrow> res | Some d \<Rightarrow> mset_to res i d) ids base) k =
      (if k \<in> set ids \<and> mget ds k \<noteq> None then mget ds k else mget base k)" for base
    by (induction ids arbitrary: base) (auto split: option.splits)
  then show ?thesis by (auto simp: Subset_def)
qed

lemma map_ok_Subset: "map_ok (Subset ds ids)"
  unfolding Subset_def by (rule fold_invariant_set [where I = map_ok]) (auto split: option.splits)

lemma Difference_all: "Difference ds (Subset ds (map fst ds)) = []"
proof -
  have "mget ds k \<noteq> None" if "(k, d) \<in> set ds" for k d
    using that mget_None_iff [of ds k] by (metis fst_conv image_eqI)
  then show ?thesis
    by (force simp: Difference_def Devices_Contains_def mget_Subset filter_empty_conv)
qed

lemma concat_replicas:
  assumes "devices_wf ds"
  shows "concat (map (replicas_of ds n) (map fst ds)) =
     concat (map (\<lambda>(k, d). map (\<lambda>i. d\<lparr>rd_ID := NewAnnotatedID k (int i)\<rparr>) [0..<n]) ds)"
proof -
  have "replicas_of ds n k = map (\<lambda>i. d\<lparr>rd_ID := NewAnnotatedID k (int i)\<rparr>) [0..<n]" if "(k, d) \<in> set ds" for k d
    using that assms mget_Some_iff [of ds k d] by (simp add: replicas_of_def devices_wf_def)
  then show ?thesis by (intro arg_cong [where f = concat]) auto
qed

lemma distinct_annotated:
  assumes "distinct ks" and "\<forall>k\<in>set ks. CHR '':'' \<notin> set k"
  shows "distinct (concat (map (\<lambda>k. map (\<lambda>i. NewAnnotatedID k (int i)) [0..<n]) ks))"
  using assms
proof (induction ks)
  case (Cons k ks)
  have inj: "distinct (map (\<lambda>i. NewAnnotatedID k (int i)) [0..<n])"
    using Cons.prems(2) NewAnnotatedID_inject [of k k] by (simp add: distinct_map inj_on_def)
  have "NewAnnotatedID k (int i) \<noteq> NewAnnotatedID u (int j)" if "u \<in> set ks" for u i j
    using that Cons.prems NewAnnotatedID_inject [of k u] by auto
  then show ?case using Cons inj by auto
qed simp

lemma distinct_replica_ids:
  assumes "map_ok ds" and "plain_ids ds"
  shows "distinct (map rd_ID (concat (map (\<lambda>(k, d). map (\<lambda>i. d\<lparr>rd_ID := NewAnnotatedID k (int i)\<rparr>) [0..<n]) ds)))"
proof -
  have "map rd_ID (concat (map (\<lambda>(k, d). map (\<lambda>i. d\<lparr>rd_ID := NewAnnotatedID k (int i)\<rparr>) [0..<n]) ds)) =
      concat (map (\<lambda>k. map (\<lambda>i. NewAnnotatedID k (int i)) [0..<n]) (map fst ds))"
    by (induction ds) auto
  then show ?thesis
    using distinct_annotated [of "map fst ds" n] assms by (simp add: map_ok_def plain_ids_def case_prod_unfold)
qed

lemma mem_replicas:
  assumes "devices_wf ds"
  shows "e \<in> set (concat (map (\<lambda>(k, d). map (\<lambda>i. d\<lparr>rd_ID := NewAnnotatedID k (int i)\<rparr>) [0..<n]) ds)) \<and> rd_ID e = k
     \<longleftrightarrow> (\<exists>uid d i. mget ds uid = Some d \<and> i < n \<and> k = NewAnnotatedID uid (int i) \<and> e = d\<lparr>rd_ID := k\<rparr>)"
proof -
  have get: "mget ds u = Some d \<longleftrightarrow> (u, d) \<in> set ds" for u d
    using assms mget_Some_iff [of ds u d] by (simp add: devices_wf_def)
  show ?thesis
    unfolding get by (auto simp del: map_concat) force+
qed

text \<open>Time-slicing replicates exactly as configured: when all devices of a resource are to be replicated
  \<open>n\<close> times, the new device map holds for that resource, for every original device and every replica
  number below \<open>n\<close>, a copy under the annotated id, and nothing else.\<close>
lemma replicas_exact:
  assumes "mget dm (rpr_Name r) = Some ds" and "devices_wf ds" and "plain_ids ds" and "ds \<noteq> []"
    and "rpd_All (rpr_Devices r)" and "rpr_Rename r = []"
    and "updateDeviceMapWithReplicas [r] dm = Inr dm'"
  shows "mget (mget_default [] dm' (rpr_Name r)) k = Some e \<longleftrightarrow>
     (\<exists>uid d i. mget ds uid = Some d \<and> i < rpr_Replicas r \<and> k = NewAnnotatedID uid (int i) \<and> e = d\<lparr>rd_ID := k\<rparr>)"
proof -
  let ?rest = "filter (\<lambda>(r', _). r' \<notin> {rpr_Name r}) dm"
  let ?devs = "concat (map (\<lambda>(k, d). map (\<lambda>i. d\<lparr>rd_ID := NewAnnotatedID k (int i)\<rparr>) [0..<rpr_Replicas r]) ds)"
  have ids: "getIDsOfDevicesToReplicate dm r = Inr (map fst ds)"
    using assms(1,5) GetIDs_keys [OF assms(2)] by (simp add: getIDsOfDevicesToReplicate_def)
  have orig: "mget_default [] dm (rpr_Name r) = ds" using assms(1) by (simp add: mget_default_def)
  have rest: "mget_default [] ?rest (rpr_Name r) = []"
    by (auto simp: mget_default_def mget_None_iff split: option.splits dest!: mget_SomeD)
  have "dm' = fold (DeviceMap_insert (rpr_Name r)) ?devs ?rest"
    using assms(4,6,7) ids concat_replicas [OF assms(2), of "rpr_Replicas r"]
    by (simp add: updateDeviceMapWithReplicas_def replicate_resource_def orig Difference_all Let_def)
  then have "mget_default [] dm' (rpr_Name r) = fold (\<lambda>d ds. mset_to ds (rd_ID d) d) ?devs []"
    by (simp only: fold_insert_same rest)
  then show ?thesis
    using mget_fold_by_ID [OF distinct_replica_ids [OF _ assms(3)], of "rpr_Replicas r" "[]" k e]
      mem_replicas [OF assms(2), of e "rpr_Replicas r" k] assms(2)
    by (simp add: devices_wf_def del: map_concat set_concat)
qed

definition example_rm_device :: "string \<Rightarrow> rm_device" where
  "example_rm_device u = \<lparr>rd_ID = u, rd_Health = Healthy, rd_Topology = None, rd_Paths = [''/dev/nvidia0''], rd_Index = ''0''\<rparr>"

definition example_replicated :: replicated_resource where
  "example_replicated = \<lparr>rpr_Name = ''nvidia.com/gpu'', rpr_Rename = [],
     rpr_Devices = \<lparr>rpd_All = True, rpd_Count = 0, rpd_List = []\<rparr>, rpr_Replicas = 2\<rparr>"

lemma replicas_exact_example:
  "\<exists>dm' e. updateDeviceMapWithReplicas [example_replicated] [(''nvidia.com/gpu'', [(''GPU-1'', example_rm_device ''GPU-1'')])] = Inr dm'
     \<and> mget (mget_default [] dm' ''nvidia.com/gpu'') ''GPU-1::1'' = Some e"
proof -
  let ?dm = "[(''nvidia.com/gpu'', [(''GPU-1'', example_rm_device ''GPU-1'')])]"
  obtain dm' where u: "updateDeviceMapWithReplicas [example_replicated] ?dm = Inr dm'"
    by (simp add: updateDeviceMapWithReplicas_def replicate_resource_def getIDsOfDevicesToReplicate_def
        example_replicated_def Devices_GetIDs_def Let_def)
  have h: "mget ?dm (rpr_Name example_replicated) = Some [(''GPU-1'', example_rm_device ''GPU-1'')]"
    "devices_wf [(''GPU-1'', example_rm_device ''GPU-1'')]" "plain_ids [(''GPU-1'', example_rm_device ''GPU-1'')]"
    "[(''GPU-1'', example_rm_device ''GPU-1'')] \<noteq> []" "rpd_All (rpr_Devices example_replicated)" "rpr_Rename example_replicated = []"
    by (simp_all add: example_replicated_def devices_wf_def plain_ids_def example_rm_device_def)
  have anno: "''GPU-1::1'' = NewAnnotatedID ''GPU-1'' (int 1)"
    by (simp add: NewAnnotatedID_def Itoa_def nat_str.simps digit_char_def char_of_def bit_0)
  let ?e = "(example_rm_device ''GPU-1'')\<lparr>rd_ID := ''GPU-1::1''\<rparr>"
  have "\<exists>uid d i. mget [(''GPU-1'', example_rm_device ''GPU-1'')] uid = Some d \<and> i < rpr_Replicas example_replicated
      \<and> ''GPU-1::1'' = NewAnnotatedID uid (int i) \<and> ?e = d\<lparr>rd_ID := ''GPU-1::1''\<rparr>"
    by (intro exI [of _ "''GPU-1''"] exI [of _ "example_rm_device ''GPU-1''"] exI [of _ "1::nat"] conjI anno)
      (simp_all add: example_replicated_def)
  then have "mget (mget_default [] dm' (rpr_Name example_replicated)) ''GPU-1::1'' = Some ?e"
    unfolding replicas_exact [OF h u] .
  then show ?thesis
    using u by (auto simp: example_replicated_def)
qed

text \<open>An unreadable card hides every card after it: \<open>buildGPUDeviceMap\<close> drops the error of
  \<open>VisitDevices\<close>, so the device map is the one of the cards before it, without any report.\<close>
lemma unreadable_gpu_hides_rest:
  assumes "gc_Name g = Inl e"
  shows "buildGPUDeviceMap cfg (gs @ g # rest) = buildGPUDeviceMap cfg gs"
proof -
  have "visit_gpus cfg i (gs @ g # rest) dm = visit_gpus cfg i gs dm" for i dm
    using assms by (induction gs arbitrary: i dm) (auto simp: visit_gpu_def split: sum.splits)
  then show ?thesis by (simp add: buildGPUDeviceMap_def)
qed

definition example_source :: "string \<Rightarrow> device_source" where
  "example_source u = \<lparr>src_UUID = Inr u, src_Paths = Inr [''/dev/nvidia0''], src_Numa = Inr (False, 0)\<rparr>"

definition example_card :: "string result \<Rightarrow> string \<Rightarrow> gpu_card" where
  "example_card n u = \<lparr>gc_Name = n, gc_MigEnabled = Inr False, gc_Source = example_source u, gc_Migs = Inr []\<rparr>"

definition example_rm_config :: rm_config where
  "example_rm_config = \<lparr>cf_MigStrategy = MigStrategyNone, cf_GPUs = [\<lparr>rp_Matches = (\<lambda>_. True), rp_Name = ''nvidia.com/gpu''\<rparr>],
     cf_MIGs = [], cf_Replicated = [], cf_HasDXCore = False\<rparr>"

lemma unreadable_gpu_hides_rest_example:
  "map (map fst \<circ> snd) (buildGPUDeviceMap example_rm_config
      [example_card (Inr ''A100'') ''GPU-1'', example_card (Inl (Errorf ''lost'')) ''GPU-2'', example_card (Inr ''A100'') ''GPU-3''])
     = [[''GPU-1'']]"
proof -
  have "gc_Name (example_card (Inl (Errorf ''lost'')) ''GPU-2'') = Inl (Errorf ''lost'')"
    by (simp add: example_card_def)
  from unreadable_gpu_hides_rest [OF this, of example_rm_config "[example_card (Inr ''A100'') ''GPU-1'']"]
  show ?thesis
    by (simp add: buildGPUDeviceMap_def visit_gpu_def example_card_def example_rm_config_def newGPUDevice_def setEntry_def
        BuildDevice_def example_source_def DeviceMap_insert_def)
qed

end
