(* ===== verification/Nvidia_Plugin.thy ===== *)
theory Nvidia_Plugin
  imports Handover Rm_Devices Float32
begin

text \<open>
  The NVIDIA device plugin's server and registration
  (\<open>pkg/device-plugin/nvidiadevice/nvinternal/plugin/server.go\<close>, \<open>register.go\<close>).  The kubelet calls \<open>Allocate\<close> for a container of the pod the
  scheduler has bound; the plugin reads the assignment from the pod's annotations, answers with the
  environment and mounts, erases the assignment, marks the pod and releases the node lock.  The state
  is what the API server holds: the pod's annotations and the node with its lock.
\<close>

section \<open>The response\<close>

datatype id_strategy = DeviceIDStrategyUUID | DeviceIDStrategyIndex

record allocate_response =
  ar_Envs :: "(string, string) gomap"
  ar_Mounts :: "(string \<times> string \<times> bool) list"
  ar_Devices :: "(string \<times> string \<times> string) list"
  ar_Annotations :: "(string, string) gomap"

record plugin_config =
  pc_manager :: resource_manager
  pc_strategy :: id_strategy
  pc_PassDeviceSpecs :: bool
  pc_DriverRoot :: string
  pc_GDSEnabled :: bool
  pc_MOFEDEnabled :: bool
  pc_cdiEnabled :: bool
  pc_cdiAnnotations :: bool
  pc_cdiPrefix :: string
  pc_FailGreaterThanOne :: bool
  pc_MemoryOversubscribed :: bool
  pc_DisableCoreLimit :: bool
  pc_HookPath :: string

text \<open>
  What the plugin asks of its surroundings: the fresh ids (\<open>uuid.New\<close>) of the \<open>n\<close>-th container
  request, the CDI library, the file system.
\<close>

record plugin_env =
  pe_response_id :: "nat \<Rightarrow> string"
  pe_cache_id :: "nat \<Rightarrow> string"
  pe_QualifiedName :: "string \<Rightarrow> string \<Rightarrow> string"
  pe_UpdateAnnotations :: "string \<Rightarrow> string list \<Rightarrow> annotations result"
  pe_exists :: "string \<Rightarrow> bool"

text \<open>\<open>filepath.Join\<close> of an absolute path to the driver's root: the joined path, cleaned.\<close>

definition path_Clean :: "string \<Rightarrow> string" where
  "path_Clean s =
     ''/'' @ Join (fold (\<lambda>seg acc. if seg = [] \<or> seg = ''.'' then acc else if seg = ''..'' then butlast acc else acc @ [seg])
                  (Split CHR ''/'' s) []) ''/''"

definition filepath_Join :: "string \<Rightarrow> string \<Rightarrow> string" where
  "filepath_Join a b = path_Clean (if a = [] then b else a @ ''/'' @ b)"

definition deviceIDsFromAnnotatedDeviceIDs :: "plugin_config \<Rightarrow> string list \<Rightarrow> string list" where
  "deviceIDsFromAnnotatedDeviceIDs cfg ids =
     (case pc_strategy cfg of
        DeviceIDStrategyUUID \<Rightarrow> AnnotatedIDs_GetIDs ids
      | DeviceIDStrategyIndex \<Rightarrow> GetIndices (Subset (rmg_devices (pc_manager cfg)) ids))"

definition apiEnvs :: "string \<Rightarrow> string list \<Rightarrow> (string, string) gomap" where
  "apiEnvs envvar deviceIDs = [(envvar, Join deviceIDs '','')]"

definition apiDeviceSpecs :: "plugin_config \<Rightarrow> plugin_env \<Rightarrow> string list \<Rightarrow> (string \<times> string \<times> string) list" where
  "apiDeviceSpecs cfg env ids =
     (let optional = [''/dev/nvidiactl'', ''/dev/nvidia-uvm'', ''/dev/nvidia-uvm-tools'', ''/dev/nvidia-modeset''];
          paths = GetDevicePaths (pc_manager cfg) ids
      in map (\<lambda>p. (p, filepath_Join (pc_DriverRoot cfg) p, ''rw''))
           (filter (\<lambda>p. p \<notin> set optional \<or> pe_exists env p) paths))"

definition getCDIDeviceAnnotations :: "plugin_config \<Rightarrow> plugin_env \<Rightarrow> string \<Rightarrow> string list \<Rightarrow> annotations result" where
  "getCDIDeviceAnnotations cfg env responseID devices =
     bind_result (pe_UpdateAnnotations env responseID devices) (\<lambda>annos.
       if pc_cdiPrefix cfg = ''cdi.k8s.io/'' then Inr annos
       else Inr (fold (\<lambda>(k, v) m. mset_to m (pc_cdiPrefix cfg @ TrimPrefix k ''cdi.k8s.io/'') v) annos []))"

definition getAllocateResponseForCDI ::
  "plugin_config \<Rightarrow> plugin_env \<Rightarrow> string \<Rightarrow> string list \<Rightarrow> annotations result" where
  "getAllocateResponseForCDI cfg env responseID deviceIDs =
     (if \<not> pc_cdiEnabled cfg then Inr []
      else
        let devices = map (pe_QualifiedName env ''gpu'') deviceIDs
              @ (if pc_GDSEnabled cfg then [pe_QualifiedName env ''gds'' ''all''] else [])
              @ (if pc_MOFEDEnabled cfg then [pe_QualifiedName env ''mofed'' ''all''] else [])
        in if devices = [] then Inr []
           else if pc_cdiAnnotations cfg then getCDIDeviceAnnotations cfg env responseID devices
           else Inr [])"

definition getAllocateResponse ::
  "plugin_config \<Rightarrow> plugin_env \<Rightarrow> nat \<Rightarrow> string list \<Rightarrow> allocate_response result" where
  "getAllocateResponse cfg env n requestIds =
     (let deviceIDs = deviceIDsFromAnnotatedDeviceIDs cfg requestIds
      in bind_result (getAllocateResponseForCDI cfg env (pe_response_id env n) deviceIDs) (\<lambda>annos.
           let envs = apiEnvs ''NVIDIA_VISIBLE_DEVICES'' deviceIDs;
               envs = (if pc_GDSEnabled cfg then mset_to envs ''NVIDIA_GDS'' ''enabled'' else envs);
               envs = (if pc_MOFEDEnabled cfg then mset_to envs ''NVIDIA_MOFED'' ''enabled'' else envs)
           in Inr \<lparr>ar_Envs = envs, ar_Mounts = [],
                   ar_Devices = (if pc_PassDeviceSpecs cfg then apiDeviceSpecs cfg env requestIds else []),
                   ar_Annotations = annos\<rparr>))"

section \<open>Allocate\<close>

definition limit_key :: "nat \<Rightarrow> string" where
  "limit_key i = ''CUDA_DEVICE_MEMORY_LIMIT_'' @ nat_str i"

definition limit_envs :: "container_devices \<Rightarrow> (string, string) gomap \<Rightarrow> (string, string) gomap" where
  "limit_envs devreq envs =
     fold (\<lambda>(i, dev) m. mset_to m (limit_key i) (Itoa (cd_Usedmem dev) @ ''m'')) (enumerate 0 devreq) envs"

definition vgpu_envs ::
  "plugin_config \<Rightarrow> string \<Rightarrow> container_devices \<Rightarrow> (string, string) gomap \<Rightarrow> (string, string) gomap" where
  "vgpu_envs cfg cacheID devreq envs =
     (let e1 = mset_to (limit_envs devreq envs) ''CUDA_DEVICE_SM_LIMIT'' (Itoa (cd_Usedcores (hd devreq)));
          e2 = mset_to e1 ''CUDA_DEVICE_MEMORY_SHARED_CACHE'' (pc_HookPath cfg @ ''/vgpu/'' @ cacheID @ ''.cache'');
          e3 = (if pc_MemoryOversubscribed cfg then mset_to e2 ''CUDA_OVERSUBSCRIBE'' ''true'' else e2)
      in if pc_DisableCoreLimit cfg then mset_to e3 ''GPU_CORE_UTILIZATION_POLICY'' ''disable'' else e3)"

definition vgpu_mounts :: "plugin_config \<Rightarrow> plugin_env \<Rightarrow> pod \<Rightarrow> container \<Rightarrow> (string \<times> string \<times> bool) list" where
  "vgpu_mounts cfg env current ctr =
     (let h = pc_HookPath cfg;
          dir = h @ ''/vgpu/containers/'' @ pod_UID current @ ''_'' @ ctr_Name ctr
      in [(h @ ''/vgpu/libvgpu.so'', h @ ''/vgpu/libvgpu.so'', True), (h @ ''/vgpu'', dir, False),
          (''/tmp/vgpulock'', ''/tmp/vgpulock'', False)]
         @ (if \<not> list_ex (\<lambda>(n, _). n = ''CUDA_DISABLE_CONTROL'') (ctr_Env ctr)
            then [(''/etc/ld.so.preload'', h @ ''/vgpu/ld.so.preload'', True)] else [])
         @ (if pe_exists env (h @ ''/vgpu/license'')
            then [(''/vgpu/'', h @ ''/vgpu/license'', True), (''/usr/bin/vgpuvalidator'', h @ ''/vgpu/vgpuvalidator'', True)]
            else []))"

definition allocate_mig :: "plugin_config \<Rightarrow> plugin_env \<Rightarrow> nat \<Rightarrow> string list \<Rightarrow> allocate_response result" where
  "allocate_mig cfg env n ids =
     (if pc_FailGreaterThanOne cfg \<and> AnyHasAnnotations ids \<and> length ids > 1
      then Inl (Errorf ''maximum request size for shared resources is 1'')
      else if list_ex (\<lambda>i. \<not> Devices_Contains (rmg_devices (pc_manager cfg)) [i]) ids
      then Inl (Errorf ''invalid allocation request: unknown device'')
      else getAllocateResponse cfg env n ids)"

text \<open>
  One container request.  \<open>current\<close> is the plugin's copy of the pod, read once at the start of the
  call; \<open>st\<close> is what the server holds.
\<close>

definition allocate_one ::
  "plugin_config \<Rightarrow> plugin_env \<Rightarrow> patch_api \<Rightarrow> annotations \<Rightarrow> pod \<Rightarrow> nat \<Rightarrow> string list \<Rightarrow> cluster_state \<Rightarrow>
   allocate_response result \<times> cluster_state" where
  "allocate_one cfg env api_patch inreq current n ids st =
     (case ids of
        [] \<Rightarrow> (Inl (GoPanic ''index out of range''), st)
      | first # _ \<Rightarrow>
          if Contains first ''MIG'' then (allocate_mig cfg env n ids, st)
          else
            case GetNextDeviceRequest inreq NvidiaGPUDevice current of
              Inl e \<Rightarrow> (Inl e, if is_panic (Inl e :: unit result) then st else PodAllocationFailed api_patch st)
            | Inr (ctr, devreq) \<Rightarrow>
                if length devreq \<noteq> length ids
                then (Inl (Errorf ''device allocate number not matched''), PodAllocationFailed api_patch st)
                else
                  case getAllocateResponse cfg env n (GetContainerDeviceStrArray devreq) of
                    Inl e \<Rightarrow> (Inl e, st)
                  | Inr response \<Rightarrow>
                      (case EraseNextDeviceTypeFromAnnotation (\<lambda>_. api_patch (cl_annos st)) inreq NvidiaGPUDevice current of
                         Inl e \<Rightarrow> (Inl e, PodAllocationFailed api_patch st)
                       | Inr erased \<Rightarrow>
                           (Inr (response\<lparr>ar_Envs := vgpu_envs cfg (pe_cache_id env n) devreq (ar_Envs response),
                                          ar_Mounts := ar_Mounts response @ vgpu_mounts cfg env current ctr\<rparr>),
                            st\<lparr>cl_annos := pod_Annotations erased\<rparr>)))"

fun allocate_all ::
  "plugin_config \<Rightarrow> plugin_env \<Rightarrow> patch_api \<Rightarrow> annotations \<Rightarrow> pod \<Rightarrow> nat \<Rightarrow> string list list \<Rightarrow> cluster_state \<Rightarrow>
   allocate_response list result \<times> cluster_state" where
  "allocate_all cfg env api_patch inreq current n [] st = (Inr [], st)"
| "allocate_all cfg env api_patch inreq current n (ids # reqs) st =
     (case allocate_one cfg env api_patch inreq current n ids st of
        (Inl e, st1) \<Rightarrow> (Inl e, st1)
      | (Inr r, st1) \<Rightarrow>
          (case allocate_all cfg env api_patch inreq current (Suc n) reqs st1 of
             (Inl e, st2) \<Rightarrow> (Inl e, st2)
           | (Inr rs, st2) \<Rightarrow> (Inr (r # rs), st2)))"

definition Allocate ::
  "plugin_config \<Rightarrow> plugin_env \<Rightarrow> patch_api \<Rightarrow> annotations \<Rightarrow> bool \<Rightarrow> pod list result \<Rightarrow> string \<Rightarrow> string list list \<Rightarrow>
   cluster_state \<Rightarrow> allocate_response list result \<times> cluster_state" where
  "Allocate cfg env api_patch inreq get_ok podlist nodename reqs st =
     (case GetPendingPod podlist nodename of
        Inl e \<Rightarrow> (Inl e, st\<lparr>cl_lock := snd (ReleaseNodeLock (cl_lock st))\<rparr>)
      | Inr current \<Rightarrow>
          (case allocate_all cfg env api_patch inreq current 0 reqs st of
             (Inl e, st1) \<Rightarrow> (Inl e, st1)
           | (Inr rs, st1) \<Rightarrow> (Inr rs, PodAllocationTrySuccess api_patch get_ok st1)))"

section \<open>Life cycle\<close>

text \<open>
  The part of \<open>NvidiaDevicePlugin\<close> that is made anew at every start.  \<open>ps_server\<close> says that the field is not nil,
  \<open>ps_serving\<close> that the goroutine of \<open>Serve\<close> serves the socket with the server of the field, and \<open>ps_orphans\<close>
  counts the servers that still serve after the field was set to another value.  A channel is \<open>None\<close> when nil;
  closing a nil or a closed channel panics.
\<close>

record plugin_state =
  ps_server :: bool
  ps_serving :: bool
  ps_orphans :: nat
  ps_stop :: "bool option"

definition initialize :: "plugin_state \<Rightarrow> plugin_state" where
  "initialize p = p\<lparr>ps_server := True, ps_serving := False, ps_orphans := ps_orphans p + of_bool (ps_serving p),
     ps_stop := Some False\<rparr>"

definition cleanup :: "plugin_state \<Rightarrow> plugin_state result" where
  "cleanup p =
     (case ps_stop p of
        None \<Rightarrow> Inl (GoPanic ''close of nil channel'')
      | Some True \<Rightarrow> Inl (GoPanic ''close of closed channel'')
      | Some False \<Rightarrow>
          Inr (p\<lparr>ps_server := False, ps_serving := False, ps_orphans := ps_orphans p + of_bool (ps_serving p), ps_stop := None\<rparr>))"

text \<open>
  \<open>Stop\<close>: the server is stopped first; a socket file that cannot be removed is an error, and then the plugin is not
  cleaned up.
\<close>

definition Stop :: "unit result \<Rightarrow> plugin_state \<Rightarrow> unit result \<times> plugin_state" where
  "Stop remove_socket p =
     (if \<not> ps_server p then (Inr (), p)
      else
        let p1 = p\<lparr>ps_serving := False\<rparr>
        in case remove_socket of
             Inl e \<Rightarrow> (Inl e, p1)
           | Inr _ \<Rightarrow> (case cleanup p1 of Inl e \<Rightarrow> (Inl e, p1) | Inr p' \<Rightarrow> (Inr (), p')))"

text \<open>
  \<open>Serve\<close>: the removal of an old socket is not checked.  Once the socket is open a goroutine serves it, and the
  plugin dials it to see that the server is up; when that fails, \<open>Serve\<close> returns the error while the goroutine goes on.
\<close>

definition Serve :: "unit result \<Rightarrow> unit result \<Rightarrow> plugin_state \<Rightarrow> unit result \<times> plugin_state" where
  "Serve listen dial p =
     (case listen of
        Inl e \<Rightarrow> (Inl e, p)
      | Inr _ \<Rightarrow>
          let p1 = p\<lparr>ps_serving := True\<rparr>
          in case dial of Inl e \<Rightarrow> (Inl e, p1) | Inr _ \<Rightarrow> (Inr (), p1))"

definition Start ::
  "unit result \<Rightarrow> unit result \<Rightarrow> unit result \<Rightarrow> unit result \<Rightarrow> plugin_state \<Rightarrow> unit result \<times> plugin_state" where
  "Start listen dial register remove_socket p =
     (case Serve listen dial (initialize p) of
        (Inl e, p1) \<Rightarrow> (case cleanup p1 of Inl pe \<Rightarrow> (Inl pe, p1) | Inr p2 \<Rightarrow> (Inl e, p2))
      | (Inr _, p1) \<Rightarrow>
          (case register of
             Inl e \<Rightarrow>
               (case Stop remove_socket p1 of
                  (Inl (GoPanic m), p2) \<Rightarrow> (Inl (GoPanic m), p2)
                | (_, p2) \<Rightarrow> (Inl e, p2))
           | Inr _ \<Rightarrow> (Inr (), p1)))"

section \<open>Registering\<close>

text \<open>The socket of a plugin; \<open>name\<close> is the last part of its resource, as the configuration library splits it.\<close>

definition plugin_socket :: "string \<Rightarrow> string" where
  "plugin_socket name = DevicePluginPath @ ''nvidia-'' @ name @ ''.sock''"

definition Register :: "unit result \<Rightarrow> (register_request \<Rightarrow> unit result) \<Rightarrow> string \<Rightarrow> string \<Rightarrow> unit result" where
  "Register dial_kubelet register socket resource =
     bind_result dial_kubelet (\<lambda>_.
       register \<lparr>rr_Version = ''v1beta1'', rr_Endpoint = Base socket, rr_ResourceName = resource, rr_PreferredAllocation = True\<rparr>)"

definition GetDevicePluginOptions :: bool where
  "GetDevicePluginOptions = True"

text \<open>Preferred allocations are announced, but no container request is answered.\<close>

definition GetPreferredAllocation :: "(string list \<times> string list \<times> int) list \<Rightarrow> string list list result" where
  "GetPreferredAllocation requests = Inr []"

section \<open>Listing and restarting\<close>

text \<open>\<open>ListAndWatch\<close>: a device named on the health channel becomes unhealthy for good.\<close>

definition mark_unhealthy :: "string \<Rightarrow> rm_devices \<Rightarrow> rm_devices" where
  "mark_unhealthy uid ds = map (\<lambda>(k, d). (k, if rd_ID d = uid then d\<lparr>rd_Health := Unhealthy\<rparr> else d)) ds"

definition ListAndWatch :: "nat \<Rightarrow> rm_devices \<Rightarrow> string list \<Rightarrow> (string \<times> string) list result list" where
  "ListAndWatch splitCount ds events =
     map (GetPluginDevices splitCount) (map (\<lambda>n. fold mark_unhealthy (take n events) ds) [0..<Suc (length events)])"

text \<open>
  \<open>Serve\<close>: the counter of crashes of the gRPC server; \<open>None\<close> is the fatal exit.  A crash more than an
  hour after the last one resets the counter.
\<close>

definition serve_crash :: "nat \<Rightarrow> nat \<Rightarrow> nat option" where
  "serve_crash restartCount timeSinceLastCrash =
     (if restartCount > 5 then None
      else if timeSinceLastCrash > 3600 then Some 1 else Some (restartCount + 1))"

text \<open>The goroutine that serves, on the seconds between its crashes; the server runs on, or the process has quit.\<close>

fun serve_loop :: "nat list \<Rightarrow> nat \<Rightarrow> nat option" where
  "serve_loop [] restartCount = Some restartCount"
| "serve_loop (t # crashes) restartCount = Option.bind (serve_crash restartCount t) (serve_loop crashes)"

section \<open>Registration\<close>

text \<open>\<open>strings.ReplaceAll(s, "\\t\\t", "\\t")\<close>.\<close>

fun squeeze_tabs :: "string \<Rightarrow> string" where
  "squeeze_tabs (a # b # s) =
     (if a = CHR 0x09 \<and> b = CHR 0x09 then CHR 0x09 # squeeze_tabs s else a # squeeze_tabs (b # s))"
| "squeeze_tabs s = s"

fun numa_column :: "nat \<Rightarrow> nat \<Rightarrow> string list \<Rightarrow> nat" where
  "numa_column i col [] = col"
| "numa_column i col (h # hs) = numa_column (Suc i) (if Contains h ''NUMA Affinity'' then i else col) hs"

text \<open>
  The loop over the lines of \<open>nvidia-smi topo -m\<close>.  The result is the pair Go returns: the number and
  whether the error is nil.  \<open>result, err := strconv.Atoi(...)\<close> inside the loop declares a new
  variable: the outer \<open>result\<close>, which the function returns at its end, is never assigned.
\<close>

fun numa_lines :: "int \<Rightarrow> nat \<Rightarrow> nat \<Rightarrow> int \<Rightarrow> string list \<Rightarrow> (int \<times> bool) result" where
  "numa_lines idx index col res [] = Inr (res, True)"
| "numa_lines idx index col res (val # vals) =
     (if \<not> Contains val ''GPU'' then numa_lines idx (Suc index) col res vals
      else
        let words = Split CHR 0x09 (squeeze_tabs val)
        in if index = 0 then numa_lines idx (Suc index) (numa_column 0 col words) res vals
           else if Contains (hd words) (Itoa idx) then
             (if length words \<le> col then Inl (GoPanic ''index out of range'')
              else if words ! col = ''N/A'' then Inr (0, True)
              else case Atoi (words ! col) of
                     (inner, ok) \<Rightarrow> if \<not> ok then Inr (inner, False) else numa_lines idx (Suc index) col res vals)
           else numa_lines idx (Suc index) col res vals)"

definition parseNvidiaNumaInfo :: "int \<Rightarrow> string \<Rightarrow> (int \<times> bool) result" where
  "parseNvidiaNumaInfo idx nvidiaTopoStr = numa_lines idx 0 0 0 (Split CHR 0x0A nvidiaTopoStr)"

text \<open>\<open>None\<close> is a failing \<open>nvidia-smi\<close>, which ends the process.\<close>

definition getNumaInformation :: "string option \<Rightarrow> int \<Rightarrow> (int \<times> bool) result" where
  "getNumaInformation out idx =
     (case out of None \<Rightarrow> Inl (GoPanic ''log.Fatalf'') | Some topo \<Rightarrow> parseNvidiaNumaInfo idx topo)"

text \<open>What NVML reports of one card, and the flags of the plugin (\<open>float64\<close> values are rationals).\<close>

record card_info =
  ci_memory :: int
  ci_UUID :: string
  ci_Model :: string

record register_flags =
  rf_DeviceSplitCount :: int
  rf_DeviceMemoryScaling :: rat
  rf_DeviceCoresScaling :: rat

definition registered_mem :: "rat \<Rightarrow> int \<Rightarrow> int" where
  "registered_mem scaling memoryTotal =
     (let mem = i32 (go_div (go_div memoryTotal 1024) 1024)
      in if scaling \<noteq> 1 then i32 (f64_to_int (f64_mult (of_int mem) scaling)) else mem)"

definition card_health :: "rm_devices \<Rightarrow> string \<Rightarrow> bool" where
  "card_health devs uuid =
     (case find (\<lambda>d. rd_ID d = uuid) (map snd devs) of
        None \<Rightarrow> True
      | Some d \<Rightarrow> ToLower (rd_Health d) = ''healthy'')"

definition api_device :: "register_flags \<Rightarrow> rm_devices \<Rightarrow> int \<Rightarrow> card_info \<Rightarrow> api_device_info" where
  "api_device flags devs numa c =
     \<lparr>ad_Index = 0, ad_Id = ci_UUID c, ad_Count = i32 (rf_DeviceSplitCount flags),
      ad_Devmem = registered_mem (rf_DeviceMemoryScaling flags) (ci_memory c),
      ad_Devcore = i32 (f64_to_int (f64_mult (rf_DeviceCoresScaling flags) 100)),
      ad_Type = ''NVIDIA-'' @ ci_Model c, ad_Numa = numa, ad_Health = card_health devs (ci_UUID c)\<rparr>"

text \<open>A card that NVML cannot read makes the plugin panic; an error of the NUMA lookup is only logged.\<close>

fun api_devices_from ::
  "register_flags \<Rightarrow> string option \<Rightarrow> rm_devices \<Rightarrow> nat \<Rightarrow> card_info option list \<Rightarrow> api_device_info list result" where
  "api_devices_from flags topo devs idx [] = Inr []"
| "api_devices_from flags topo devs idx (None # cs) = Inl (GoPanic ''nvml'')"
| "api_devices_from flags topo devs idx (Some c # cs) =
     bind_result (getNumaInformation topo (int idx)) (\<lambda>(numa, _).
       bind_result (api_devices_from flags topo devs (Suc idx) cs) (\<lambda>ds. Inr (api_device flags devs numa c # ds)))"

definition getApiDevices ::
  "register_flags \<Rightarrow> string option \<Rightarrow> rm_devices \<Rightarrow> (nat \<Rightarrow> card_info option) \<Rightarrow> api_device_info list result" where
  "getApiDevices flags topo devs nvml = api_devices_from flags topo devs 0 (map nvml [0..<length devs])"

definition RegistrInAnnotation ::
  "register_flags \<Rightarrow> string option \<Rightarrow> rm_devices \<Rightarrow> (nat \<Rightarrow> card_info option) \<Rightarrow> annotations result \<Rightarrow> patch_api \<Rightarrow> string \<Rightarrow>
   annotations result" where
  "RegistrInAnnotation flags topo devs nvml node api_patch now =
     bind_result (getApiDevices flags topo devs nvml) (\<lambda>devices.
     bind_result node (\<lambda>annos.
       api_patch annos
         (mset_to (mset_to [] ''4pd.io/node-handshake'' (''Reported '' @ now))
            ''4pd.io/node-nvidia-register'' (EncodeNodeDevices devices))))"

text \<open>\<open>WatchAndRegister\<close>: how long the loop sleeps after each of its rounds, in seconds, until a round
  panics.\<close>

definition WatchAndRegister :: "annotations result list \<Rightarrow> nat list" where
  "WatchAndRegister rounds =
     map (\<lambda>r. case r of Inl _ \<Rightarrow> 5 | Inr _ \<Rightarrow> 30) (takeWhile (\<lambda>r. \<not> is_panic r) rounds)"

text \<open>The kubelet finds the plugin at the endpoint it was told.\<close>

lemma registered_endpoint:
  assumes "CHR ''/'' \<notin> set name"
  shows "DevicePluginPath @ Base (plugin_socket name) = plugin_socket name"
proof -
  have "Base (''/var/lib/kubelet/device-plugins'' @ CHR ''/'' # (''nvidia-'' @ name @ ''.sock'')) = ''nvidia-'' @ name @ ''.sock''"
    by (rule Base_append) (use assms in simp_all)
  then show ?thesis by (simp add: plugin_socket_def DevicePluginPath_def)
qed

text \<open>
  The process quits at the seventh crash when no two of them are more than an hour apart.  The counter is
  looked at before it is reset: after six such crashes the next one is fatal, however long the
  server has run in between.
\<close>

lemma serve_loop_quick:
  "list_all (\<lambda>t. t \<le> 3600) crashes \<Longrightarrow> serve_loop crashes 0 = (if length crashes < 7 then Some (length crashes) else None)"
proof -
  assume quick: "list_all (\<lambda>t. t \<le> 3600) crashes"
  have "serve_loop crashes n = (if n + length crashes < 7 then Some (n + length crashes) else None)" if "n \<le> 6" for n
    using quick that by (induction crashes arbitrary: n) (auto simp: serve_crash_def)
  from this [of 0] show ?thesis by simp
qed

lemma serve_loop_late_crash_fatal:
  "list_all (\<lambda>t. t \<le> 3600) crashes \<Longrightarrow> length crashes = 6 \<Longrightarrow> serve_loop (crashes @ [t]) 0 = None"
proof -
  assume *: "list_all (\<lambda>t. t \<le> 3600) crashes" "length crashes = 6"
  have app: "serve_loop (xs @ ys) n = Option.bind (serve_loop xs n) (serve_loop ys)" for xs ys n
    by (induction xs arbitrary: n) (auto split: Option.bind_splits)
  show ?thesis using serve_loop_quick [OF *(1)] *(2) by (simp add: app serve_crash_def)
qed

section \<open>Lemmas on the response\<close>

lemma cut_None: "CHR '':'' \<notin> set s \<Longrightarrow> cut ''::'' s = None"
  by (induction s) (auto simp: HasPrefix_def)

lemma AnnotatedIDs_plain: "\<forall>u\<in>set us. CHR '':'' \<notin> set u \<Longrightarrow> AnnotatedIDs_GetIDs us = us"
  unfolding AnnotatedIDs_GetIDs_def
  by (rule map_idI) (simp add: AnnotatedID_GetID_def AnnotatedID_Split_def cut_None)

lemma limit_key_inject [simp]: "limit_key i = limit_key j \<longleftrightarrow> i = j"
  by (simp add: limit_key_def)

lemma limit_key_names [simp]:
  "limit_key i \<noteq> ''CUDA_DEVICE_SM_LIMIT''" "limit_key i \<noteq> ''CUDA_DEVICE_MEMORY_SHARED_CACHE''"
  "limit_key i \<noteq> ''CUDA_OVERSUBSCRIBE''" "limit_key i \<noteq> ''GPU_CORE_UTILIZATION_POLICY''"
  "limit_key i \<noteq> ''NVIDIA_VISIBLE_DEVICES''"
  by (simp_all add: limit_key_def)

lemma limit_envs_from:
  "mget (fold (\<lambda>(i, dev) m. mset_to m (limit_key i) (Itoa (cd_Usedmem dev) @ ''m'')) (enumerate n ds) envs) k =
     (if \<exists>i<length ds. k = limit_key (n + i)
      then Some (Itoa (cd_Usedmem (ds ! (THE i. k = limit_key (n + i)))) @ ''m'') else mget envs k)"
proof (induction ds arbitrary: n envs)
  case (Cons d ds)
  show ?case
  proof (cases "k = limit_key n")
    case True
    then show ?thesis using Cons.IH [of "Suc n"] by (auto simp: the_equality)
  next
    case False
    have shift: "(\<exists>i<length (d # ds). k = limit_key (n + i)) \<longleftrightarrow> (\<exists>i<length ds. k = limit_key (Suc n + i))"
      using False by (auto simp: less_Suc_eq_0_disj)
    have "(d # ds) ! (THE i. k = limit_key (n + i)) = ds ! (THE i. k = limit_key (Suc n + i))"
      if "k = limit_key (Suc n + i)" for i
    proof -
      have "(THE j. k = limit_key (n + j)) = Suc i" "(THE j. k = limit_key (Suc n + j)) = i"
        using that by (auto intro!: the_equality)
      then show ?thesis by simp
    qed
    then show ?thesis using Cons.IH [of "Suc n"] shift False by (auto split: if_splits)
  qed
qed simp

lemma mget_limit_envs:
  "i < length ds \<Longrightarrow> mget (limit_envs ds envs) (limit_key i) = Some (Itoa (cd_Usedmem (ds ! i)) @ ''m'')"
  unfolding limit_envs_def limit_envs_from [of 0] by auto

lemma mget_limit_envs_other: "\<forall>i. k \<noteq> limit_key i \<Longrightarrow> mget (limit_envs ds envs) k = mget envs k"
  unfolding limit_envs_def limit_envs_from [of 0] by auto

lemma vgpu_envs_limits:
  "i < length ds \<Longrightarrow> mget (vgpu_envs cfg c ds envs) (limit_key i) = Some (Itoa (cd_Usedmem (ds ! i)) @ ''m'')"
  by (simp add: vgpu_envs_def Let_def mget_limit_envs)

lemma vgpu_envs_cores:
  "mget (vgpu_envs cfg c ds envs) ''CUDA_DEVICE_SM_LIMIT'' = Some (Itoa (cd_Usedcores (hd ds)))"
  by (simp add: vgpu_envs_def Let_def)

lemma vgpu_envs_devices:
  "mget (vgpu_envs cfg c ds envs) ''NVIDIA_VISIBLE_DEVICES'' = mget envs ''NVIDIA_VISIBLE_DEVICES''"
  by (simp add: vgpu_envs_def Let_def mget_limit_envs_other limit_key_names(5) [symmetric])

lemma getAllocateResponse_plain:
  assumes "\<not> pc_cdiEnabled cfg"
  obtains r where "getAllocateResponse cfg env n ids = Inr r"
    "mget (ar_Envs r) ''NVIDIA_VISIBLE_DEVICES'' = Some (Join (deviceIDsFromAnnotatedDeviceIDs cfg ids) '','')"
  using assms by (simp add: getAllocateResponse_def getAllocateResponseForCDI_def apiEnvs_def Let_def)

section \<open>Properties of the plugin\<close>

text \<open>An allocation that finds an assignment.\<close>

lemma Allocate_of_assignment:
  assumes "GetPendingPod podlist nodename = Inr current" and "cl_annos st = pod_Annotations current"
    and "mget (pod_Annotations current) key = Some (EncodePodSingleDevice pd)"
    and "list_all container_device_ok (concat pd)" and "concat pd \<noteq> []" and "pod_Containers current = c # cs"
    and "length ids = length (concat pd)" and "\<not> Contains (hd ids) ''MIG''"
    and "pc_strategy cfg = DeviceIDStrategyUUID" and "\<not> pc_cdiEnabled cfg"
    and "merges api_patch" and "\<And>a p. \<exists>a'. api_patch a p = Inr a'"
    and "mget (pod_Annotations current) AssignedIDsToAllocateAnnotations = None"
    and "key \<noteq> AssignedIDsToAllocateAnnotations" and "key \<noteq> DeviceBindPhase"
  shows "\<exists>r st'. Allocate cfg env api_patch [(NvidiaGPUDevice, key)] True podlist nodename [ids] st = (Inr [r], st')
     \<and> mget (ar_Envs r) ''NVIDIA_VISIBLE_DEVICES'' = Some (Join (map cd_UUID (concat pd)) '','')
     \<and> (\<forall>i<length ids. mget (ar_Envs r) (limit_key i) = Some (Itoa (cd_Usedmem (concat pd ! i)) @ ''m''))
     \<and> mget (ar_Envs r) ''CUDA_DEVICE_SM_LIMIT'' = Some (Itoa (cd_Usedcores (hd (concat pd))))
     \<and> GetNextDeviceRequest [(NvidiaGPUDevice, key)] NvidiaGPUDevice (current\<lparr>pod_Annotations := cl_annos st'\<rparr>)
         = Inl (Errorf ''device request not found'')
     \<and> mget (cl_annos st') DeviceBindPhase = Some DeviceBindSuccess
     \<and> cl_lock st' = snd (ReleaseNodeLock (cl_lock st))"
proof -
  let ?ds = "map forget_idx (concat pd)"
  obtain i0 ids' where ids: "ids = i0 # ids'" using assms(5,7) by (cases ids) auto
  have req: "GetNextDeviceRequest [(NvidiaGPUDevice, key)] NvidiaGPUDevice current = Inr (c, ?ds)"
    by (rule next_request_encoded [OF assms(3-6)])
  obtain p' where p': "EraseNextDeviceTypeFromAnnotation (\<lambda>_. api_patch (cl_annos st)) [(NvidiaGPUDevice, key)] NvidiaGPUDevice current = Inr p'"
    "mget (pod_Annotations p') key = Some (EncodePodSingleDevice [[], []])"
    "\<And>k. k \<noteq> key \<Longrightarrow> mget (pod_Annotations p') k = mget (cl_annos st) k"
    using erase_encoded [OF assms(11,12,3-5)] by metis
  obtain r where r: "getAllocateResponse cfg env 0 (GetContainerDeviceStrArray ?ds) = Inr r"
    "mget (ar_Envs r) ''NVIDIA_VISIBLE_DEVICES'' = Some (Join (deviceIDsFromAnnotatedDeviceIDs cfg (GetContainerDeviceStrArray ?ds)) '','')"
    using getAllocateResponse_plain [OF assms(10)] by metis
  have plain: "\<forall>u\<in>set (map cd_UUID (concat pd)). CHR '':'' \<notin> set u"
    using assms(4) by (auto simp: list_all_iff container_device_ok_def)
  have ids_eq: "deviceIDsFromAnnotatedDeviceIDs cfg (GetContainerDeviceStrArray ?ds) = map cd_UUID (concat pd)"
    unfolding GetContainerDeviceStrArray_def map_UUID_forget
    using AnnotatedIDs_plain [OF plain] assms(9) by (simp add: deviceIDsFromAnnotatedDeviceIDs_def)
  define envs where "envs = vgpu_envs cfg (pe_cache_id env 0) ?ds (ar_Envs r)"
  define r' where "r' = r\<lparr>ar_Envs := envs, ar_Mounts := ar_Mounts r @ vgpu_mounts cfg env current c\<rparr>"
  define st1 where "st1 = st\<lparr>cl_annos := pod_Annotations p'\<rparr>"
  have one: "allocate_one cfg env api_patch [(NvidiaGPUDevice, key)] current 0 ids st = (Inr r', st1)"
    using req r(1) p'(1) assms(7,8) ids by (simp add: allocate_one_def r'_def st1_def envs_def)
  have no_ids: "mget (cl_annos st1) AssignedIDsToAllocateAnnotations = None"
    using p'(3) assms(2,13,14) by (simp add: st1_def)
  have alloc: "Allocate cfg env api_patch [(NvidiaGPUDevice, key)] True podlist nodename [ids] st
      = (Inr [r'], finish_allocation api_patch DeviceBindSuccess st1)"
    using assms(1) one no_ids
    by (simp add: Allocate_def PodAllocationTrySuccess_def mget_default_def DevicesToHandle_def PodAllocationSuccess_def Contains_Nil)
  note phase = finish_allocation_phase [OF assms(11,12), of DeviceBindSuccess st1]
  have lim: "mget envs (limit_key i) = Some (Itoa (cd_Usedmem (concat pd ! i)) @ ''m'')" if "i < length ids" for i
    using that assms(7) by (simp add: envs_def vgpu_envs_limits forget_idx_def del: map_concat)
  have sm: "mget envs ''CUDA_DEVICE_SM_LIMIT'' = Some (Itoa (cd_Usedcores (hd (concat pd))))"
    using assms(5) by (simp add: envs_def vgpu_envs_cores hd_map forget_idx_def del: map_concat)
  have vis: "mget envs ''NVIDIA_VISIBLE_DEVICES'' = Some (Join (map cd_UUID (concat pd)) '','')"
    unfolding envs_def vgpu_envs_devices r(2) ids_eq by simp
  show ?thesis
    using alloc lim sm vis phase [of key] phase [of DeviceBindPhase] assms(15) p'(2)
      no_request_erased [of _ key NvidiaGPUDevice current]
    by (intro exI [of _ r'] exI [of _ "finish_allocation api_patch DeviceBindSuccess st1"])
      (simp add: r'_def st1_def)
qed

text \<open>C17: \<open>Allocate\<close> hands a container exactly what the scheduler assigned: for a request of as many
  devices as were assigned, the answer makes visible the assigned cards in the assigned order, limits
  the memory of the \<open>i\<close>-th one to its share and the cores to the first one's, and afterwards the
  assignment is consumed, the pod is marked successful and the node lock has been released once.\<close>
theorem Allocate_honours_assignment:
  assumes "GetPendingPod podlist nodename = Inr current" and "cl_annos st = pod_Annotations current"
    and "mget (pod_Annotations current) key = Some (EncodePodSingleDevice pd)"
    and "list_all container_device_ok (concat pd)" and "concat pd \<noteq> []" and "pod_Containers current = c # cs"
    and "length ids = length (concat pd)" and "\<not> Contains (hd ids) ''MIG''"
    and "pc_strategy cfg = DeviceIDStrategyUUID" and "\<not> pc_cdiEnabled cfg"
    and "merges api_patch" and "\<And>a p. \<exists>a'. api_patch a p = Inr a'"
    and "mget (pod_Annotations current) AssignedIDsToAllocateAnnotations = None"
    and "key \<noteq> AssignedIDsToAllocateAnnotations" and "key \<noteq> DeviceBindPhase"
  shows "\<exists>r st'. Allocate cfg env api_patch [(NvidiaGPUDevice, key)] True podlist nodename [ids] st = (Inr [r], st')
     \<and> mget (ar_Envs r) ''NVIDIA_VISIBLE_DEVICES'' = Some (Join (map cd_UUID (concat pd)) '','')
     \<and> (\<forall>i<length ids. mget (ar_Envs r) (limit_key i) = Some (Itoa (cd_Usedmem (concat pd ! i)) @ ''m''))
     \<and> mget (ar_Envs r) ''CUDA_DEVICE_SM_LIMIT'' = Some (Itoa (cd_Usedcores (hd (concat pd))))
     \<and> GetNextDeviceRequest [(NvidiaGPUDevice, key)] NvidiaGPUDevice (current\<lparr>pod_Annotations := cl_annos st'\<rparr>)
         = Inl (Errorf ''device request not found'')
     \<and> mget (cl_annos st') DeviceBindPhase = Some DeviceBindSuccess
     \<and> cl_lock st' = snd (ReleaseNodeLock (cl_lock st))"
  by (rule Allocate_of_assignment [OF assms])

definition example_cfg :: plugin_config where
  "example_cfg = \<lparr>pc_manager = \<lparr>rmg_kind = NvmlManager, rmg_resource = ''nvidia.com/gpu'', rmg_devices = []\<rparr>,
     pc_strategy = DeviceIDStrategyUUID, pc_PassDeviceSpecs = False, pc_DriverRoot = ''/'', pc_GDSEnabled = False,
     pc_MOFEDEnabled = False, pc_cdiEnabled = False, pc_cdiAnnotations = False, pc_cdiPrefix = [],
     pc_FailGreaterThanOne = False, pc_MemoryOversubscribed = False, pc_DisableCoreLimit = False,
     pc_HookPath = ''/usr/local''\<rparr>"

definition example_plugin_env :: plugin_env where
  "example_plugin_env = \<lparr>pe_response_id = (\<lambda>_. ''r''), pe_cache_id = (\<lambda>_. ''c''), pe_QualifiedName = (\<lambda>c n. n),
     pe_UpdateAnnotations = (\<lambda>_ _. Inr []), pe_exists = (\<lambda>_. False)\<rparr>"

theorem Allocate_honours_assignment_witness:
  "\<exists>r st'. Allocate example_cfg example_plugin_env patch_always [(NvidiaGPUDevice, ''k'')] True
       (Inr [example_allocating [[example_assignment]]]) ''n1'' [[''UUID1-0'']]
       \<lparr>cl_annos = pod_Annotations (example_allocating [[example_assignment]]), cl_lock = example_world [] []\<rparr> = (Inr [r], st')
     \<and> mget (ar_Envs r) ''NVIDIA_VISIBLE_DEVICES'' = Some ''UUID1''
     \<and> mget (cl_annos st') DeviceBindPhase = Some ''success''"
proof -
  let ?pod = "example_allocating [[example_assignment]]"
  let ?st = "\<lparr>cl_annos = pod_Annotations ?pod, cl_lock = example_world [] []\<rparr>"
  have key: "mget (pod_Annotations ?pod) ''k'' = Some (EncodePodSingleDevice [[example_assignment]])"
    by (simp add: example_allocating_def annotation_names)
  have ok: "list_all container_device_ok (concat [[example_assignment]])" by (simp add: example_assignment_ok)
  have ne: "concat [[example_assignment]] \<noteq> []" by simp
  have ctr: "pod_Containers ?pod = zero_container # []" by (simp add: example_allocating_def example_pod_def)
  have cfg: "pc_strategy example_cfg = DeviceIDStrategyUUID" "\<not> pc_cdiEnabled example_cfg" by (simp_all add: example_cfg_def)
  have patch: "\<exists>a'. patch_always a p = Inr a'" for a p by (simp add: patch_always_def)
  have fresh: "mget (pod_Annotations ?pod) AssignedIDsToAllocateAnnotations = None"
    "''k'' \<noteq> AssignedIDsToAllocateAnnotations" "''k'' \<noteq> DeviceBindPhase"
    by (simp_all add: example_allocating_def annotation_names)
  have ids: "length [''UUID1-0''] = length (concat [[example_assignment]])" "\<not> Contains (hd [''UUID1-0'']) ''MIG''"
    by (simp, code_simp)
  have st: "cl_annos ?st = pod_Annotations ?pod" by simp
  have visible: "Join (map cd_UUID (concat [[example_assignment]])) '','' = ''UUID1''"
    by (simp add: example_assignment_def)
  show ?thesis
    using Allocate_honours_assignment [OF example_allocating_pending st key ok ne ctr ids cfg merges_patch_always patch fresh,
        of example_plugin_env]
    unfolding visible DeviceBindSuccess_def by (elim exE conjE) (intro exI conjI)
qed

text \<open>A pod with several GPU containers cannot start: the annotation does not keep the container
  boundaries, so the plugin finds the devices of all containers in the first request.  When the
  kubelet asks for fewer devices than the whole pod was assigned, \<open>Allocate\<close> fails, marks the pod
  failed and releases the lock.\<close>
lemma Allocate_number_mismatch:
  assumes "GetPendingPod podlist nodename = Inr current"
    and "mget (pod_Annotations current) key = Some (EncodePodSingleDevice pd)"
    and "list_all container_device_ok (concat pd)" and "concat pd \<noteq> []" and "pod_Containers current = c # cs"
    and "0 < length ids" and "length ids < length (concat pd)" and "\<not> Contains (hd ids) ''MIG''"
    and "merges api_patch" and "\<And>a p. \<exists>a'. api_patch a p = Inr a'"
  shows "\<exists>st'. Allocate cfg env api_patch [(NvidiaGPUDevice, key)] get_ok podlist nodename [ids] st
         = (Inl (Errorf ''device allocate number not matched''), st')
     \<and> mget (cl_annos st') DeviceBindPhase = Some DeviceBindFailed
     \<and> cl_lock st' = snd (ReleaseNodeLock (cl_lock st))"
proof -
  have req: "GetNextDeviceRequest [(NvidiaGPUDevice, key)] NvidiaGPUDevice current
      = Inr (c, map forget_idx (concat pd))"
    by (rule next_request_encoded [OF assms(2-5)])
  obtain i0 ids' where ids: "ids = i0 # ids'" using assms(6) by (cases ids) auto
  have "allocate_one cfg env api_patch [(NvidiaGPUDevice, key)] current 0 ids st
      = (Inl (Errorf ''device allocate number not matched''), PodAllocationFailed api_patch st)"
    using req assms(7,8) ids by (simp add: allocate_one_def del: map_concat)
  then show ?thesis
    using assms(1) finish_allocation_phase [OF assms(9,10), of DeviceBindFailed st DeviceBindPhase]
    by (simp add: Allocate_def finish_defs)
qed

lemma Allocate_number_mismatch_at:
  "\<exists>st'. Allocate example_cfg example_plugin_env patch_always [(NvidiaGPUDevice, ''k'')] True
       (Inr [example_allocating [[example_assignment], [example_assignment]]]) ''n1'' [[''UUID1-0'']]
       \<lparr>cl_annos = [], cl_lock = w\<rparr>
       = (Inl (Errorf ''device allocate number not matched''), st')
     \<and> mget (cl_annos st') DeviceBindPhase = Some DeviceBindFailed"
proof -
  let ?pd = "[[example_assignment], [example_assignment]]"
  have key: "mget (pod_Annotations (example_allocating ?pd)) ''k'' = Some (EncodePodSingleDevice ?pd)"
    by (simp add: example_allocating_def annotation_names)
  have ok: "list_all container_device_ok (concat ?pd)" "concat ?pd \<noteq> []" by (simp_all add: example_assignment_ok)
  have ctr: "pod_Containers (example_allocating ?pd) = zero_container # []"
    by (simp add: example_allocating_def example_pod_def)
  have ids: "0 < length [''UUID1-0'']" "length [''UUID1-0''] < length (concat ?pd)" "\<not> Contains (hd [''UUID1-0'']) ''MIG''"
    by (simp, simp, code_simp)
  have patch: "\<exists>a'. patch_always a p = Inr a'" for a p by (simp add: patch_always_def)
  show ?thesis
    using Allocate_number_mismatch [OF example_allocating_pending key ok ctr ids merges_patch_always patch,
        of example_cfg example_plugin_env True "\<lparr>cl_annos = [], cl_lock = w\<rparr>"]
    by (elim exE conjE) (intro exI conjI)
qed

text \<open>
  The ways out of the loop that neither mark the pod nor release the node: a request for MIG devices that is
  refused or cannot be answered, and a whole-GPU request whose response cannot be built.
\<close>

definition silent_request ::
  "plugin_config \<Rightarrow> plugin_env \<Rightarrow> annotations \<Rightarrow> pod \<Rightarrow> nat \<Rightarrow> string list \<Rightarrow> bool" where
  "silent_request cfg env inreq current n ids \<longleftrightarrow> ids \<noteq> [] \<and>
     (if Contains (hd ids) ''MIG'' then isl (allocate_mig cfg env n ids)
      else case GetNextDeviceRequest inreq NvidiaGPUDevice current of
             Inl _ \<Rightarrow> False
           | Inr (_, devreq) \<Rightarrow> length devreq = length ids \<and> isl (getAllocateResponse cfg env n (GetContainerDeviceStrArray devreq)))"

text \<open>Whether the first request that fails, if any, is one of these.\<close>

fun silent_failure ::
  "plugin_config \<Rightarrow> plugin_env \<Rightarrow> patch_api \<Rightarrow> annotations \<Rightarrow> pod \<Rightarrow> nat \<Rightarrow> string list list \<Rightarrow> cluster_state \<Rightarrow> bool" where
  "silent_failure cfg env api_patch inreq current n [] st = False"
| "silent_failure cfg env api_patch inreq current n (ids # reqs) st =
     (silent_request cfg env inreq current n ids
      \<or> (case allocate_one cfg env api_patch inreq current n ids st of
           (Inl _, _) \<Rightarrow> False
         | (Inr _, st1) \<Rightarrow> silent_failure cfg env api_patch inreq current (Suc n) reqs st1))"

lemma silent_request_whole_gpu:
  "\<not> pc_cdiEnabled cfg \<Longrightarrow> \<not> Contains (hd ids) ''MIG'' \<Longrightarrow> \<not> silent_request cfg env inreq current n ids"
  using getAllocateResponse_plain
  by (auto simp: silent_request_def isl_def split: sum.splits) (metis Inl_Inr_False)

lemma silent_failure_whole_gpu:
  "\<not> pc_cdiEnabled cfg \<Longrightarrow> \<forall>ids\<in>set reqs. \<not> Contains (hd ids) ''MIG'' \<Longrightarrow>
     \<not> silent_failure cfg env api_patch inreq current n reqs st"
  by (induction reqs arbitrary: n st) (auto simp: silent_request_whole_gpu split: sum.split prod.split intro: sum.exhaust)

lemma allocate_one_lock:
  assumes "allocate_one cfg env api_patch inreq current n ids st = (r, st')" and "\<not> is_panic r"
  shows "case r of
       Inl _ \<Rightarrow> cl_lock st' = (if silent_request cfg env inreq current n ids then cl_lock st else snd (ReleaseNodeLock (cl_lock st)))
     | Inr _ \<Rightarrow> \<not> silent_request cfg env inreq current n ids \<and> cl_lock st' = cl_lock st"
proof (cases ids)
  case Nil
  then show ?thesis using assms by (auto simp: allocate_one_def is_panic_def)
next
  case ids: (Cons i0 ids')
  show ?thesis
  proof (cases "Contains i0 ''MIG''")
    case True
    then show ?thesis using assms ids by (auto simp: allocate_one_def silent_request_def split: sum.splits)
  next
    case whole: False
    show ?thesis
    proof (cases "GetNextDeviceRequest inreq NvidiaGPUDevice current")
      case (Inl e)
      then show ?thesis
        using assms ids whole by (auto simp: allocate_one_def silent_request_def finish_defs is_panic_def split: if_splits)
    next
      case (Inr cd)
      obtain c ds where cd: "cd = (c, ds)" by (cases cd)
      show ?thesis
        using assms(1) ids whole Inr cd
        by (cases "getAllocateResponse cfg env n (GetContainerDeviceStrArray ds)")
          (auto simp: allocate_one_def silent_request_def finish_defs split: if_splits sum.splits)
    qed
  qed
qed

lemma allocate_one_annos:
  assumes "allocate_one cfg env api_patch inreq current n ids st = (Inr r, st')" and "merges api_patch"
    and "k \<noteq> mget_default [] inreq NvidiaGPUDevice"
  shows "mget (cl_annos st') k = mget (cl_annos st) k"
  using assms EraseNext_patch [OF assms(2,3)]
  by (auto simp: allocate_one_def split: list.splits if_splits sum.splits)

lemma allocate_all_lock:
  assumes "allocate_all cfg env api_patch inreq current n reqs st = (r, st')" and "\<not> is_panic r"
    and "merges api_patch" and "k \<noteq> mget_default [] inreq NvidiaGPUDevice"
  shows "case r of
       Inl _ \<Rightarrow> cl_lock st' = (if silent_failure cfg env api_patch inreq current n reqs st then cl_lock st
                               else snd (ReleaseNodeLock (cl_lock st)))
     | Inr _ \<Rightarrow> \<not> silent_failure cfg env api_patch inreq current n reqs st
         \<and> cl_lock st' = cl_lock st \<and> mget (cl_annos st') k = mget (cl_annos st) k"
  using assms(1,2)
proof (induction reqs arbitrary: n st r st')
  case Nil
  then show ?case by auto
next
  case (Cons ids reqs)
  obtain o1 st1 where one: "allocate_one cfg env api_patch inreq current n ids st = (o1, st1)" by fastforce
  obtain o2 st2 where rest: "allocate_all cfg env api_patch inreq current (Suc n) reqs st1 = (o2, st2)" by fastforce
  show ?case
  proof (cases o1)
    case (Inl e)
    then show ?thesis using Cons.prems allocate_one_lock [OF one] one by (auto simp: is_panic_def)
  next
    case (Inr r1)
    then have keep: "\<not> silent_request cfg env inreq current n ids" "cl_lock st1 = cl_lock st"
        "mget (cl_annos st1) k = mget (cl_annos st) k"
      using allocate_one_lock [OF one] allocate_one_annos [OF one [unfolded Inr] assms(3,4)] by auto
    have "\<not> is_panic o2"
      using Cons.prems one Inr rest by (cases o2) (auto simp: is_panic_def)
    then show ?thesis
      using Cons.IH [OF rest] Cons.prems one Inr rest keep by (auto split: sum.splits)
  qed
qed

text \<open>C18: what \<open>Allocate\<close> does to the node lock, on every path that returns, for pods that carry no list of ids to allocate
  (which nothing writes).  The lock is released exactly once when there is no pending pod, when all requests are
  served, and when a request fails that marks the pod as failed; it stays taken exactly when there is a pending
  pod and the first failing request is a refused MIG request or one whose response cannot be built.  So without
  MIG requests and without CDI the lock is always released.\<close>
theorem Allocate_releases_lock:
  assumes "Allocate cfg env api_patch inreq get_ok podlist nodename reqs st = (r, st')" and "\<not> is_panic r"
    and "merges api_patch" and "AssignedIDsToAllocateAnnotations \<noteq> mget_default [] inreq NvidiaGPUDevice"
    and "mget (cl_annos st) AssignedIDsToAllocateAnnotations = None"
  shows "cl_lock st' =
       (case GetPendingPod podlist nodename of
          Inl _ \<Rightarrow> snd (ReleaseNodeLock (cl_lock st))
        | Inr current \<Rightarrow> if silent_failure cfg env api_patch inreq current 0 reqs st then cl_lock st
                         else snd (ReleaseNodeLock (cl_lock st)))
     \<and> (\<not> pc_cdiEnabled cfg \<longrightarrow> (\<forall>ids\<in>set reqs. \<not> Contains (hd ids) ''MIG'') \<longrightarrow>
          cl_lock st' = snd (ReleaseNodeLock (cl_lock st)))"
proof (cases "GetPendingPod podlist nodename")
  case (Inl e)
  then show ?thesis using assms(1) by (auto simp: Allocate_def)
next
  case (Inr current)
  obtain o1 st1 where all: "allocate_all cfg env api_patch inreq current 0 reqs st = (o1, st1)" by fastforce
  have np: "\<not> is_panic o1"
    using assms(1,2) Inr all by (cases o1) (auto simp: Allocate_def is_panic_def)
  note lock = allocate_all_lock [OF all np assms(3,4)]
  have "cl_lock st' = (if silent_failure cfg env api_patch inreq current 0 reqs st then cl_lock st
      else snd (ReleaseNodeLock (cl_lock st)))"
  proof (cases o1)
    case (Inl e)
    then show ?thesis using lock assms(1) Inr all by (auto simp: Allocate_def)
  next
    case okay: (Inr rs)
    then have "mget (cl_annos st1) AssignedIDsToAllocateAnnotations = None" "cl_lock st1 = cl_lock st"
      using lock assms(5) by auto
    then have "cl_lock (PodAllocationTrySuccess api_patch get_ok st1) = snd (ReleaseNodeLock (cl_lock st))"
      by (simp add: PodAllocationTrySuccess_def mget_default_def DevicesToHandle_def Contains_Nil PodAllocationSuccess_def)
    then show ?thesis using assms(1) Inr all okay lock by (auto simp: Allocate_def)
  qed
  then show ?thesis using Inr silent_failure_whole_gpu by auto
qed

text \<open>A pending pod whose request is answered with an error, first for a GPU, then for a MIG device that the plugin does
  not manage: the first releases the node, the second leaves it locked.\<close>

theorem Allocate_releases_lock_witness:
  "\<exists>st1 e st2. Allocate example_cfg example_plugin_env patch_always [(NvidiaGPUDevice, ''k'')] True
       (Inr [example_allocating [[example_assignment], [example_assignment]]]) ''n1'' [[''UUID1-0'']]
       \<lparr>cl_annos = [], cl_lock = example_world [(''a'', ''b'')] []\<rparr> = (Inl (Errorf ''device allocate number not matched''), st1)
     \<and> cl_lock st1 = snd (ReleaseNodeLock (example_world [(''a'', ''b'')] []))
     \<and> Allocate example_cfg example_plugin_env patch_always [(NvidiaGPUDevice, ''k'')] True
       (Inr [example_allocating [[example_assignment], [example_assignment]]]) ''n1'' [[''MIG-1'']]
       \<lparr>cl_annos = [], cl_lock = example_world [(''a'', ''b'')] []\<rparr> = (Inl (Errorf ''invalid allocation request: unknown device''), st2)
     \<and> cl_lock st2 = example_world [(''a'', ''b'')] []"
proof -
  let ?st = "\<lparr>cl_annos = [], cl_lock = example_world [(''a'', ''b'')] []\<rparr>" and ?pd = "[[example_assignment], [example_assignment]]"
  let ?call = "\<lambda>ids. Allocate example_cfg example_plugin_env patch_always [(NvidiaGPUDevice, ''k'')] True
       (Inr [example_allocating ?pd]) ''n1'' [ids] ?st"
  have key: "AssignedIDsToAllocateAnnotations \<noteq> mget_default [] [(NvidiaGPUDevice, ''k'')] NvidiaGPUDevice"
    by (simp add: annotation_names)
  note rule = Allocate_releases_lock [OF _ _ merges_patch_always key]
  have gpu_id: "\<not> Contains ''UUID1-0'' ''MIG''" and mig_id: "Contains ''MIG-1'' ''MIG''" by code_simp+
  obtain st1 where gpu: "?call [''UUID1-0''] = (Inl (Errorf ''device allocate number not matched''), st1)"
    using Allocate_number_mismatch_at [of "example_world [(''a'', ''b'')] []"] by blast
  have mig: "allocate_mig example_cfg example_plugin_env 0 [''MIG-1''] = Inl (Errorf ''invalid allocation request: unknown device'')"
    by (simp add: allocate_mig_def example_cfg_def Devices_Contains_def)
  then have refused: "?call [''MIG-1''] = (Inl (Errorf ''invalid allocation request: unknown device''), ?st)"
    using mig_id by (simp add: Allocate_def example_allocating_pending allocate_one_def)
  have silent: "silent_failure example_cfg example_plugin_env patch_always [(NvidiaGPUDevice, ''k'')] (example_allocating ?pd) 0 [[''MIG-1'']] ?st"
    using mig mig_id by (simp add: silent_request_def)
  have "cl_lock st1 = snd (ReleaseNodeLock (example_world [(''a'', ''b'')] []))"
    using conjunct2 [OF rule [OF gpu]] gpu_id by (simp add: is_panic_def example_cfg_def)
  moreover have "cl_lock ?st = example_world [(''a'', ''b'')] []"
    using conjunct1 [OF rule [OF refused]] silent by (simp add: is_panic_def example_allocating_pending)
  ultimately show ?thesis using gpu refused by blast
qed

text \<open>The NUMA node of a card is never reported: whatever \<open>nvidia-smi\<close> prints, a successful
  \<open>parseNvidiaNumaInfo\<close> returns 0, because the parsed number is assigned to a variable that shadows the
  result.  With the \<open>numa-bind\<close> annotation all cards then count as one NUMA node.\<close>
lemma parseNvidiaNumaInfo_always_zero:
  assumes "parseNvidiaNumaInfo idx topo = Inr (numa, True)"
  shows "numa = 0"
proof -
  have "numa_lines idx index col 0 vals = Inr (numa, True) \<Longrightarrow> numa = 0" for index col vals
    by (induction vals arbitrary: index col) (auto simp: Let_def split: if_splits prod.splits)
  then show ?thesis using assms by (simp add: parseNvidiaNumaInfo_def)
qed

definition example_topology :: string where
  "example_topology =
     Join [Join [''GPU0'', ''CPU Affinity'', ''NUMA Affinity''] [CHR 0x09], Join [''GPU0'', ''0-7'', ''1''] [CHR 0x09]] [CHR 0x0A]"

lemma parseNvidiaNumaInfo_always_zero_example:
  "\<exists>numa. parseNvidiaNumaInfo 0 example_topology = Inr (numa, True) \<and> numa = 0"
proof -
  have "parseNvidiaNumaInfo 0 example_topology = Inr (0, True)" by code_simp
  then show ?thesis using parseNvidiaNumaInfo_always_zero [of 0 example_topology 0] by simp
qed

end
