(* ===== verification/Turns.thy ===== *)
theory Turns
  imports Scheduler Nvidia_Plugin
begin

text \<open>
  How the pods of a node take turns.  The plugin is not told for which pod the kubelet asks: it serves the first pod
  of the node whose allocation is under way.  That this is the right one rests on the node lock: \<open>Bind\<close> takes it
  before it marks a pod, and the end of the allocation releases it.  The first part shows that at most one
  pod of a node is under way while every \<open>Bind\<close> gets the lock; the second what happens when one does not.
\<close>

section \<open>Binding and finishing\<close>

text \<open>The annotations of a pod after \<open>Bind\<close>.\<close>

lemma Bind_annotations:
  assumes "be_get benv = Inr q" and "be_patch benv = (\<lambda>q. api_patch (pod_Annotations q))" and "merges api_patch"
    and "bo_annotations (Bind benv) = Some annos"
  shows "mget annos k = (if k = BindTimeAnnotations then Some (Itoa (be_now benv))
      else if k = DeviceBindPhase then Some DeviceBindAllocating else mget (pod_Annotations q) k)"
proof -
  have "api_patch (pod_Annotations q) (bind_patch (be_now benv)) = Inr annos"
    using assms(1,2,4) by (auto simp: Bind_def split: sum.splits)
  moreover have "map_ok (bind_patch (be_now benv))" by (simp add: bind_patch_def annotation_names)
  ultimately show ?thesis
    using mergesD [OF assms(3), of "bind_patch (be_now benv)" "pod_Annotations q" annos k]
    by (simp add: bind_patch_def)
qed

lemma Bind_pending:
  assumes "be_get benv = Inr q" and "be_patch benv = (\<lambda>q. api_patch (pod_Annotations q))" and "merges api_patch"
    and "bo_annotations (Bind benv) = Some annos"
  shows "is_pending_on n (q\<lparr>pod_Annotations := annos\<rparr>) \<longleftrightarrow> mget (pod_Annotations q) AssignedNodeAnnotations = Some n"
  using Bind_annotations [OF assms] by (simp add: is_pending_on_def annotation_names)

text \<open>The pods at the API server and the node with its lock.\<close>

record turn_state =
  ts_pods :: "pod list"
  ts_lock :: api_world

text \<open>A call of \<open>Bind\<close> for one of the pods, with the answer of \<open>LockNode\<close> and the new state.\<close>

definition bind_turn ::
  "patch_api \<Rightarrow> (string \<Rightarrow> bool result) \<Rightarrow> (nat \<Rightarrow> string) \<Rightarrow> int \<Rightarrow> unit result \<Rightarrow> nat \<Rightarrow> turn_state \<Rightarrow> unit result \<times> turn_state" where
  "bind_turn api_patch age now unix bound i st =
     (case LockNode age now (ts_lock st) of
        (lock, w) \<Rightarrow>
          let p = ts_pods st ! i;
              res = Bind \<lparr>be_get = Inr p, be_lock = lock, be_patch = (\<lambda>q. api_patch (pod_Annotations q)), be_bind = bound, be_now = unix\<rparr>
          in (lock,
              \<lparr>ts_pods = (case bo_annotations res of None \<Rightarrow> ts_pods st | Some annos \<Rightarrow> (ts_pods st)[i := p\<lparr>pod_Annotations := annos\<rparr>]),
               ts_lock = w\<rparr>))"

text \<open>The end of the allocation of one of the pods.\<close>

definition finish_turn :: "patch_api \<Rightarrow> string \<Rightarrow> nat \<Rightarrow> turn_state \<Rightarrow> turn_state" where
  "finish_turn api_patch phase i st =
     (let p = ts_pods st ! i; cl = finish_allocation api_patch phase \<lparr>cl_annos = pod_Annotations p, cl_lock = ts_lock st\<rparr>
      in \<lparr>ts_pods = (ts_pods st)[i := p\<lparr>pod_Annotations := cl_annos cl\<rparr>], ts_lock = cl_lock cl\<rparr>)"

text \<open>
  A turn begins with a \<open>Bind\<close> that gets the lock, which has not expired, and ends with the allocation of the pod;
  meanwhile pods come and go and change, but none gets under way in another manner.
\<close>

inductive turn_step :: "patch_api \<Rightarrow> (string \<Rightarrow> bool result) \<Rightarrow> string \<Rightarrow> turn_state \<Rightarrow> turn_state \<Rightarrow> bool"
  for api_patch age n where
  turn_bind: "i < length (ts_pods st) \<Longrightarrow> \<forall>t. lock_of (ts_lock st) = Some t \<longrightarrow> age t \<noteq> Inr True \<Longrightarrow>
     bind_turn api_patch age now unix bound i st = (Inr (), st') \<Longrightarrow> turn_step api_patch age n st st'"
| turn_finish: "i < length (ts_pods st) \<Longrightarrow> is_pending_on n (ts_pods st ! i) \<Longrightarrow> phase \<in> {DeviceBindSuccess, DeviceBindFailed} \<Longrightarrow>
     turn_step api_patch age n st (finish_turn api_patch phase i st)"
| turn_other: "mset (filter (is_pending_on n) pods') \<subseteq># mset (filter (is_pending_on n) (ts_pods st)) \<Longrightarrow>
     turn_step api_patch age n st (st\<lparr>ts_pods := pods'\<rparr>)"

inductive_cases turn_stepE: "turn_step api_patch age n st st'"

section \<open>One at a time\<close>

definition turn_inv :: "string \<Rightarrow> turn_state \<Rightarrow> bool" where
  "turn_inv n st \<longleftrightarrow> undisturbed (ts_lock st)
     \<and> (\<exists>k. k \<noteq> NodeLockTime \<and> mget (nc_Annotations (aw_node (ts_lock st))) k \<noteq> None)
     \<and> length (filter (is_pending_on n) (ts_pods st)) \<le> of_bool (lock_of (ts_lock st) \<noteq> None)"

lemma length_filter_update:
  "i < length xs \<Longrightarrow> length (filter P (xs[i := x])) = length (filter P xs) - of_bool (P (xs ! i)) + of_bool (P x)"
proof -
  assume i: "i < length xs"
  have "length (filter P xs) = length (filter P (take i xs)) + of_bool (P (xs ! i)) + length (filter P (drop (Suc i) xs))"
    by (subst id_take_nth_drop [OF i]) simp
  then show ?thesis using i by (simp add: upd_conv_take_nth_drop)
qed

lemma other_annotation:
  assumes "k \<noteq> NodeLockTime" and "mget A k \<noteq> None"
  shows "A \<noteq> []" and "mdel A NodeLockTime \<noteq> []"
proof -
  show "A \<noteq> []" using assms(2) by auto
  have "mget (mdel A NodeLockTime) k \<noteq> mget [] k" using assms by simp
  then show "mdel A NodeLockTime \<noteq> []" by metis
qed

lemma finish_turn_pending:
  assumes "merges api_patch" and "\<And>a b. \<exists>a'. api_patch a b = Inr a'" and "phase \<in> {DeviceBindSuccess, DeviceBindFailed}"
    and "i < length (ts_pods st)"
  shows "\<not> is_pending_on n (ts_pods (finish_turn api_patch phase i st) ! i)"
  using finish_allocation_phase [OF assms(1,2), of phase _ DeviceBindPhase] assms(3,4)
  by (auto simp: finish_turn_def Let_def is_pending_on_def annotation_names)

lemma turn_step_inv:
  assumes "merges api_patch" and "\<And>a b. \<exists>a'. api_patch a b = Inr a'"
  shows "turn_step api_patch age n st st' \<Longrightarrow> turn_inv n st \<Longrightarrow> turn_inv n st'"
proof (induction rule: turn_step.induct)
  case (turn_bind i st now unix bound st')
  obtain k where k: "k \<noteq> NodeLockTime" "mget (nc_Annotations (aw_node (ts_lock st))) k \<noteq> None"
    and quiet: "undisturbed (ts_lock st)" using turn_bind.prems by (auto simp: turn_inv_def)
  obtain lock w where lock: "LockNode age now (ts_lock st) = (lock, w)" by fastforce
  then have granted: "lock = Inr ()" and w: "ts_lock st' = w"
    using turn_bind.hyps(3) by (auto simp: bind_turn_def Let_def)
  note l = LockNode_undisturbed [OF quiet other_annotation [OF k] lock]
  have free: "lock_of (ts_lock st) = None" using l granted turn_bind.hyps(2) by blast
  then have none: "length (filter (is_pending_on n) (ts_pods st)) = 0" using turn_bind.prems by (simp add: turn_inv_def)
  have "\<exists>x. ts_pods st' = ts_pods st \<or> ts_pods st' = (ts_pods st)[i := x]"
    using turn_bind.hyps(3) lock by (auto simp: bind_turn_def Let_def split: option.splits)
  then have "length (filter (is_pending_on n) (ts_pods st')) \<le> 1"
    using none length_filter_update [OF turn_bind.hyps(1), of "is_pending_on n"] by (auto simp: of_bool_def)
  then show ?case using l granted w k by (auto simp: turn_inv_def)
next
  case (turn_finish i st phase)
  let ?st = "finish_turn api_patch phase i st"
  obtain k where k: "k \<noteq> NodeLockTime" "mget (nc_Annotations (aw_node (ts_lock st))) k \<noteq> None"
    and quiet: "undisturbed (ts_lock st)" using turn_finish.prems by (auto simp: turn_inv_def)
  have one: "length (filter (is_pending_on n) (ts_pods st)) \<le> 1"
    using turn_finish.prems by (cases "lock_of (ts_lock st)") (auto simp: turn_inv_def)
  obtain r w where rel: "ReleaseNodeLock (ts_lock st) = (r, w)" by fastforce
  have w: "ts_lock ?st = w" using rel by (simp add: finish_turn_def Let_def)
  have none: "length (filter (is_pending_on n) (ts_pods ?st)) = 0"
    using one length_filter_update [OF turn_finish.hyps(1), of "is_pending_on n"] turn_finish.hyps(2)
      finish_turn_pending [OF assms turn_finish.hyps(3,1), of n] turn_finish.hyps(1)
    by (simp add: finish_turn_def Let_def)
  note ru = ReleaseNodeLock_undisturbed [OF quiet rel]
  have annos: "nc_Annotations (aw_node w) = mdel (nc_Annotations (aw_node (ts_lock st))) NodeLockTime
      \<or> nc_Annotations (aw_node w) = nc_Annotations (aw_node (ts_lock st))"
    using ru by blast
  have "mget (nc_Annotations (aw_node w)) k \<noteq> None" using annos k by (elim disjE) (simp_all only: mget_mdel if_False simp_thms)
  moreover have "undisturbed w" using ru by blast
  ultimately show ?case unfolding turn_inv_def w none using k(1) by blast
next
  case (turn_other pods' st)
  have "length (filter (is_pending_on n) pods') \<le> length (filter (is_pending_on n) (ts_pods st))"
    using size_mset_mono [OF turn_other.hyps] by (simp only: size_mset)
  then show ?case using turn_other.prems by (auto simp: turn_inv_def)
qed

lemma turn_run_inv:
  assumes "merges api_patch" and "\<And>a b. \<exists>a'. api_patch a b = Inr a'"
  shows "(turn_step api_patch age n)\<^sup>*\<^sup>* st st' \<Longrightarrow> turn_inv n st \<Longrightarrow> turn_inv n st'"
  by (induction rule: rtranclp_induct) (auto intro: turn_step_inv [OF assms])

lemma find_filter: "find P xs = (case filter P xs of [] \<Rightarrow> None | x # _ \<Rightarrow> Some x)"
  by (induction xs) auto

lemma GetPendingPod_only:
  assumes "length (filter (is_pending_on n) pods) \<le> 1" and "p \<in> set pods" and "is_pending_on n p"
  shows "GetPendingPod (Inr pods) n = Inr p"
proof -
  have "p \<in> set (filter (is_pending_on n) pods)" using assms(2,3) by simp
  then have "filter (is_pending_on n) pods = [p]"
    using assms(1) by (cases "filter (is_pending_on n) pods") auto
  then show ?thesis by (simp add: GetPendingPod_def find_filter)
qed

text \<open>C14: the pods of a node take turns.  When no other client writes the node, every \<open>Bind\<close> has got the node lock, no
  lock has expired and the API server accepts all patches, then at most one pod of the node is under way at any
  time, the node is locked as long as one is, and it is the pod that the device plugin finds.\<close>
theorem pods_take_turns:
  assumes "merges api_patch" and "\<And>a b. \<exists>a'. api_patch a b = Inr a'"
    and "(turn_step api_patch age n)\<^sup>*\<^sup>* st st'" and "filter (is_pending_on n) (ts_pods st) = []" and "undisturbed (ts_lock st)"
    and "k \<noteq> NodeLockTime" and "mget (nc_Annotations (aw_node (ts_lock st))) k \<noteq> None"
  shows "length (filter (is_pending_on n) (ts_pods st')) \<le> 1
     \<and> (\<forall>p\<in>set (ts_pods st'). is_pending_on n p \<longrightarrow>
          lock_of (ts_lock st') \<noteq> None \<and> GetPendingPod (Inr (ts_pods st')) n = Inr p)"
proof -
  have "turn_inv n st" using assms(4-7) by (auto simp: turn_inv_def)
  from turn_run_inv [OF assms(1-3) this]
  have le: "length (filter (is_pending_on n) (ts_pods st')) \<le> of_bool (lock_of (ts_lock st') \<noteq> None)" by (simp add: turn_inv_def)
  then have one: "length (filter (is_pending_on n) (ts_pods st')) \<le> 1" by (cases "lock_of (ts_lock st')") auto
  have "lock_of (ts_lock st') \<noteq> None" if "p \<in> set (ts_pods st')" "is_pending_on n p" for p
  proof
    assume "lock_of (ts_lock st') = None"
    then have "filter (is_pending_on n) (ts_pods st') = []" using le by simp
    then show False using that by (simp add: filter_empty_conv)
  qed
  then show ?thesis using one GetPendingPod_only [OF one] by blast
qed

definition example_turns :: turn_state where
  "example_turns = \<lparr>ts_pods = [example_pod\<lparr>pod_Annotations := [(AssignedNodeAnnotations, ''n1'')]\<rparr>],
     ts_lock = example_world [(''a'', ''b'')] []\<rparr>"

theorem pods_take_turns_witness:
  "\<exists>st'. turn_step patch_always (\<lambda>_. Inr False) ''n1'' example_turns st'
     \<and> is_pending_on ''n1'' (ts_pods st' ! 0)
     \<and> lock_of (ts_lock st') \<noteq> None \<and> GetPendingPod (Inr (ts_pods st')) ''n1'' = Inr (ts_pods st' ! 0)"
proof -
  let ?age = "\<lambda>_. Inr False" and ?st = example_turns
  obtain r st' where b: "bind_turn patch_always ?age (\<lambda>_. ''12:00'') 7 (Inr ()) 0 ?st = (r, st')" by fastforce
  have "fst (bind_turn patch_always ?age (\<lambda>_. ''12:00'') 7 (Inr ()) 0 ?st) = Inr ()
      \<and> length (ts_pods (snd (bind_turn patch_always ?age (\<lambda>_. ''12:00'') 7 (Inr ()) 0 ?st))) = 1
      \<and> is_pending_on ''n1'' (ts_pods (snd (bind_turn patch_always ?age (\<lambda>_. ''12:00'') 7 (Inr ()) 0 ?st)) ! 0)"
    by code_simp
  then have r: "r = Inr ()" and len: "length (ts_pods st') = 1" and pending: "is_pending_on ''n1'' (ts_pods st' ! 0)"
    by (simp_all add: b)
  have step: "turn_step patch_always ?age ''n1'' ?st st'"
    by (rule turn_bind [of 0 _ _ _ "\<lambda>_. ''12:00''" 7 "Inr ()"]) (simp_all add: b r, simp add: example_turns_def)
  have patch: "\<exists>a'. patch_always a p = Inr a'" for a p by (simp add: patch_always_def)
  have start: "filter (is_pending_on ''n1'') (ts_pods ?st) = []" "undisturbed (ts_lock ?st)" "''a'' \<noteq> NodeLockTime"
      "mget (nc_Annotations (aw_node (ts_lock ?st))) ''a'' \<noteq> None"
    by (simp_all add: example_turns_def is_pending_on_def annotation_names undisturbed_def example_world_def NodeLockTime_def)
  have "ts_pods st' ! 0 \<in> set (ts_pods st')" using len by simp
  moreover have "(turn_step patch_always ?age ''n1'')\<^sup>*\<^sup>* ?st st'" by (rule r_into_rtranclp) (rule step)
  ultimately show ?thesis
    using pods_take_turns [OF merges_patch_always patch _ start, of ?age st'] step pending by blast
qed

section \<open>A bind without the lock\<close>

text \<open>C35: a bind that does not get the node lock gives one pod's cards to another.  While an allocation for a first
  pod is under way, \<open>Bind\<close> of a second pod for the same node is refused the lock and marks the pod nevertheless;
  when the kubelet then asks the plugin for the devices of the second pod's container, the plugin answers
  with the cards, the memory and the cores that were assigned to the first pod.\<close>
theorem bind_without_lock_crosses:
  fixes p q :: pod
  assumes "merges api_patch" and "\<And>a b. \<exists>a'. api_patch a b = Inr a'"
    and "is_pending_on n p" and "be_get benv = Inr q" and "mget (pod_Annotations q) AssignedNodeAnnotations = Some n"
    and "be_patch benv = (\<lambda>q. api_patch (pod_Annotations q))" and "be_lock benv = Inl e"
    and "mget (pod_Annotations p) ''hami.sh/vgpu-devices-to-allocate'' = Some (EncodePodSingleDevice [sel])"
    and "list_all container_device_ok sel" and "sel \<noteq> []" and "pod_Containers p = c # cs"
    and "mget (pod_Annotations p) AssignedIDsToAllocateAnnotations = None"
    and "length ids = length sel" and "\<not> Contains (hd ids) ''MIG''"
    and "pc_strategy cfg = DeviceIDStrategyUUID" and "\<not> pc_cdiEnabled cfg" and "cl_annos st = pod_Annotations p"
  shows "\<exists>annos res st'. bo_annotations (Bind benv) = Some annos \<and> is_pending_on n (q\<lparr>pod_Annotations := annos\<rparr>)
     \<and> Allocate cfg penv api_patch InRequestDevices True (Inr [p, q\<lparr>pod_Annotations := annos\<rparr>]) n [ids] st = (Inr [res], st')
     \<and> mget (ar_Envs res) ''NVIDIA_VISIBLE_DEVICES'' = Some (Join (map cd_UUID sel) '','')
     \<and> (\<forall>i<length sel. mget (ar_Envs res) (limit_key i) = Some (Itoa (cd_Usedmem (sel ! i)) @ ''m''))
     \<and> mget (ar_Envs res) ''CUDA_DEVICE_SM_LIMIT'' = Some (Itoa (cd_Usedcores (hd sel)))"
proof -
  let ?key = "''hami.sh/vgpu-devices-to-allocate''"
  obtain annos where annos: "bo_annotations (Bind benv) = Some annos"
    using assms(2) [of "pod_Annotations q" "bind_patch (be_now benv)"] assms(4,6) by (auto simp: Bind_def)
  let ?q = "q\<lparr>pod_Annotations := annos\<rparr>"
  have pending: "is_pending_on n ?q" using Bind_pending [OF assms(4,6,1) annos] assms(5) by simp
  have first: "GetPendingPod (Inr [p, ?q]) n = Inr p" using assms(3) by (simp add: GetPendingPod_def)
  have names: "?key \<noteq> AssignedIDsToAllocateAnnotations" "?key \<noteq> DeviceBindPhase" by (simp_all add: annotation_names)
  have inreq: "InRequestDevices = [(NvidiaGPUDevice, ?key)]" by (simp add: InRequestDevices_def device_names)
  have sel: "list_all container_device_ok (concat [sel])" "concat [sel] \<noteq> []" "length ids = length (concat [sel])"
    using assms(9,10,13) by simp_all
  show ?thesis
    using Allocate_of_assignment [OF first assms(17,8) sel(1,2) assms(11) sel(3) assms(14-16,1,2,12) names, of penv] inreq annos pending
    by (auto simp: assms(13))
qed

definition example_first :: pod where
  "example_first = example_pod\<lparr>pod_Annotations :=
     [(BindTimeAnnotations, ''0''), (DeviceBindPhase, DeviceBindAllocating), (AssignedNodeAnnotations, ''n1''),
      (''hami.sh/vgpu-devices-to-allocate'', EncodePodSingleDevice [[example_assignment]])]\<rparr>"

definition example_second :: bind_env where
  "example_second = \<lparr>be_get = Inr (example_pod\<lparr>pod_Annotations := [(AssignedNodeAnnotations, ''n1'')]\<rparr>),
     be_lock = Inl (Errorf ''node lock''), be_patch = (\<lambda>q. patch_always (pod_Annotations q)), be_bind = Inr (), be_now = 7\<rparr>"

theorem bind_without_lock_crosses_witness:
  "\<exists>annos res st'. bo_annotations (Bind example_second) = Some annos
     \<and> Allocate example_cfg example_plugin_env patch_always InRequestDevices True
          (Inr [example_first, example_pod\<lparr>pod_Annotations := annos\<rparr>]) ''n1'' [[''UUID1-0'']]
          \<lparr>cl_annos = pod_Annotations example_first, cl_lock = example_world [] []\<rparr> = (Inr [res], st')
     \<and> mget (ar_Envs res) ''NVIDIA_VISIBLE_DEVICES'' = Some (cd_UUID example_assignment)"
proof -
  let ?q = "example_pod\<lparr>pod_Annotations := [(AssignedNodeAnnotations, ''n1'')]\<rparr>"
  let ?st = "\<lparr>cl_annos = pod_Annotations example_first, cl_lock = example_world [] []\<rparr>"
  have patch: "\<exists>a'. patch_always a p = Inr a'" for a p by (simp add: patch_always_def)
  have first: "is_pending_on ''n1'' example_first"
    by (simp add: is_pending_on_def example_first_def annotation_names)
  have second: "be_get example_second = Inr ?q" "mget (pod_Annotations ?q) AssignedNodeAnnotations = Some ''n1''"
      "be_patch example_second = (\<lambda>q. patch_always (pod_Annotations q))" "be_lock example_second = Inl (Errorf ''node lock'')"
    by (simp_all add: example_second_def)
  have key: "mget (pod_Annotations example_first) ''hami.sh/vgpu-devices-to-allocate'' = Some (EncodePodSingleDevice [[example_assignment]])"
    by (simp add: example_first_def annotation_names)
  have sel: "list_all container_device_ok [example_assignment]" "[example_assignment] \<noteq> []"
    by (simp_all add: example_assignment_ok)
  have ctr: "pod_Containers example_first = zero_container # []" by (simp add: example_first_def example_pod_def)
  have ids: "mget (pod_Annotations example_first) AssignedIDsToAllocateAnnotations = None"
      "length [''UUID1-0''] = length [example_assignment]" "\<not> Contains (hd [''UUID1-0'']) ''MIG''"
    by (simp add: example_first_def annotation_names, simp, code_simp)
  have cfg: "pc_strategy example_cfg = DeviceIDStrategyUUID" "\<not> pc_cdiEnabled example_cfg" by (simp_all add: example_cfg_def)
  have annos: "cl_annos ?st = pod_Annotations example_first" by simp
  show ?thesis
    using bind_without_lock_crosses [OF merges_patch_always patch first second key sel ctr ids cfg annos, of example_plugin_env]
    by auto
qed

end
