(* ===== verification/Interleaving.thy ===== *)
theory Interleaving
  imports Scheduler
begin

text \<open>
  Requests of the extender that overlap.  The HTTP server answers every request in a goroutine of its own and the
  informer delivers pod events in another, while \<open>Filter\<close> takes no lock from its first reading of the pods to
  the recording of its choice.  Here \<open>Filter\<close> is split at that gap, into a plan and a commit, and other events
  may come in between.
\<close>

section \<open>Filter in two phases\<close>

datatype filter_phase = Answered annotations "filter_result result" | Planned node_score

definition filter_plan :: "filter_env \<Rightarrow> pod \<Rightarrow> string list \<Rightarrow> scheduler \<Rightarrow> (scheduler \<times> filter_phase) result" where
  "filter_plan env p nodeNames s =
     (let annos = pod_Annotations p; nums = Resourcereqs (fe_cfg env) (fe_devs env) p
      in if filter_total nums = 0
         then Inr (s, Answered annos (Inr \<lparr>flt_NodeNames = Some nodeNames, flt_FailedNodes = [], flt_Error = []\<rparr>))
         else
           case getNodesUsage nodeNames (s\<lparr>sc_pods := delPod p (sc_pods s)\<rparr>) of
             (s1, usage, failed) \<Rightarrow>
               bind_result (calcScore (fe_srt env) (checkType (fe_devs env) annos) nums (fe_itr env usage)) (\<lambda>(scores, usage').
                 let s2 = s1\<lparr>sc_cachedstatus := usage', sc_overviewstatus := maps_Copy (sc_overviewstatus s1) usage'\<rparr>
                 in Inr (s2,
                      if scores = [] then Answered annos (Inr \<lparr>flt_NodeNames = None, flt_FailedNodes = failed, flt_Error = []\<rparr>)
                      else Planned (chosen env scores))))"

definition filter_commit :: "filter_env \<Rightarrow> pod \<Rightarrow> node_score \<Rightarrow> scheduler \<Rightarrow> scheduler \<times> annotations \<times> filter_result result" where
  "filter_commit env p m s =
     (let s3 = s\<lparr>sc_pods := addPod p (ns_nodeID m) (ns_devices m) (sc_pods s)\<rparr>
      in case fe_patch env (pod_Annotations p) (filter_annotations env m) of
           Inl err \<Rightarrow> (s3\<lparr>sc_pods := delPod p (sc_pods s3)\<rparr>, pod_Annotations p, Inl err)
         | Inr annos' \<Rightarrow> (s3, annos', Inr \<lparr>flt_NodeNames = Some [ns_nodeID m], flt_FailedNodes = [], flt_Error = []\<rparr>))"

text \<open>Without events in between, the two phases are the call.\<close>

lemma Filter_phases:
  "Filter env p nodeNames s =
     bind_result (filter_plan env p nodeNames s) (\<lambda>(s1, phase).
       case phase of Answered annos r \<Rightarrow> Inr (s1, annos, r) | Planned m \<Rightarrow> Inr (filter_commit env p m s1))"
proof -
  obtain s1 usage failed where g: "getNodesUsage nodeNames (s\<lparr>sc_pods := delPod p (sc_pods s)\<rparr>) = (s1, usage, failed)"
    by (metis prod_cases3)
  show ?thesis
    by (cases "calcScore (fe_srt env) (checkType (fe_devs env) (pod_Annotations p))
        (Resourcereqs (fe_cfg env) (fe_devs env) p) (fe_itr env usage)")
      (auto simp: Filter_def filter_plan_def filter_commit_def g Let_def chosen_def split: sum.splits)
qed

section \<open>Overlapping calls\<close>

text \<open>The scheduler and the calls that have planned but not yet committed, each with its node and devices.\<close>

type_synonym flight = "filter_env \<times> pod \<times> node_score"

text \<open>The calls in flight have chosen different nodes.\<close>

definition flight_node :: "flight \<Rightarrow> string" where
  "flight_node f = ns_nodeID (snd (snd f))"

definition apart :: "flight list \<Rightarrow> bool" where
  "apart fl \<longleftrightarrow> distinct (map flight_node fl)"

text \<open>A pod event that adds a record does so on a node that no call in flight has chosen.\<close>

definition new_record_apart :: "pod \<Rightarrow> scheduler \<Rightarrow> flight list \<Rightarrow> bool" where
  "new_record_apart p s fl \<longleftrightarrow>
     mget (sc_pods s) (pod_UID p) \<noteq> None \<or> IsPodInTerminatedState p
     \<or> (case mget (pod_Annotations p) AssignedNodeAnnotations of None \<Rightarrow> True | Some n \<Rightarrow> n \<notin> flight_node ` set fl)"

inductive conc_step :: "scheduler \<times> flight list \<Rightarrow> scheduler \<times> flight list \<Rightarrow> bool" where
  conc_plan: "env_ok env \<Longrightarrow> single_type_requests env p s rs \<Longrightarrow> filter_plan env p nodeNames s = Inr (s', Planned m) \<Longrightarrow>
     conc_step (s, fl) (s', (env, p, m) # fl)"
| conc_answer: "filter_plan env p nodeNames s = Inr (s', Answered annos r) \<Longrightarrow> conc_step (s, fl) (s', fl)"
| conc_commit: "conc_step (s, xs @ (env, p, m) # ys) (fst (filter_commit env p m s), xs @ ys)"
| conc_delete: "conc_step (s, fl) (onDelPod p s, fl)"
| conc_update: "fits_in support p s \<Longrightarrow> new_record_apart p s fl \<Longrightarrow> conc_step (s, fl) (onUpdatePod support old p s, fl)"
| conc_recompute: "conc_step (s, fl) (fst (getNodesUsage nodes s), fl)"

inductive_cases conc_stepE: "conc_step (s, fl) x"

definition room_for_flight :: "scheduler \<Rightarrow> flight \<Rightarrow> bool" where
  "room_for_flight s f \<longleftrightarrow> room_on s (flight_node f) (all_devices (ns_devices (snd (snd f))))"

definition conc_inv :: "scheduler \<times> flight list \<Rightarrow> bool" where
  "conc_inv = (\<lambda>(s, fl). sched_inv s \<and> apart fl \<and> list_all (room_for_flight s) fl)"

lemmas flight_room = room_for_flight_def flight_node_def

section \<open>Steps that only take pods away\<close>

definition shrinks :: "scheduler \<Rightarrow> scheduler \<Rightarrow> bool" where
  "shrinks s s' \<longleftrightarrow> sc_nodes s' = sc_nodes s \<and> (\<forall>k. mset (pods_on (sc_pods s') k) \<subseteq># mset (pods_on (sc_pods s) k))"

lemma room_on_shrinks: "shrinks s s' \<Longrightarrow> room_on s k sel \<Longrightarrow> room_on s' k sel"
  unfolding shrinks_def room_on_def by (metis mset_append mset_subset_eq_mono_add_right_cancel room_for_mono)

lemma shrinks_refl: "sc_nodes s' = sc_nodes s \<Longrightarrow> sc_pods s' = sc_pods s \<Longrightarrow> shrinks s s'"
  by (simp add: shrinks_def)

lemma shrinks_delPod: "sc_nodes s' = sc_nodes s \<Longrightarrow> sc_pods s' = delPod p (sc_pods s) \<Longrightarrow> shrinks s s'"
  by (simp add: shrinks_def delPod_mdel mset_pods_on_mdel)

lemma shrinks_onDelPod: "shrinks s (onDelPod p s)"
  by (auto simp: onDelPod_def intro: shrinks_refl shrinks_delPod split: option.splits)

lemma conc_inv_shrinks:
  assumes "conc_inv (s, fl)" and "shrinks s s'" and "sched_inv s'" and "set fl' \<subseteq> set fl" and "apart fl'"
  shows "conc_inv (s', fl')"
  using assms room_on_shrinks [OF assms(2)] by (fastforce simp: conc_inv_def flight_room list_all_iff)

section \<open>Plans\<close>

lemma filter_plan_state:
  assumes "filter_plan env p nodeNames s = Inr (s', phase)"
  shows "sc_nodes s' = sc_nodes s"
    and "sc_pods s' = sc_pods s \<or> sc_pods s' = delPod p (sc_pods s)"
    and "phase = Planned m \<Longrightarrow> sc_pods s' = delPod p (sc_pods s)"
proof -
  obtain s1 usage failed where g: "getNodesUsage nodeNames (s\<lparr>sc_pods := delPod p (sc_pods s)\<rparr>) = (s1, usage, failed)"
    by (metis prod_cases3)
  have "sc_nodes s1 = sc_nodes s" "sc_pods s1 = delPod p (sc_pods s)"
    using getNodesUsage_state [of nodeNames "s\<lparr>sc_pods := delPod p (sc_pods s)\<rparr>"] g by simp_all
  then show "sc_nodes s' = sc_nodes s" "sc_pods s' = sc_pods s \<or> sc_pods s' = delPod p (sc_pods s)"
    "phase = Planned m \<Longrightarrow> sc_pods s' = delPod p (sc_pods s)"
    using assms g by (auto simp: filter_plan_def Let_def bind_result_Inr_iff split: if_splits)
qed

lemma filter_plan_shrinks: "filter_plan env p nodeNames s = Inr (s', phase) \<Longrightarrow> shrinks s s'"
  using filter_plan_state [of env p nodeNames s s' phase] shrinks_refl shrinks_delPod by metis

lemma filter_plan_inv: "sched_inv s \<Longrightarrow> filter_plan env p nodeNames s = Inr (s', phase) \<Longrightarrow> sched_inv s'"
  using filter_plan_state [of env p nodeNames s s' phase] sched_inv_delPod [of s p]
    sched_inv_cong [of s' s] sched_inv_cong [of s' "s\<lparr>sc_pods := delPod p (sc_pods s)\<rparr>"] by auto

text \<open>A planned assignment has room on its node, beside all pods that are recorded at that moment.\<close>

lemma filter_plan_room:
  assumes "sched_inv s" and "env_ok env" and "single_type_requests env p s rs"
    and "filter_plan env p nodeNames s = Inr (s', Planned m)"
  shows "room_on s' (ns_nodeID m) (all_devices (ns_devices m))"
proof -
  let ?s0 = "s\<lparr>sc_pods := delPod p (sc_pods s)\<rparr>"
  have inv0: "sched_inv ?s0" using assms(1) by (rule sched_inv_delPod)
  have req: "Resourcereqs (fe_cfg env) (fe_devs env) p = requests_of rs" "single_type_requests env p ?s0 rs"
    using assms(3) by (simp_all add: single_type_requests_def)
  obtain s1 usage failed where g: "getNodesUsage nodeNames ?s0 = (s1, usage, failed)" by (metis prod_cases3)
  then obtain scores usage' where c: "calcScore (fe_srt env) (checkType (fe_devs env) (pod_Annotations p)) (requests_of rs)
        (fe_itr env usage) = Inr (scores, usage')" and m: "scores \<noteq> []" "m = chosen env scores"
    using assms(4) req(1) by (auto simp: filter_plan_def Let_def bind_result_Inr_iff split: if_splits)
  from Filter_scores [OF inv0 assms(2) req(2) g c chosen_mem [OF assms(2) m(1)]] m(2)
  obtain us where us: "node_usage ?s0 (ns_nodeID m) = Some us" "\<forall>u\<in>set us. room_for (all_devices (ns_devices m)) u" by blast
  show ?thesis
    using room_for_added [OF inv0 us] filter_plan_state [OF assms(4)] by (auto simp: room_on_def)
qed

section \<open>Runs of overlapping calls\<close>

lemma filter_commit_state:
  "sc_nodes (fst (filter_commit env p m s)) = sc_nodes s"
  "sc_pods (fst (filter_commit env p m s)) = addPod p (ns_nodeID m) (ns_devices m) (sc_pods s)
   \<or> sc_pods (fst (filter_commit env p m s)) = delPod p (addPod p (ns_nodeID m) (ns_devices m) (sc_pods s))"
  by (auto simp: filter_commit_def Let_def split: sum.splits)

lemma filter_commit_inv:
  assumes "sched_inv s" and "room_for_flight s (env, p, m)"
  shows "sched_inv (fst (filter_commit env p m s))"
proof -
  let ?s3 = "s\<lparr>sc_pods := addPod p (ns_nodeID m) (ns_devices m) (sc_pods s)\<rparr>"
  have inv: "sched_inv ?s3" using assms by (auto simp: flight_room intro: sched_inv_record)
  show ?thesis
    using inv sched_inv_delPod [OF inv, of p] by (simp add: filter_commit_def Let_def split: sum.splits)
qed

text \<open>A commit changes nothing on other nodes, except that it may take pods away.\<close>

lemma filter_commit_other:
  assumes "room_on s k sel" and "k \<noteq> ns_nodeID m"
  shows "room_on (fst (filter_commit env p m s)) k sel"
proof -
  let ?s3 = "s\<lparr>sc_pods := addPod p (ns_nodeID m) (ns_devices m) (sc_pods s)\<rparr>"
  have "pods_on (sc_pods ?s3) k = pods_on (sc_pods s) k"
    using assms(2) by (simp add: addPod_def mset_to_new make_pod_info_def split: option.splits)
  then have s3: "room_on ?s3 k sel" using assms(1) by (simp add: room_on_def)
  have "shrinks ?s3 (?s3\<lparr>sc_pods := delPod p (sc_pods ?s3)\<rparr>)" by (rule shrinks_delPod [where p = p]) simp_all
  from room_on_shrinks [OF this s3] show ?thesis
    using s3 by (simp add: filter_commit_def Let_def split: sum.splits)
qed

text \<open>A pod event that adds no record on the node of a call in flight leaves the room for it.\<close>

lemma onAddPod_room:
  assumes "new_record_apart p s fl" and "f \<in> set fl" and "room_for_flight s f"
  shows "room_for_flight (onAddPod support p s) f"
proof (cases "mget (pod_Annotations p) AssignedNodeAnnotations")
  case None
  then show ?thesis using assms(3) by (simp add: onAddPod_def)
next
  case (Some n)
  let ?add = "addPod p n (DecodePodDevices support (pod_Annotations p)) (sc_pods s)"
  show ?thesis
  proof (cases "IsPodInTerminatedState p \<or> mget (sc_pods s) (pod_UID p) \<noteq> None")
    case True
    have "shrinks s (onAddPod support p s)"
      using True Some by (auto simp: onAddPod_def addPod_known intro: shrinks_refl shrinks_delPod)
    then show ?thesis using assms(3) room_on_shrinks by (simp add: room_for_flight_def)
  next
    case False
    then have "n \<noteq> flight_node f" using assms(1,2) Some by (auto simp: new_record_apart_def)
    then have "pods_on ?add (flight_node f) = pods_on (sc_pods s) (flight_node f)"
      using False by (simp add: addPod_def mset_to_new make_pod_info_def)
    then show ?thesis using assms(3) False Some by (simp add: onAddPod_def room_for_flight_def room_on_def)
  qed
qed

lemma conc_step_inv: "conc_step x y \<Longrightarrow> conc_inv x \<Longrightarrow> apart (snd y) \<Longrightarrow> conc_inv y"
proof (induction rule: conc_step.induct)
  case (conc_plan env p s rs nodeNames s' m fl)
  then have "apart fl" "sched_inv s" by (auto simp: conc_inv_def)
  note fl = conc_inv_shrinks [OF conc_plan.prems(1) filter_plan_shrinks [OF conc_plan.hyps(3)]
      filter_plan_inv [OF this(2) conc_plan.hyps(3)] subset_refl this(1)]
  show ?case
    using fl filter_plan_room [OF \<open>sched_inv s\<close> conc_plan.hyps] conc_plan.prems(2)
    by (simp add: conc_inv_def flight_room)
next
  case (conc_answer env p nodeNames s s' annos r fl)
  have "sched_inv s" using conc_answer.prems(1) by (simp add: conc_inv_def)
  from conc_inv_shrinks [OF conc_answer.prems(1) filter_plan_shrinks [OF conc_answer.hyps] filter_plan_inv [OF this conc_answer.hyps]]
  show ?case using conc_answer.prems(2) by simp
next
  case (conc_commit s xs env p m ys)
  have inv: "sched_inv s" and room: "list_all (room_for_flight s) (xs @ (env, p, m) # ys)"
    using conc_commit.prems(1) by (auto simp: conc_inv_def)
  have other: "flight_node f \<noteq> ns_nodeID m" if "f \<in> set (xs @ ys)" for f
  proof -
    have "flight_node (env, p, m) \<notin> flight_node ` set (xs @ ys)"
      using conc_commit.prems(1) by (auto simp: conc_inv_def apart_def)
    then have "flight_node (env, p, m) \<noteq> flight_node f" using that by (metis imageI)
    then show ?thesis by (simp add: flight_node_def)
  qed
  have "room_for_flight (fst (filter_commit env p m s)) f" if "f \<in> set (xs @ ys)" for f
    using that room filter_commit_other [OF _ other [OF that], of s _ env p] by (auto simp: flight_room list_all_iff)
  then show ?case
    using filter_commit_inv [OF inv, of env p m] room conc_commit.prems(2) by (simp add: conc_inv_def list_all_iff)
next
  case (conc_delete s fl p)
  then show ?case
    using conc_inv_shrinks [OF conc_delete.prems(1) shrinks_onDelPod onDelPod_sched_inv subset_refl] by (simp add: conc_inv_def)
next
  case (conc_update support p s fl old)
  have inv: "sched_inv s" and room: "\<forall>f\<in>set fl. room_for_flight s f" and ap: "apart fl"
    using conc_update.prems(1) by (auto simp: conc_inv_def list_all_iff)
  have "room_for_flight (onAddPod support p s) f" if "f \<in> set fl" for f
    using that room onAddPod_room [OF conc_update.hyps(2), of f support] by simp
  then show ?case
    using onAddPod_sched_inv [OF inv conc_update.hyps(1)] ap by (simp add: conc_inv_def onUpdatePod_def list_all_iff)
next
  case (conc_recompute s fl nodes)
  have "shrinks s (fst (getNodesUsage nodes s))" by (rule shrinks_refl) simp_all
  moreover have "sched_inv (fst (getNodesUsage nodes s))" 
    using conc_recompute.prems(1) sched_inv_cong [of "fst (getNodesUsage nodes s)" s] by (simp add: conc_inv_def)
  ultimately show ?case using conc_inv_shrinks [OF conc_recompute.prems(1) _ _ subset_refl] conc_recompute.prems(2) by simp
qed

lemma conc_run_inv:
  "(\<lambda>x y. conc_step x y \<and> apart (snd y))\<^sup>*\<^sup>* x y \<Longrightarrow> conc_inv x \<Longrightarrow> conc_inv y"
  by (induction rule: rtranclp_induct) (auto intro: conc_step_inv)


text \<open>C13: calls that overlap do not over-commit a device as long as they choose different nodes.  In every run in
  which \<open>Filter\<close> calls are interleaved with each other, with pod events and with recomputations, and in which the
  calls between their choice and its recording have chosen different nodes (in particular when the
  kube-scheduler sends one pod at a time), the assignments recorded for a device number at most its \<open>Count\<close> and
  their memory and cores add up to at most what the device reported.  The conditions on the events: the filtered
  pods request one type of device per container, with amounts in range; and an update of a pod that is not on record brings no
  assignment for which there is no room, nor one for a node that a call in between has chosen.\<close>
theorem overlapping_filters_no_overcommit:
  assumes "sched_inv s" and "(\<lambda>x y. conc_step x y \<and> apart (snd y))\<^sup>*\<^sup>* (s, []) (s', fl)"
    and "registered (sc_nodes s') k = Some ds" and "d \<in> set ds"
  shows "int (length (uses_of (di_ID d) (pods_on (sc_pods s') k))) \<le> di_Count d
    \<and> sum_list (map cd_Usedmem (uses_of (di_ID d) (pods_on (sc_pods s') k))) \<le> di_Devmem d
    \<and> sum_list (map cd_Usedcores (uses_of (di_ID d) (pods_on (sc_pods s') k))) \<le> di_Devcore d"
proof -
  have "conc_inv (s', fl)" using conc_run_inv [OF assms(2)] assms(1) by (simp add: conc_inv_def apart_def)
  then have "room_for (pods_on (sc_pods s') k) (new_usage d)"
    using assms(3,4) by (auto simp: conc_inv_def sched_inv_def capacity_ok_def)
  then show ?thesis by (simp add: room_for_def new_usage_def)
qed

section \<open>Two calls for the same node\<close>

lemma filter_plan_cong:
  assumes "sc_nodes s2 = sc_nodes s1" and "sc_pods s2 = sc_pods s1" and "pod_Containers q = pod_Containers p"
    and "pod_Annotations q = pod_Annotations p" and "mget (sc_pods s1) (pod_UID p) = None" and "mget (sc_pods s1) (pod_UID q) = None"
    and "filter_plan env p nodeNames s1 = Inr (s', Planned m)"
  shows "\<exists>s''. filter_plan env q nodeNames s2 = Inr (s'', Planned m)"
proof -
  have "Resourcereqs (fe_cfg env) (fe_devs env) q = Resourcereqs (fe_cfg env) (fe_devs env) p"
    by (simp add: Resourcereqs_def assms(3))
  moreover have "delPod p (sc_pods s1) = sc_pods s1" "delPod q (sc_pods s2) = sc_pods s1"
    using assms(2,5,6) by (simp_all add: delPod_def)
  ultimately show ?thesis
    using assms(1,2,4,7)
    by (auto simp: filter_plan_def getNodesUsage_def Let_def bind_result_Inr_iff split: if_splits prod.splits)
qed

text \<open>C34: two calls that overlap can give away the last share of a card twice.  When \<open>Filter\<close> has chosen a node for
  one pod and, before it has recorded the choice, is called for a second pod with the same requests, both
  calls choose the same devices; when a device of the choice has no share left for the second pod, the run
  ends with more assignments recorded for it than it can serve.\<close>
theorem overlapping_filters_overcommit:
  fixes p q :: pod
  assumes "env_ok env" and "single_type_requests env p s rs" and "\<And>a b. \<exists>a'. fe_patch env a b = Inr a'"
    and "filter_plan env p nodeNames s = Inr (s1, Planned m)"
    and "pod_Containers q = pod_Containers p" and "pod_Annotations q = pod_Annotations p" and "pod_UID q \<noteq> pod_UID p"
    and "mget (sc_pods s) (pod_UID p) = None" and "mget (sc_pods s) (pod_UID q) = None"
    and "registered (sc_nodes s) (ns_nodeID m) = Some ds" and "d \<in> set ds"
    and "di_Count d < int (length (uses_of (di_ID d) (pods_on (sc_pods s) (ns_nodeID m))))
       + 2 * int (length (uses_of (di_ID d) (all_devices (ns_devices m))))"
  shows "\<exists>s'. conc_step\<^sup>*\<^sup>* (s, []) (s', []) \<and> registered (sc_nodes s') (ns_nodeID m) = Some ds
     \<and> di_Count d < int (length (uses_of (di_ID d) (pods_on (sc_pods s') (ns_nodeID m))))"
proof -
  let ?n = "ns_nodeID m" and ?dv = "ns_devices m"
  have s1: "sc_nodes s1 = sc_nodes s" "sc_pods s1 = sc_pods s"
    using filter_plan_state [OF assms(4)] assms(8) by (simp_all add: delPod_def)
  obtain s2 where plan: "filter_plan env q nodeNames s1 = Inr (s2, Planned m)"
    using filter_plan_cong [OF s1 assms(5,6,8,9,4)] by blast
  have s2: "sc_nodes s2 = sc_nodes s" "sc_pods s2 = sc_pods s"
    using filter_plan_state [OF plan] assms(9) s1 by (simp_all add: delPod_def)
  have reqs: "single_type_requests env q s1 rs"
    using assms(2) by (simp add: single_type_requests_def s1 Resourcereqs_def assms(5))
  define s3 s4 where "s3 = fst (filter_commit env p m s2)" and "s4 = fst (filter_commit env q m s3)"
  have commit: "sc_nodes (fst (filter_commit env x m t)) = sc_nodes t
      \<and> sc_pods (fst (filter_commit env x m t)) = addPod x ?n ?dv (sc_pods t)" for x t
    using assms(3) [of "pod_Annotations x" "filter_annotations env m"] by (auto simp: filter_commit_def Let_def)
  have "conc_step\<^sup>*\<^sup>* (s, []) (s2, [(env, q, m), (env, p, m)])"
    using conc_plan [OF assms(1,2,4), of "[]"] conc_plan [OF assms(1) reqs plan, of "[(env, p, m)]"] by simp
  also have "conc_step \<dots> (s3, [(env, q, m)])"
    using conc_commit [of s2 "[(env, q, m)]" env p m "[]"] by (simp add: s3_def)
  also have "conc_step \<dots> (s4, [])"
    using conc_commit [of s3 "[]" env q m "[]"] by (simp add: s4_def)
  finally have run: "conc_step\<^sup>*\<^sup>* (s, []) (s4, [])" .
  have "sc_pods s4 = sc_pods s @ [(pod_UID p, make_pod_info p ?n ?dv), (pod_UID q, make_pod_info q ?n ?dv)]"
  proof -
    have s3: "sc_pods s3 = mset_to (sc_pods s) (pod_UID p) (make_pod_info p ?n ?dv)"
      using assms(8) commit s2 by (simp add: s3_def addPod_def)
    then have "mget (sc_pods s3) (pod_UID q) = None" using assms(7,9) by simp
    then show ?thesis using commit assms(8) s3 by (simp add: s4_def addPod_def mset_to_new)
  qed
  then have "pods_on (sc_pods s4) ?n = pods_on (sc_pods s) ?n @ all_devices ?dv @ all_devices ?dv"
    by (simp add: pods_on_def make_pod_info_def)
  then have "di_Count d < int (length (uses_of (di_ID d) (pods_on (sc_pods s4) ?n)))" using assms(12) by simp
  moreover have "registered (sc_nodes s4) ?n = Some ds" using assms(10) commit s2 by (simp add: s3_def s4_def)
  ultimately show ?thesis using run by blast
qed

section \<open>An update between the phases\<close>

text \<open>C36: an update of the pod itself between the two phases leaves a stale record.  When a pod that was given a
  node in an earlier attempt is filtered again and an event with its old annotations arrives after the call has
  removed the pod and before it records its choice, the call answers with the new node and publishes the new
  assignment, but the scheduler keeps the old one: the devices in use are not those that it counts.\<close>
theorem update_during_filter_stale:
  fixes p old :: pod
  assumes "filter_plan env p nodeNames s = Inr (s1, Planned m)" and "pod_UID old = pod_UID p"
    and "mget (pod_Annotations old) AssignedNodeAnnotations = Some oldNode" and "\<not> IsPodInTerminatedState old"
    and "fe_patch env (pod_Annotations p) (filter_annotations env m) = Inr annos'"
  shows "\<exists>s' r. filter_commit env p m (onUpdatePod support prev old s1) = (s', annos', Inr r)
     \<and> flt_NodeNames r = Some [ns_nodeID m]
     \<and> mget (sc_pods s') (pod_UID p) = Some (make_pod_info old oldNode (DecodePodDevices support (pod_Annotations old)))"
proof -
  have "mget (sc_pods s1) (pod_UID p) = None" using filter_plan_state(3) [OF assms(1) refl] by (simp add: delPod_mdel)
  then show ?thesis
    using assms(2-5) by (simp add: filter_commit_def Let_def onUpdatePod_def onAddPod_def addPod_def)
qed

section \<open>Examples\<close>

definition example_share :: scheduler where
  "example_share = NewScheduler\<lparr>sc_nodes := \<lparr>nm_nodes = [(''node1'', 0)],
     nm_heap = [\<lparr>ni_ID = ''node1'', ni_Devices = [(example_info ''GPU-1'')\<lparr>di_Count := 1\<rparr>]\<rparr>]\<rparr>\<rparr>"

lemma example_share_plan:
  "\<exists>s1 m. filter_plan example_env example_gpu_pod [''node1''] example_share = Inr (s1, Planned m) \<and> ns_nodeID m = ''node1''
     \<and> map cd_UUID (all_devices (ns_devices m)) = [''GPU-1'']"
proof -
  have "map_sum id (\<lambda>x. case snd x of Planned m \<Rightarrow> (True, ns_nodeID m, map cd_UUID (all_devices (ns_devices m))) | _ \<Rightarrow> (False, [], []))
      (filter_plan example_env example_gpu_pod [''node1''] example_share) = Inr (True, ''node1'', [''GPU-1''])"
    by code_simp
  then show ?thesis
    by (cases "filter_plan example_env example_gpu_pod [''node1''] example_share")
      (auto split: filter_phase.splits prod.splits)
qed

lemma example_share_registered:
  "registered (sc_nodes example_share) k = (if k = ''node1'' then Some [(example_info ''GPU-1'')\<lparr>di_Count := 1\<rparr>] else None)"
  by (simp add: example_share_def registered_def deref_def)

lemma example_share_inv: "sched_inv example_share"
proof -
  have "nodes_wf (sc_nodes example_share)" by (simp add: example_share_def nodes_wf_def deref_def example_info_def)
  moreover have "device_ok ((example_info ''GPU-1'')\<lparr>di_Count := 1\<rparr>)"
    by (simp add: device_ok_def new_usage_def example_info_def usage_ok_def)
  moreover have "sc_pods example_share = []" by (simp add: example_share_def NewScheduler_def init_pods_def)
  ultimately show ?thesis
    by (auto simp: sched_inv_def capacity_ok_def example_share_registered device_ok_def intro: room_for_Nil)
qed

lemma example_share_requests: "single_type_requests example_env example_gpu_pod example_share example_rs"
  using Resourcereqs_example
  by (simp add: single_type_requests_def example_env_def requests_of_def example_rs_def request_ok_def
      example_share_registered new_usage_def example_info_def)

lemma example_share_facts:
  "mget (sc_pods example_share) u = None" "\<exists>a'. fe_patch example_env a b = Inr a'" "pods_on (sc_pods example_share) k = []"
  by (simp_all add: example_share_def NewScheduler_def init_pods_def example_env_def patch_always_def pods_on_def)

text \<open>Two pods for a card with one share.\<close>

theorem overlapping_filters_overcommit_witness:
  "\<exists>s' d. conc_step\<^sup>*\<^sup>* (example_share, []) (s', []) \<and> registered (sc_nodes s') ''node1'' = Some [d]
     \<and> di_Count d = 1 \<and> 1 < length (uses_of (di_ID d) (pods_on (sc_pods s') ''node1''))"
proof -
  let ?q = "example_gpu_pod\<lparr>pod_UID := ''other''\<rparr>" and ?d = "(example_info ''GPU-1'')\<lparr>di_Count := 1\<rparr>"
  obtain s1 m where plan: "filter_plan example_env example_gpu_pod [''node1''] example_share = Inr (s1, Planned m)"
    and m: "ns_nodeID m = ''node1''" "map cd_UUID (all_devices (ns_devices m)) = [''GPU-1'']"
    using example_share_plan by auto
  have "length (uses_of ''GPU-1'' (all_devices (ns_devices m))) = length (filter (\<lambda>u. u = ''GPU-1'') (map cd_UUID (all_devices (ns_devices m))))"
    by (simp add: uses_of_def filter_map comp_def)
  then have one: "length (uses_of ''GPU-1'' (all_devices (ns_devices m))) = 1" by (simp add: m(2))
  have twin: "pod_Containers ?q = pod_Containers example_gpu_pod" "pod_Annotations ?q = pod_Annotations example_gpu_pod"
    "pod_UID ?q \<noteq> pod_UID example_gpu_pod"
    by (simp_all add: example_gpu_pod_def example_pod_def)
  have card: "registered (sc_nodes example_share) (ns_nodeID m) = Some [?d]" "?d \<in> set [?d]"
    by (simp_all add: example_share_registered m(1))
  have full: "di_Count ?d < int (length (uses_of (di_ID ?d) (pods_on (sc_pods example_share) (ns_nodeID m))))
      + 2 * int (length (uses_of (di_ID ?d) (all_devices (ns_devices m))))"
    using one by (simp add: example_info_def example_share_facts)
  obtain s' where "conc_step\<^sup>*\<^sup>* (example_share, []) (s', [])" "registered (sc_nodes s') ''node1'' = Some [?d]"
    "di_Count ?d < int (length (uses_of (di_ID ?d) (pods_on (sc_pods s') ''node1'')))"
    using overlapping_filters_overcommit [OF example_env_ok example_share_requests example_share_facts(2) plan twin
        example_share_facts(1,1) card full] m(1) by auto
  then show ?thesis by (intro exI [of _ s'] exI [of _ ?d]) simp
qed

text \<open>One pod, planned and committed.\<close>

theorem overlapping_filters_no_overcommit_witness:
  "\<exists>s1 m s2. filter_plan example_env example_gpu_pod [''node1''] example_share = Inr (s1, Planned m)
     \<and> s2 = fst (filter_commit example_env example_gpu_pod m s1)
     \<and> (\<lambda>x y. conc_step x y \<and> apart (snd y))\<^sup>*\<^sup>* (example_share, []) (s2, [])
     \<and> (\<forall>ds d. registered (sc_nodes s2) ''node1'' = Some ds \<longrightarrow> d \<in> set ds \<longrightarrow>
          int (length (uses_of (di_ID d) (pods_on (sc_pods s2) ''node1''))) \<le> di_Count d)"
proof -
  let ?R = "\<lambda>x y. conc_step x y \<and> apart (snd y)" and ?f = "\<lambda>m. (example_env, example_gpu_pod, m)"
  obtain s1 m where plan: "filter_plan example_env example_gpu_pod [''node1''] example_share = Inr (s1, Planned m)"
    using example_share_plan by auto
  define s2 where "s2 = fst (filter_commit example_env example_gpu_pod m s1)"
  have "?R (example_share, []) (s1, [?f m])"
    using conc_plan [OF example_env_ok example_share_requests plan, of "[]"] by (simp add: apart_def)
  moreover have "?R (s1, [?f m]) (s2, [])"
    using conc_commit [of s1 "[]" example_env example_gpu_pod m "[]"] by (simp add: apart_def s2_def)
  ultimately have run: "?R\<^sup>*\<^sup>* (example_share, []) (s2, [])"
    by (rule converse_rtranclp_into_rtranclp [OF _ r_into_rtranclp])
  show ?thesis
    using plan run s2_def overlapping_filters_no_overcommit [OF example_share_inv run] by blast
qed

text \<open>A pod that was on a node of that name before.\<close>

theorem update_during_filter_stale_witness:
  "\<exists>s1 m s' annos' r pi. filter_plan example_env example_gpu_pod [''node1''] example_share = Inr (s1, Planned m)
     \<and> filter_commit example_env example_gpu_pod m (onUpdatePod SupportDevices example_gpu_pod
          (example_gpu_pod\<lparr>pod_Annotations := [(AssignedNodeAnnotations, ''node9'')]\<rparr>) s1) = (s', annos', Inr r)
     \<and> flt_NodeNames r = Some [''node1''] \<and> mget (sc_pods s') (pod_UID example_gpu_pod) = Some pi \<and> pi_NodeID pi = ''node9''"
proof -
  let ?old = "example_gpu_pod\<lparr>pod_Annotations := [(AssignedNodeAnnotations, ''node9'')]\<rparr>"
  obtain s1 m where plan: "filter_plan example_env example_gpu_pod [''node1''] example_share = Inr (s1, Planned m)"
    and m: "ns_nodeID m = ''node1''"
    using example_share_plan by auto
  obtain annos' where patch: "fe_patch example_env (pod_Annotations example_gpu_pod) (filter_annotations example_env m) = Inr annos'"
    using example_share_facts(2) by blast
  have old: "pod_UID ?old = pod_UID example_gpu_pod" "mget (pod_Annotations ?old) AssignedNodeAnnotations = Some ''node9''"
    "\<not> IsPodInTerminatedState ?old"
    by (simp_all add: IsPodInTerminatedState_def example_gpu_pod_def example_pod_def)
  show ?thesis
    using update_during_filter_stale [OF plan old patch, of SupportDevices example_gpu_pod] plan m
    by (fastforce simp: make_pod_info_def)
qed

section \<open>The overview after a refused patch\<close>

text \<open>The overview shares the devices that \<open>calcScore\<close> books: when the API server refuses the patch, the card of the
  pod that is not placed is shown as used until the usage is computed again.\<close>
lemma refused_patch_in_overview:
  "\<exists>s' us. Filter refusing_env example_gpu_pod [''node1''] example_share
       = Inr (s', pod_Annotations example_gpu_pod, Inl (Errorf ''conflict''))
     \<and> sc_pods s' = [] \<and> mget (InspectAllNodesUsage s') ''node1'' = Some us \<and> map du_Used us = [1]"
proof -
  have "map_sum id (\<lambda>x. (case snd x of Planned m \<Rightarrow> True | _ \<Rightarrow> False, sc_pods (fst x),
        map_option (map du_Used) (mget (InspectAllNodesUsage (fst x)) ''node1'')))
      (filter_plan refusing_env example_gpu_pod [''node1''] example_share) = Inr (True, [], Some [1])"
    by code_simp
  then obtain s1 m us where plan: "filter_plan refusing_env example_gpu_pod [''node1''] example_share = Inr (s1, Planned m)"
    and s1: "sc_pods s1 = []" "mget (InspectAllNodesUsage s1) ''node1'' = Some us" "map du_Used us = [1]"
    by (cases "filter_plan refusing_env example_gpu_pod [''node1''] example_share")
      (auto split: filter_phase.splits prod.splits)
  have "delPod example_gpu_pod (addPod example_gpu_pod (ns_nodeID m) (ns_devices m) []) = []"
    by (simp add: addPod_def delPod_mdel mset_to_new mdel_def)
  then show ?thesis
    using plan s1 by (simp add: Filter_phases filter_commit_def Let_def refusing_env_def InspectAllNodesUsage_def)
qed

end
