(* ===== verification/Monitor.thy ===== *)
theory Monitor
  imports Types
begin

text \<open>
  The node monitor, \<open>cmd/vGPUmonitor\<close>: the memory regions that the containers' CUDA library shares with
  the monitor (\<open>cudevshr.go\<close>), the search for them (\<open>pathmonitor.go\<close>), and the feedback that lets tasks of
  high priority block the others (\<open>feedback.go\<close>).  A region is a record; the monitor reads and writes it
  through a pointer, one region per container.  A round of \<open>Observe\<close> is taken as atomic: what the library
  writes meanwhile is seen in the next round.
\<close>

section \<open>The shared regions\<close>

record device_memory =
  dm_contextSize :: "64 word"
  dm_moduleSize :: "64 word"
  dm_bufferSize :: "64 word"
  dm_offset :: "64 word"
  dm_total :: "64 word"

record proc_slot =
  ps_pid :: int
  ps_hostpid :: int
  ps_used :: "device_memory list"
  ps_monitorused :: "64 word list"
  ps_status :: int

record shared_region =
  sg_initializedFlag :: int
  sg_smInitFlag :: int
  sg_ownerPid :: "32 word"
  sg_sem :: string
  sg_num :: "64 word"
  sg_uuids :: "string list"
  sg_limit :: "64 word list"
  sg_sm_limit :: "64 word list"
  sg_procs :: "proc_slot list"
  sg_procnum :: int
  sg_utilizationSwitch :: int
  sg_recentKernel :: int
  sg_priority :: int

record podusage =
  pu_idstr :: string
  pu_sr :: "shared_region option"

type_synonym podmap = "(string, podusage) gomap"

text \<open>The sum wraps at 64 bits.  An index outside the array of 16 devices panics, also the 16 that the test lets pass.\<close>

fun sum_memory :: "int \<Rightarrow> proc_slot list \<Rightarrow> 64 word \<Rightarrow> (64 word) result" where
  "sum_memory idx [] acc = Inr acc"
| "sum_memory idx (val # procs) acc =
     bind_result (slice_get (ps_used val) idx) (\<lambda>m. sum_memory idx procs (acc + dm_total m))"

definition getDeviceUsedMemory :: "int \<Rightarrow> shared_region \<Rightarrow> (64 word) result" where
  "getDeviceUsedMemory idx sr =
     (if idx < 0 \<or> idx > 16 then Inl (Errorf ''out of device idx'') else sum_memory idx (sg_procs sr) 0)"

fun add_usage :: "int \<Rightarrow> proc_slot list \<Rightarrow> device_memory \<Rightarrow> device_memory result" where
  "add_usage vidx [] added = Inr added"
| "add_usage vidx (val # procs) added =
     bind_result (slice_get (ps_used val) vidx) (\<lambda>m. add_usage vidx procs
       \<lparr>dm_contextSize = dm_contextSize added + dm_contextSize m, dm_moduleSize = dm_moduleSize added + dm_moduleSize m,
        dm_bufferSize = dm_bufferSize added + dm_bufferSize m, dm_offset = dm_offset added + dm_offset m,
        dm_total = dm_total added + dm_total m\<rparr>)"

definition gettotalusage :: "shared_region \<Rightarrow> int \<Rightarrow> device_memory result" where
  "gettotalusage sr vidx =
     add_usage vidx (sg_procs sr) \<lparr>dm_contextSize = 0, dm_moduleSize = 0, dm_bufferSize = 0, dm_offset = 0, dm_total = 0\<rparr>"

section \<open>Finding the containers\<close>

text \<open>
  What the file system answers: the entries of a directory, whether the directory of a container is older
  than five minutes (\<open>None\<close> when it cannot be examined), the outcome of its removal, and the region mapped
  from a cache file.
\<close>

record monitor_env =
  me_ReadDir :: "string \<Rightarrow> string list result"
  me_Stat :: "string \<Rightarrow> bool option"
  me_RemoveAll :: "string \<Rightarrow> unit result"
  me_mmap :: "string \<Rightarrow> shared_region result"

text \<open>\<open>getvGPUMemoryInfo\<close> drops the error of the mapping and returns a nil pointer; a fault while the file is mapped
  is not an error and ends the process.\<close>

definition getvGPUMemoryInfo :: "monitor_env \<Rightarrow> string \<Rightarrow> shared_region option result" where
  "getvGPUMemoryInfo env path =
     (if path \<noteq> [] then (case me_mmap env path of Inr sr \<Rightarrow> Inr (Some sr) | Inl (GoPanic s) \<Rightarrow> Inl (GoPanic s) | Inl _ \<Rightarrow> Inr None)
      else Inl (Errorf ''not found path''))"

fun check_names :: "monitor_env \<Rightarrow> string \<Rightarrow> string list \<Rightarrow> shared_region option result" where
  "check_names env fpath [] = Inr None"
| "check_names env fpath (name # names) =
     (if Contains name ''libvgpu.so'' \<or> \<not> Contains name ''.cache'' then check_names env fpath names
      else case getvGPUMemoryInfo env (fpath @ ''/'' @ name) of
             Inl (GoPanic s) \<Rightarrow> Inl (GoPanic s)
           | Inl _ \<Rightarrow> check_names env fpath names
           | Inr None \<Rightarrow> Inl (GoPanic ''nil pointer dereference'')
           | Inr (Some sr) \<Rightarrow> Inr (Some sr))"

definition checkfiles :: "monitor_env \<Rightarrow> string \<Rightarrow> shared_region option result" where
  "checkfiles env fpath =
     bind_result (me_ReadDir env fpath) (\<lambda>files.
       if length files > 2 then Inl (Errorf ''cache num not matched'') else check_names env fpath files)"

definition isVaildPod :: "string \<Rightarrow> pod list \<Rightarrow> bool" where
  "isVaildPod name pods = list_ex (\<lambda>val. Contains name (pod_UID val)) pods"

text \<open>A directory that cannot be examined has no modification time: a nil dereference.\<close>

definition monitor_dir :: "monitor_env \<Rightarrow> string \<Rightarrow> pod list \<Rightarrow> string \<Rightarrow> podmap \<Rightarrow> unit result \<times> podmap" where
  "monitor_dir env containerPath pods name podmap =
     (let dirname = containerPath @ ''/'' @ name
      in case me_Stat env dirname of
           None \<Rightarrow> (Inl (GoPanic ''nil pointer dereference''), podmap)
         | Some expired \<Rightarrow>
             if \<not> isVaildPod name pods then
               (if expired then (me_RemoveAll env dirname, mdel podmap dirname) else (Inr (), podmap))
             else if mget podmap dirname \<noteq> None then (Inr (), podmap)
             else
               (case checkfiles env dirname of
                  Inl e \<Rightarrow> (Inl e, podmap)
                | Inr None \<Rightarrow> (Inr (), podmap)
                | Inr (Some sr) \<Rightarrow> (Inr (), mset_to podmap dirname \<lparr>pu_idstr = name, pu_sr = Some sr\<rparr>)))"

fun monitor_dirs :: "monitor_env \<Rightarrow> string \<Rightarrow> pod list \<Rightarrow> string list \<Rightarrow> podmap \<Rightarrow> unit result \<times> podmap" where
  "monitor_dirs env containerPath pods [] podmap = (Inr (), podmap)"
| "monitor_dirs env containerPath pods (name # names) podmap =
     (case monitor_dir env containerPath pods name podmap of
        (Inl e, podmap') \<Rightarrow> (Inl e, podmap')
      | (Inr _, podmap') \<Rightarrow> monitor_dirs env containerPath pods names podmap')"

text \<open>When the pods cannot be listed, nothing is done and no error is reported.\<close>

definition monitorpath :: "monitor_env \<Rightarrow> string \<Rightarrow> pod list result \<Rightarrow> podmap \<Rightarrow> unit result \<times> podmap" where
  "monitorpath env containerPath podlist podmap =
     (case me_ReadDir env containerPath of
        Inl e \<Rightarrow> (Inl e, podmap)
      | Inr files \<Rightarrow>
          (case podlist of
             Inl _ \<Rightarrow> (Inr (), podmap)
           | Inr pods \<Rightarrow> monitor_dirs env containerPath pods files podmap))"

section \<open>Feedback\<close>

text \<open>
  \<open>utSwitchOn\<close> counts, for every card, the recently active tasks of each of the two priorities.
\<close>

type_synonym switches = "(string, int list) gomap"

fun any_above :: "int list \<Rightarrow> int list \<Rightarrow> bool result" where
  "any_above c [] = Inr False"
| "any_above c (i # is) = bind_result (slice_get c i) (\<lambda>n. if n > 0 then Inr True else any_above c is)"

fun CheckBlocking :: "switches \<Rightarrow> int \<Rightarrow> string list \<Rightarrow> bool result" where
  "CheckBlocking utSwitchOn p [] = Inr False"
| "CheckBlocking utSwitchOn p (devuuid # uuids) =
     (case mget utSwitchOn devuuid of
        Some c \<Rightarrow> any_above c [0..p - 1]
      | None \<Rightarrow> CheckBlocking utSwitchOn p uuids)"

fun CheckPriority :: "switches \<Rightarrow> int \<Rightarrow> string list \<Rightarrow> bool result" where
  "CheckPriority utSwitchOn p [] = Inr False"
| "CheckPriority utSwitchOn p (devuuid # uuids) =
     (case mget utSwitchOn devuuid of
        None \<Rightarrow> CheckPriority utSwitchOn p uuids
      | Some c \<Rightarrow>
          bind_result (any_above c [0..p - 1]) (\<lambda>above.
            if above then Inr True
            else bind_result (slice_get c p) (\<lambda>n. if n > 1 then Inr True else CheckPriority utSwitchOn p uuids)))"

definition null_device :: "string \<Rightarrow> bool" where
  "null_device u \<longleftrightarrow> u = [] \<or> hd u = CHR 0x00"

definition count_uuid :: "int \<Rightarrow> string \<Rightarrow> switches \<Rightarrow> switches result" where
  "count_uuid prio u utSwitchOn =
     (if null_device u then Inr utSwitchOn
      else
        let c = (if mget_list utSwitchOn u = [] then [0, 0] else mget_list utSwitchOn u)
        in bind_result (slice_get c prio) (\<lambda>n. bind_result (slice_set c prio (n + 1)) (\<lambda>c'. Inr (mset_to utSwitchOn u c'))))"

fun count_uuids :: "int \<Rightarrow> string list \<Rightarrow> switches \<Rightarrow> switches result" where
  "count_uuids prio [] utSwitchOn = Inr utSwitchOn"
| "count_uuids prio (u # uuids) utSwitchOn = bind_result (count_uuid prio u utSwitchOn) (count_uuids prio uuids)"

text \<open>The first loop ages the activity of every region and counts the ones still active.\<close>

definition aged :: "int \<Rightarrow> int" where
  "aged k = (if k > 0 then k - 1 else k)"

fun observe_count :: "podmap \<Rightarrow> switches \<Rightarrow> (podmap \<times> switches) result" where
  "observe_count [] utSwitchOn = Inr ([], utSwitchOn)"
| "observe_count ((idx, val) # srlist) utSwitchOn =
     (case pu_sr val of
        None \<Rightarrow> bind_result (observe_count srlist utSwitchOn) (\<lambda>(srlist', sw). Inr ((idx, val) # srlist', sw))
      | Some sr \<Rightarrow>
          bind_result (if sg_recentKernel sr > 0 \<and> aged (sg_recentKernel sr) > 0
                       then count_uuids (sg_priority sr) (sg_uuids sr) utSwitchOn else Inr utSwitchOn) (\<lambda>sw1.
          bind_result (observe_count srlist sw1) (\<lambda>(srlist', sw).
            Inr ((idx, val\<lparr>pu_sr := Some (sr\<lparr>sg_recentKernel := aged (sg_recentKernel sr)\<rparr>)\<rparr>) # srlist', sw))))"

text \<open>The second loop sets the switches of every region.\<close>

definition set_switches :: "bool \<Rightarrow> bool \<Rightarrow> shared_region \<Rightarrow> shared_region" where
  "set_switches blocking contended sr =
     sr\<lparr>sg_recentKernel := (if blocking then (if sg_recentKernel sr \<ge> 0 then - 1 else sg_recentKernel sr)
                           else (if sg_recentKernel sr < 0 then 0 else sg_recentKernel sr)),
        sg_utilizationSwitch := (if contended then 1 else 0)\<rparr>"

fun observe_apply :: "switches \<Rightarrow> podmap \<Rightarrow> podmap result" where
  "observe_apply utSwitchOn [] = Inr []"
| "observe_apply utSwitchOn ((idx, val) # srlist) =
     (case pu_sr val of
        None \<Rightarrow> bind_result (observe_apply utSwitchOn srlist) (\<lambda>srlist'. Inr ((idx, val) # srlist'))
      | Some sr \<Rightarrow>
          bind_result (CheckBlocking utSwitchOn (sg_priority sr) (sg_uuids sr)) (\<lambda>blocking.
          bind_result (CheckPriority utSwitchOn (sg_priority sr) (sg_uuids sr)) (\<lambda>contended.
          bind_result (observe_apply utSwitchOn srlist) (\<lambda>srlist'.
            Inr ((idx, val\<lparr>pu_sr := Some (set_switches blocking contended sr)\<rparr>) # srlist')))))"

definition Observe :: "podmap \<Rightarrow> podmap result" where
  "Observe srlist = bind_result (observe_count srlist []) (\<lambda>(srlist', utSwitchOn). observe_apply utSwitchOn srlist')"

text \<open>One round of the endless loop \<open>watchAndFeedback\<close>; an error of \<open>monitorpath\<close> is only logged.\<close>

definition feedback_round :: "monitor_env \<Rightarrow> string \<Rightarrow> pod list result \<Rightarrow> podmap \<Rightarrow> podmap result" where
  "feedback_round env containerPath podlist srPodList =
     (case monitorpath env containerPath podlist srPodList of
        (Inl (GoPanic s), _) \<Rightarrow> Inl (GoPanic s)
      | (_, srPodList') \<Rightarrow> Observe srPodList')"

section \<open>Process ids on the host\<close>

text \<open>0: unknown, 1: cgroupfs, 2: systemd.\<close>

definition setcGgroupDriver :: "string result \<Rightarrow> nat" where
  "setcGgroupDriver kubeletconfig =
     (case kubeletconfig of
        Inl _ \<Rightarrow> 0
      | Inr content \<Rightarrow>
          if \<not> Contains content ''cgroupDriver:'' then 0
          else if Contains content ''systemd'' then 2
          else if Contains content ''cgroupfs'' then 1 else 0)"

fun distinct_pids :: "nat list \<Rightarrow> nat list \<Rightarrow> nat list" where
  "distinct_pids res [] = res"
| "distinct_pids res (v # vs) = distinct_pids (if v \<in> set res then res else res @ [v]) vs"

text \<open>The processes NVML reports for every card; the list that is sorted at the end is not the one returned.\<close>

fun running_pids :: "nat list result list \<Rightarrow> nat list result" where
  "running_pids [] = Inr []"
| "running_pids (d # ds) = bind_result d (\<lambda>pids. bind_result (running_pids ds) (\<lambda>rest. Inr (pids @ rest)))"

definition getUsedGPUPid :: "nat list result list result \<Rightarrow> nat list result" where
  "getUsedGPUPid devices = bind_result devices (\<lambda>ds. bind_result (running_pids ds) (\<lambda>tmp. Inr (distinct_pids [] tmp)))"

text \<open>The host processes of a container that use a GPU, with the times of their creation.\<close>

fun host_pids :: "(int \<Rightarrow> nat result) \<Rightarrow> string list \<Rightarrow> (int \<times> nat) list result" where
  "host_pids lstat [] = Inr []"
| "host_pids lstat (val # pids) =
     (let tmp = fst (Atoi val)
      in if tmp = 0 then host_pids lstat pids
         else bind_result (lstat tmp) (\<lambda>mtime. bind_result (host_pids lstat pids) (\<lambda>rest. Inr ((tmp, mtime) # rest))))"

definition using_gpu :: "nat list \<Rightarrow> (int \<times> nat) list \<Rightarrow> (int \<times> nat) list" where
  "using_gpu used hosts = concat (map (\<lambda>val. filter (\<lambda>h. fst h = int val) hosts) used)"

text \<open>The slots up to the first free one get the host ids in the order of the times.\<close>

fun assign_pids :: "(int \<times> nat) list \<Rightarrow> proc_slot list \<Rightarrow> proc_slot list" where
  "assign_pids hosts [] = []"
| "assign_pids hosts (val # procs) =
     (if ps_pid val = 0 then val # procs
      else case hosts of
             [] \<Rightarrow> val # procs
           | h # hosts' \<Rightarrow>
               (if ps_hostpid val = 0 \<or> ps_hostpid val \<noteq> i32 (fst h) then val\<lparr>ps_hostpid := i32 (fst h)\<rparr> else val)
               # assign_pids hosts' procs)"

definition cgroup_tasks :: "nat \<Rightarrow> string \<Rightarrow> string \<Rightarrow> string \<Rightarrow> string" where
  "cgroup_tasks driver qos uid containerID =
     (let ctr = TrimPrefix containerID ''docker://''
      in if driver = 1 then ''/sysinfo/fs/cgroup/memory/kubepods/'' @ qos @ ''/pod'' @ uid @ ''/'' @ ctr @ ''/tasks''
         else if driver = 2 then
           ''/sysinfo/fs/cgroup/systemd/kubepods.slice/kubepods-'' @ qos @ ''.slice/kubepods-'' @ qos @ ''-pod''
           @ map (\<lambda>c. if c = CHR ''-'' then CHR ''_'' else c) uid @ ''.slice/docker-'' @ ctr @ ''.scope/tasks''
         else [])"

definition setHostPid ::
  "((int \<times> nat \<Rightarrow> int \<times> nat \<Rightarrow> bool) \<Rightarrow> (int \<times> nat) list \<Rightarrow> (int \<times> nat) list) \<Rightarrow> nat \<Rightarrow> nat list result \<Rightarrow>
   (string \<Rightarrow> string result) \<Rightarrow> (int \<Rightarrow> nat result) \<Rightarrow> string \<Rightarrow> string \<Rightarrow> string \<Rightarrow> podusage \<Rightarrow> podusage result" where
  "setHostPid srt driver used ReadFile lstat QOSClass uid containerID pu =
     (if driver = 0 then Inl (Errorf ''can not identify cgroup driver'')
      else case used of
             Inl _ \<Rightarrow> Inl (Errorf ''get usedGPUID failed'')
           | Inr pids \<Rightarrow>
               if pids = [] then Inr pu
               else bind_result (ReadFile (cgroup_tasks driver (ToLower QOSClass) uid containerID)) (\<lambda>content.
                    bind_result (host_pids lstat (Split CHR 0x0A content)) (\<lambda>hosts.
                      let sorted = srt (\<lambda>a b. snd a > snd b) (using_gpu pids hosts)
                      in Inr (case pu_sr pu of
                                None \<Rightarrow> pu
                              | Some sr \<Rightarrow> pu\<lparr>pu_sr := Some (sr\<lparr>sg_procs := assign_pids sorted (sg_procs sr)\<rparr>)\<rparr>))))"

definition ValidateEnvVars :: "(string \<Rightarrow> bool) \<Rightarrow> unit result" where
  "ValidateEnvVars exists =
     (if exists ''HOOK_PATH'' then Inr () else Inl (Errorf ''required environment variable HOOK_PATH not set''))"

section \<open>The feedback on counts\<close>

text \<open>
  The reference: \<open>uses q u srlist\<close> is how often the card \<open>u\<close> is listed by active regions of priority \<open>q\<close>.
  A region is blocked when it has the low priority and the first of its cards that is in use at all is
  used with the high priority; it is contended when one of its cards is used with a higher priority, or
  more than once with its own.
\<close>

definition active :: "shared_region \<Rightarrow> bool" where
  "active sr \<longleftrightarrow> sg_recentKernel sr > 1"

definition region_uses :: "int \<Rightarrow> string \<Rightarrow> podusage \<Rightarrow> nat" where
  "region_uses q u pu = (case pu_sr pu of None \<Rightarrow> 0 | Some sr \<Rightarrow>
     if active sr \<and> sg_priority sr = q \<and> \<not> null_device u then count_list (sg_uuids sr) u else 0)"

definition uses :: "int \<Rightarrow> string \<Rightarrow> podmap \<Rightarrow> nat" where
  "uses q u srlist = sum_list (map (region_uses q u \<circ> snd) srlist)"

definition in_use :: "podmap \<Rightarrow> string \<Rightarrow> bool" where
  "in_use srlist u \<longleftrightarrow> uses 0 u srlist + uses 1 u srlist > 0"

definition blocked_in :: "podmap \<Rightarrow> shared_region \<Rightarrow> bool" where
  "blocked_in srlist sr \<longleftrightarrow> sg_priority sr = 1 \<and>
     (case find (in_use srlist) (sg_uuids sr) of None \<Rightarrow> False | Some u \<Rightarrow> uses 0 u srlist > 0)"

definition contended_in :: "podmap \<Rightarrow> shared_region \<Rightarrow> bool" where
  "contended_in srlist sr \<longleftrightarrow>
     (\<exists>u\<in>set (sg_uuids sr). (sg_priority sr = 1 \<and> uses 0 u srlist > 0) \<or> uses (sg_priority sr) u srlist > 1)"

definition next_region :: "podmap \<Rightarrow> shared_region \<Rightarrow> shared_region" where
  "next_region srlist sr = set_switches (blocked_in srlist sr) (contended_in srlist sr)
     (sr\<lparr>sg_recentKernel := aged (sg_recentKernel sr)\<rparr>)"

definition next_podmap :: "podmap \<Rightarrow> podmap" where
  "next_podmap srlist = map (\<lambda>(idx, val). (idx, val\<lparr>pu_sr := map_option (next_region srlist) (pu_sr val)\<rparr>)) srlist"

definition two_priorities :: "podmap \<Rightarrow> bool" where
  "two_priorities srlist \<longleftrightarrow> (\<forall>val\<in>snd ` set srlist. \<forall>sr. pu_sr val = Some sr \<longrightarrow> sg_priority sr = 0 \<or> sg_priority sr = 1)"

text \<open>The switches represent two counting functions.\<close>

definition counts :: "switches \<Rightarrow> (int \<Rightarrow> string \<Rightarrow> nat) \<Rightarrow> bool" where
  "counts sw f \<longleftrightarrow> (\<forall>u. mget sw u = (if f 0 u + f 1 u = 0 then None else Some [int (f 0 u), int (f 1 u)]))"

lemma count_uuid_counts:
  assumes "counts sw f" and "q = 0 \<or> q = 1" and "\<not> null_device u"
  shows "\<exists>sw'. count_uuid q u sw = Inr sw' \<and> counts sw' (\<lambda>p v. f p v + (if p = q \<and> v = u then 1 else 0))"
proof -
  have "mget sw u = (if f 0 u + f 1 u = 0 then None else Some [int (f 0 u), int (f 1 u)])"
    using assms(1) by (simp add: counts_def)
  then have "(if mget_list sw u = [] then [0, 0] else mget_list sw u) = [int (f 0 u), int (f 1 u)]"
    by (auto simp: mget_default_def)
  then show ?thesis
    using assms by (auto simp: count_uuid_def Let_def slice_get_def slice_set_def counts_def)
qed

lemma count_uuids_counts:
  assumes "counts sw f" and "q = 0 \<or> q = 1"
  shows "\<exists>sw'. count_uuids q us sw = Inr sw'
     \<and> counts sw' (\<lambda>p v. f p v + (if p = q \<and> \<not> null_device v then count_list us v else 0))"
  using assms(1)
proof (induction us arbitrary: sw f)
  case Nil
  then show ?case by (simp cong: if_cong)
next
  case (Cons u us)
  show ?case
  proof (cases "null_device u")
    case True
    obtain sw' where sw': "count_uuids q us sw = Inr sw'"
      "counts sw' (\<lambda>p v. f p v + (if p = q \<and> \<not> null_device v then count_list us v else 0))"
      using Cons.IH [OF Cons.prems] by blast
    moreover have "(\<lambda>p v. f p v + (if p = q \<and> \<not> null_device v then count_list us v else 0))
        = (\<lambda>p v. f p v + (if p = q \<and> \<not> null_device v then count_list (u # us) v else 0))"
      using True by (intro ext) auto
    ultimately show ?thesis using True by (simp add: count_uuid_def)
  next
    case False
    obtain sw1 where sw1: "count_uuid q u sw = Inr sw1" "counts sw1 (\<lambda>p v. f p v + (if p = q \<and> v = u then 1 else 0))"
      using count_uuid_counts [OF Cons.prems assms(2) False] by blast
    obtain sw' where sw': "count_uuids q us sw1 = Inr sw'"
      "counts sw' (\<lambda>p v. f p v + (if p = q \<and> v = u then 1 else 0) + (if p = q \<and> \<not> null_device v then count_list us v else 0))"
      using Cons.IH [OF sw1(2)] by blast
    moreover have "(\<lambda>p v. f p v + (if p = q \<and> v = u then 1 else 0) + (if p = q \<and> \<not> null_device v then count_list us v else 0))
        = (\<lambda>p v. f p v + (if p = q \<and> \<not> null_device v then count_list (u # us) v else 0))"
      using False by (intro ext) auto
    ultimately show ?thesis using sw1(1) by simp
  qed
qed

definition age_region :: "podusage \<Rightarrow> podusage" where
  "age_region val = val\<lparr>pu_sr := map_option (\<lambda>sr. sr\<lparr>sg_recentKernel := aged (sg_recentKernel sr)\<rparr>) (pu_sr val)\<rparr>"

lemma observe_count_counts:
  assumes "counts sw f" and "two_priorities srlist"
  shows "\<exists>sw'. observe_count srlist sw = Inr (map (\<lambda>(idx, val). (idx, age_region val)) srlist, sw')
     \<and> counts sw' (\<lambda>q u. f q u + uses q u srlist)"
  using assms
proof (induction srlist arbitrary: sw f)
  case Nil
  then show ?case by (simp add: uses_def)
next
  case (Cons e srlist)
  obtain idx val where e: "e = (idx, val)" by fastforce
  have two: "two_priorities srlist" using Cons.prems(2) by (auto simp: two_priorities_def)
  show ?case
  proof (cases "pu_sr val")
    case None
    then show ?thesis
      using Cons.IH [OF Cons.prems(1) two] e by (auto simp: uses_def region_uses_def age_region_def intro: podusage.equality)
  next
    case (Some sr)
    have q: "sg_priority sr = 0 \<or> sg_priority sr = 1" using Cons.prems(2) Some e by (auto simp: two_priorities_def)
    let ?g = "\<lambda>q u. f q u + region_uses q u val"
    have "\<exists>sw1. (if sg_recentKernel sr > 0 \<and> aged (sg_recentKernel sr) > 0
        then count_uuids (sg_priority sr) (sg_uuids sr) sw else Inr sw) = Inr sw1 \<and> counts sw1 ?g"
    proof (cases "active sr")
      case True
      have "?g = (\<lambda>p v. f p v + (if p = sg_priority sr \<and> \<not> null_device v then count_list (sg_uuids sr) v else 0))"
        using True Some by (intro ext) (auto simp: region_uses_def)
      then show ?thesis
        using count_uuids_counts [OF Cons.prems(1) q, of "sg_uuids sr"] True by (simp add: active_def aged_def)
    next
      case False
      then have "?g = f" using Some by (intro ext) (simp add: region_uses_def)
      then show ?thesis using False Cons.prems(1) by (auto simp: active_def aged_def)
    qed
    then obtain sw1 where sw1: "(if sg_recentKernel sr > 0 \<and> aged (sg_recentKernel sr) > 0
        then count_uuids (sg_priority sr) (sg_uuids sr) sw else Inr sw) = Inr sw1" "counts sw1 ?g" by blast
    show ?thesis
      using Cons.IH [OF sw1(2) two] sw1(1) e Some by (auto simp: uses_def age_region_def add.assoc)
  qed
qed

lemma any_above_counts:
  assumes "q = 0 \<or> q = 1"
  shows "any_above [int a, int b] [0..q - 1] = Inr (q = 1 \<and> a > 0)"
  using assms by (auto simp: slice_get_def)

lemma CheckBlocking_counts:
  assumes "counts sw f" and "q = 0 \<or> q = 1"
  shows "CheckBlocking sw q us = Inr (q = 1 \<and> (case find (\<lambda>u. f 0 u + f 1 u > 0) us of None \<Rightarrow> False | Some u \<Rightarrow> f 0 u > 0))"
proof (induction us)
  case (Cons u us)
  have "mget sw u = (if f 0 u + f 1 u = 0 then None else Some [int (f 0 u), int (f 1 u)])"
    using assms(1) by (simp add: counts_def)
  then show ?case using Cons any_above_counts [OF assms(2)] by auto
qed simp

lemma CheckPriority_counts:
  assumes "counts sw f" and "q = 0 \<or> q = 1"
  shows "CheckPriority sw q us = Inr (\<exists>u\<in>set us. (q = 1 \<and> f 0 u > 0) \<or> f q u > 1)"
proof (induction us)
  case (Cons u us)
  have "mget sw u = (if f 0 u + f 1 u = 0 then None else Some [int (f 0 u), int (f 1 u)])"
    using assms(1) by (simp add: counts_def)
  then show ?case using Cons any_above_counts [OF assms(2)] assms(2) by (auto simp: slice_get_def)
qed simp

lemma observe_apply_counts:
  assumes "counts sw (\<lambda>q u. uses q u all)" and "two_priorities srlist"
  shows "observe_apply sw (map (\<lambda>(idx, val). (idx, age_region val)) srlist)
     = Inr (map (\<lambda>(idx, val). (idx, val\<lparr>pu_sr := map_option (next_region all) (pu_sr val)\<rparr>)) srlist)"
  using assms(2)
proof (induction srlist)
  case (Cons e srlist)
  obtain idx val where e: "e = (idx, val)" by fastforce
  have two: "two_priorities srlist" using Cons.prems by (auto simp: two_priorities_def)
  show ?case
  proof (cases "pu_sr val")
    case None
    then show ?thesis using Cons.IH [OF two] e by (simp add: age_region_def)
  next
    case (Some sr)
    have q: "sg_priority sr = 0 \<or> sg_priority sr = 1" using Cons.prems Some e by (auto simp: two_priorities_def)
    then show ?thesis
      using Cons.IH [OF two] e Some CheckBlocking_counts [OF assms(1) q] CheckPriority_counts [OF assms(1) q]
      by (simp add: age_region_def next_region_def blocked_in_def contended_in_def in_use_def [abs_def])
  qed
qed simp

section \<open>Properties of the feedback\<close>

lemma Observe_counts:
  assumes "two_priorities srlist"
  shows "Observe srlist = Inr (next_podmap srlist)"
proof -
  have "counts [] (\<lambda>_ _. 0)" by (simp add: counts_def)
  then obtain sw where "observe_count srlist [] = Inr (map (\<lambda>(idx, val). (idx, age_region val)) srlist, sw)"
    "counts sw (\<lambda>q u. uses q u srlist)"
    using observe_count_counts [OF _ assms] by fastforce
  then show ?thesis
    using observe_apply_counts [OF _ assms] by (simp add: Observe_def next_podmap_def)
qed

text \<open>C30: a round of feedback does what the counts of the active tasks say, in whatever order the map is
  visited: with the priorities 0 and 1, \<open>Observe\<close> never panics, ages the activity of every region by one,
  blocks exactly the low-priority regions whose first card in use is used by an active task of high
  priority, releases all others, and switches the utilisation limit on exactly for the regions that share
  a card with an active task of higher priority or with another one of their own.\<close>
theorem Observe_reference:
  assumes "two_priorities srlist"
  shows "Observe srlist = Inr (map (\<lambda>(idx, val). (idx, val\<lparr>pu_sr := map_option
     (\<lambda>sr. sr\<lparr>sg_recentKernel := (if blocked_in srlist sr then min (- 1) (aged (sg_recentKernel sr)) else max 0 (aged (sg_recentKernel sr))),
              sg_utilizationSwitch := (if contended_in srlist sr then 1 else 0)\<rparr>) (pu_sr val)\<rparr>)) srlist)"
proof -
  have "next_region srlist = (\<lambda>sr. sr\<lparr>sg_recentKernel := (if blocked_in srlist sr then min (- 1) (aged (sg_recentKernel sr))
        else max 0 (aged (sg_recentKernel sr))), sg_utilizationSwitch := (if contended_in srlist sr then 1 else 0)\<rparr>)"
    by (intro ext) (simp add: next_region_def set_switches_def)
  then show ?thesis using Observe_counts [OF assms] by (simp add: next_podmap_def)
qed

definition example_region :: "int \<Rightarrow> int \<Rightarrow> shared_region" where
  "example_region prio recent = \<lparr>sg_initializedFlag = 19920718, sg_smInitFlag = 0, sg_ownerPid = 0, sg_sem = [], sg_num = 1,
     sg_uuids = [''GPU-0''], sg_limit = [], sg_sm_limit = [], sg_procs = [], sg_procnum = 1, sg_utilizationSwitch = 0,
     sg_recentKernel = recent, sg_priority = prio\<rparr>"

definition example_podmap :: podmap where
  "example_podmap = [(''low'', \<lparr>pu_idstr = ''u1_c'', pu_sr = Some (example_region 1 5)\<rparr>),
     (''high'', \<lparr>pu_idstr = ''u2_c'', pu_sr = Some (example_region 0 3)\<rparr>)]"

lemma example_two_priorities: "two_priorities example_podmap"
  by (simp add: two_priorities_def example_podmap_def example_region_def)

theorem Observe_reference_witness:
  "\<exists>srlist'. Observe example_podmap = Inr srlist'
     \<and> map_option sg_recentKernel (pu_sr (snd (srlist' ! 0))) = Some (- 1)
     \<and> map_option sg_recentKernel (pu_sr (snd (srlist' ! 1))) = Some 2"
proof -
  have "uses 0 ''GPU-0'' example_podmap = 1" "uses 1 ''GPU-0'' example_podmap = 1"
    by (simp_all add: uses_def region_uses_def example_podmap_def example_region_def active_def null_device_def)
  then have blocked: "blocked_in example_podmap (example_region 1 5)" "\<not> blocked_in example_podmap (example_region 0 3)"
    by (simp_all add: blocked_in_def in_use_def example_region_def)
  have example_map: "map g example_podmap = [g (''low'', \<lparr>pu_idstr = ''u1_c'', pu_sr = Some (example_region 1 5)\<rparr>),
      g (''high'', \<lparr>pu_idstr = ''u2_c'', pu_sr = Some (example_region 0 3)\<rparr>)]" for g :: "_ \<Rightarrow> string \<times> podusage"
    by (simp add: example_podmap_def)
  show ?thesis
    using blocked Observe_reference [OF example_two_priorities]
    by (simp add: example_map aged_def) (simp add: example_region_def)
qed

lemma high_priority_never_blocked: "sg_priority sr = 0 \<Longrightarrow> \<not> blocked_in srlist sr"
  by (simp add: blocked_in_def)

text \<open>Rounds of feedback while the library launches no further kernels.\<close>

primrec observe_rounds :: "nat \<Rightarrow> podmap \<Rightarrow> podmap result" where
  "observe_rounds 0 srlist = Inr srlist"
| "observe_rounds (Suc n) srlist = bind_result (Observe srlist) (observe_rounds n)"

definition activity_at_most :: "int \<Rightarrow> podmap \<Rightarrow> bool" where
  "activity_at_most n srlist \<longleftrightarrow> (\<forall>val\<in>snd ` set srlist. \<forall>sr. pu_sr val = Some sr \<longrightarrow> sg_recentKernel sr \<le> n)"

lemma next_podmap_region:
  assumes "val' \<in> snd ` set (next_podmap srlist)" and "pu_sr val' = Some sr'"
  obtains val sr where "val \<in> snd ` set srlist" "pu_sr val = Some sr" "sr' = next_region srlist sr"
proof -
  obtain idx val where "(idx, val) \<in> set srlist" "val' = val\<lparr>pu_sr := map_option (next_region srlist) (pu_sr val)\<rparr>"
    using assms(1) by (auto simp: next_podmap_def)
  then show thesis using that [of val] assms(2) by force
qed

lemma Observe_activity:
  assumes "two_priorities srlist" and "activity_at_most (int n) srlist"
  shows "two_priorities (next_podmap srlist)" and "activity_at_most (int (n - 1)) (next_podmap srlist)"
proof -
  have p: "sg_priority (next_region srlist sr) = sg_priority sr" for sr
    by (simp add: next_region_def set_switches_def)
  show "two_priorities (next_podmap srlist)"
    unfolding two_priorities_def using assms(1) p next_podmap_region two_priorities_def by metis
  have "sg_recentKernel sr \<le> int n \<Longrightarrow> sg_recentKernel (next_region srlist sr) \<le> int (n - 1)" for sr
    by (auto simp: next_region_def set_switches_def aged_def)
  then show "activity_at_most (int (n - 1)) (next_podmap srlist)"
    unfolding activity_at_most_def using assms(2) next_podmap_region activity_at_most_def by metis
qed

lemma idle_uses:
  assumes "activity_at_most 0 srlist"
  shows "uses q u srlist = 0"
proof -
  have "region_uses q u val = 0" if "val \<in> snd ` set srlist" for val
    using assms that by (fastforce simp: activity_at_most_def region_uses_def active_def split: option.splits)
  then show ?thesis by (auto simp: uses_def sum_list_eq_0_iff)
qed

lemma Observe_idle:
  assumes "two_priorities srlist" and "activity_at_most 0 srlist"
  shows "\<forall>val\<in>snd ` set (next_podmap srlist). \<forall>sr. pu_sr val = Some sr \<longrightarrow> sg_recentKernel sr = 0 \<and> sg_utilizationSwitch sr = 0"
proof -
  have "\<not> blocked_in srlist sr \<and> \<not> contended_in srlist sr" for sr
    using idle_uses [OF assms(2)] by (auto simp: blocked_in_def contended_in_def in_use_def [abs_def] split: option.splits)
  then have "sg_recentKernel sr \<le> 0 \<Longrightarrow> sg_recentKernel (next_region srlist sr) = 0 \<and> sg_utilizationSwitch (next_region srlist sr) = 0" for sr
    by (simp add: next_region_def set_switches_def aged_def)
  then show ?thesis using assms(2) next_podmap_region activity_at_most_def by metis
qed

text \<open>C32: no task stays blocked for ever: when the library launches no further kernels and no region
  recorded more than \<open>n\<close> recent ones, then after \<open>n + 1\<close> rounds every region is released and every
  utilisation limit is off.\<close>
theorem feedback_settles:
  assumes "two_priorities srlist" and "activity_at_most (int n) srlist"
  shows "\<exists>srlist'. observe_rounds (Suc n) srlist = Inr srlist' \<and> map fst srlist' = map fst srlist
     \<and> (\<forall>val\<in>snd ` set srlist'. \<forall>sr. pu_sr val = Some sr \<longrightarrow> sg_recentKernel sr = 0 \<and> sg_utilizationSwitch sr = 0)"
  using assms
proof (induction n arbitrary: srlist)
  case 0
  have keys: "map fst (next_podmap srlist) = map fst srlist" by (auto simp: next_podmap_def)
  show ?case
    using Observe_counts [OF 0(1)] Observe_idle [of srlist] 0 keys by simp
next
  case (Suc n)
  have keys: "map fst (next_podmap srlist) = map fst srlist" by (auto simp: next_podmap_def)
  have "activity_at_most (int n) (next_podmap srlist)" using Observe_activity(2) [OF Suc.prems] by simp
  then obtain srlist' where "observe_rounds (Suc n) (next_podmap srlist) = Inr srlist'"
    "map fst srlist' = map fst srlist"
    "\<forall>val\<in>snd ` set srlist'. \<forall>sr. pu_sr val = Some sr \<longrightarrow> sg_recentKernel sr = 0 \<and> sg_utilizationSwitch sr = 0"
    using Suc.IH [OF Observe_activity(1) [OF Suc.prems]] keys by auto
  then show ?case
    using Observe_counts [OF Suc.prems(1)] by (intro exI [of _ srlist']) simp
qed

theorem feedback_settles_witness:
  "\<exists>srlist'. observe_rounds (Suc 5) example_podmap = Inr srlist' \<and> map fst srlist' = map fst example_podmap
     \<and> (\<forall>val\<in>snd ` set srlist'. \<forall>sr. pu_sr val = Some sr \<longrightarrow> sg_recentKernel sr = 0 \<and> sg_utilizationSwitch sr = 0)"
  by (rule feedback_settles [OF example_two_priorities]) (simp add: activity_at_most_def example_podmap_def example_region_def)

lemma getDeviceUsedMemory_16_panics:
  assumes "sg_procs sr = val # procs" and "length (ps_used val) = 16"
  shows "getDeviceUsedMemory 16 sr = Inl (GoPanic ''index out of range'')"
  using assms by (simp add: getDeviceUsedMemory_def slice_get_def)

lemma monitorpath_unmappable_panics:
  assumes "me_ReadDir env containerPath = Inr [name]" and "me_Stat env (containerPath @ ''/'' @ name) = Some b"
    and "isVaildPod name pods" and "mget podmap (containerPath @ ''/'' @ name) = None"
    and "me_ReadDir env (containerPath @ ''/'' @ name) = Inr [''x.cache'']"
    and "me_mmap env (containerPath @ ''/'' @ name @ ''/x.cache'') = Inl e"
  shows "is_panic (fst (monitorpath env containerPath (Inr pods) podmap))"
proof -
  have "Contains ''x.cache'' ''.cache''" "\<not> Contains ''x.cache'' ''libvgpu.so''" by code_simp+
  then show ?thesis
    using assms by (cases e) (simp_all add: monitorpath_def monitor_dir_def checkfiles_def getvGPUMemoryInfo_def Let_def)
qed

end
