(* ===== verification/Region_Layout.thy ===== *)
theory Region_Layout
  imports Monitor
begin

text \<open>
  The bytes of a shared region (\<open>cmd/vGPUmonitor/cudevshr.go\<close>).  \<open>mmapcachefile\<close> maps the file that the library in a
  container writes and uses the mapped bytes as a \<open>sharedRegionT\<close>.  Here the layout of that struct is computed from
  the rules of Go for 64-bit machines, a region is read from bytes, and the updates of the fields in
  \<open>feedback.go\<close> are shown to be writes of four bytes each.
\<close>

section \<open>Offsets\<close>

text \<open>A field starts at the next multiple of its alignment; the size of a struct is a multiple of the largest.\<close>

definition align_up :: "nat \<Rightarrow> nat \<Rightarrow> nat" where
  "align_up a n = (n + a - 1) div a * a"

fun field_offsets :: "nat \<Rightarrow> (nat \<times> nat) list \<Rightarrow> nat list" where
  "field_offsets off [] = []"
| "field_offsets off ((sz, a) # fs) = align_up a off # field_offsets (align_up a off + sz) fs"

definition struct_size :: "(nat \<times> nat) list \<Rightarrow> nat" where
  "struct_size fs = align_up (fold max (map snd fs) 1) (last (field_offsets 0 fs) + fst (last fs))"

definition memory_fields :: "(nat \<times> nat) list" where
  "memory_fields = [(8, 8), (8, 8), (8, 8), (8, 8), (8, 8)]"

definition slot_fields :: "(nat \<times> nat) list" where
  "slot_fields = [(4, 4), (4, 4), (16 * struct_size memory_fields, 8), (16 * 8, 8), (4, 4)]"

definition region_fields :: "(nat \<times> nat) list" where
  "region_fields = [(4, 4), (4, 4), (4, 4), (32, 1), (8, 8), (16 * 96, 1), (16 * 8, 8), (16 * 8, 8),
     (1024 * struct_size slot_fields, 8), (4, 4), (4, 4), (4, 4), (4, 4)]"

lemma region_layout:
  "field_offsets 0 memory_fields = [0, 8, 16, 24, 32]" "struct_size memory_fields = 40"
  "field_offsets 0 slot_fields = [0, 4, 8, 648, 776]" "struct_size slot_fields = 784"
  "field_offsets 0 region_fields = [0, 4, 8, 12, 48, 56, 1592, 1720, 1848, 804664, 804668, 804672, 804676]"
  "struct_size region_fields = 804680"
  by (simp_all add: region_fields_def slot_fields_def memory_fields_def struct_size_def align_up_def)

section \<open>Reading a region\<close>

definition bytes_at :: "nat \<Rightarrow> nat \<Rightarrow> string \<Rightarrow> string" where
  "bytes_at off w bs = take w (drop off bs)"

fun get_le :: "string \<Rightarrow> int" where
  "get_le [] = 0"
| "get_le (c # cs) = of_char c + 256 * get_le cs"

fun put_le :: "nat \<Rightarrow> int \<Rightarrow> string" where
  "put_le 0 n = []"
| "put_le (Suc k) n = char_of (n mod 256) # put_le k (n div 256)"

definition get_int32 :: "string \<Rightarrow> int" where
  "get_int32 bs = i32 (get_le bs)"

definition get_word :: "string \<Rightarrow> 'a::len word" where
  "get_word bs = word_of_int (get_le bs)"

definition get_array :: "nat \<Rightarrow> (string \<Rightarrow> 'a) \<Rightarrow> nat \<Rightarrow> string \<Rightarrow> 'a list" where
  "get_array w get n bs = map (\<lambda>i. get (bytes_at (i * w) w bs)) [0..<n]"

definition get_memory :: "string \<Rightarrow> device_memory" where
  "get_memory bs = \<lparr>dm_contextSize = get_word (bytes_at 0 8 bs), dm_moduleSize = get_word (bytes_at 8 8 bs),
     dm_bufferSize = get_word (bytes_at 16 8 bs), dm_offset = get_word (bytes_at 24 8 bs), dm_total = get_word (bytes_at 32 8 bs)\<rparr>"

definition get_slot :: "string \<Rightarrow> proc_slot" where
  "get_slot bs = \<lparr>ps_pid = get_int32 (bytes_at 0 4 bs), ps_hostpid = get_int32 (bytes_at 4 4 bs),
     ps_used = get_array 40 get_memory 16 (bytes_at 8 640 bs), ps_monitorused = get_array 8 get_word 16 (bytes_at 648 128 bs),
     ps_status = get_int32 (bytes_at 776 4 bs)\<rparr>"

definition get_region :: "string \<Rightarrow> shared_region" where
  "get_region bs = \<lparr>sg_initializedFlag = get_int32 (bytes_at 0 4 bs), sg_smInitFlag = get_int32 (bytes_at 4 4 bs),
     sg_ownerPid = get_word (bytes_at 8 4 bs), sg_sem = bytes_at 12 32 bs, sg_num = get_word (bytes_at 48 8 bs),
     sg_uuids = get_array 96 id 16 (bytes_at 56 1536 bs), sg_limit = get_array 8 get_word 16 (bytes_at 1592 128 bs),
     sg_sm_limit = get_array 8 get_word 16 (bytes_at 1720 128 bs), sg_procs = get_array 784 get_slot 1024 (bytes_at 1848 802816 bs),
     sg_procnum = get_int32 (bytes_at 804664 4 bs), sg_utilizationSwitch = get_int32 (bytes_at 804668 4 bs),
     sg_recentKernel = get_int32 (bytes_at 804672 4 bs), sg_priority = get_int32 (bytes_at 804676 4 bs)\<rparr>"

text \<open>
  \<open>mmapcachefile\<close>.  The file is mapped in whole pages; after its end the last page reads as zero, and an access
  behind that page is a fault that ends the process.  The first access is that of the log line.
\<close>

definition mmapcachefile :: "nat \<Rightarrow> string result \<Rightarrow> unit result \<Rightarrow> shared_region result" where
  "mmapcachefile page opened mapped =
     bind_result opened (\<lambda>content. bind_result mapped (\<lambda>_.
       if align_up page (length content) < 804672 + 4 then Inl (GoPanic ''unexpected fault address'')
       else Inr (get_region (content @ replicate (804680 - length content) CHR 0x00))))"

text \<open>
  \<open>setProcSlot\<close> reads a slot from a file.  \<open>ReadAt\<close> fills as much of the buffer as the file has, and nothing for an
  offset outside it; \<open>binary.Read\<close> of a struct of 40 bytes from a buffer of 8 fails and changes nothing, and its error
  is dropped, so of the first loop only the last content of the buffer remains.
\<close>

definition ReadAt :: "string \<Rightarrow> string \<Rightarrow> int \<Rightarrow> string" where
  "ReadAt file buff off =
     (if off < 0 \<or> int (length file) < off then buff
      else bytes_at (nat off) (length buff) file @ drop (length (bytes_at (nat off) (length buff) file)) buff)"

fun read_used :: "string \<Rightarrow> int \<Rightarrow> nat list \<Rightarrow> string \<Rightarrow> string" where
  "read_used file offset [] buff = buff"
| "read_used file offset (i # idxs) buff = read_used file offset idxs (ReadAt file buff (offset + 8 + 8 * int i))"

fun read_monitorused :: "string \<Rightarrow> int \<Rightarrow> nat list \<Rightarrow> string \<Rightarrow> device_memory list \<Rightarrow> device_memory list" where
  "read_monitorused file offset [] buff used = used"
| "read_monitorused file offset (i # idxs) buff used =
     (let buff' = ReadAt file buff (offset + 8 + 8 * 16 + 8 * int i); monitorused = get_word buff'
      in read_monitorused file offset idxs buff'
           (if dm_total (used ! i) < monitorused then used[i := (used ! i)\<lparr>dm_total := monitorused\<rparr>] else used))"

definition zero_memory :: device_memory where
  "zero_memory = \<lparr>dm_contextSize = 0, dm_moduleSize = 0, dm_bufferSize = 0, dm_offset = 0, dm_total = 0\<rparr>"

definition setProcSlot :: "int \<Rightarrow> string \<Rightarrow> proc_slot" where
  "setProcSlot offset file =
     (let pid = get_int32 (ReadAt file (replicate 4 CHR 0x00) offset);
          buff = read_used file offset [0..<16] (replicate 8 CHR 0x00)
      in \<lparr>ps_pid = pid, ps_hostpid = 0, ps_used = read_monitorused file offset [0..<16] buff (replicate 16 zero_memory),
          ps_monitorused = replicate 16 0, ps_status = 0\<rparr>)"

section \<open>Writing a field\<close>

definition write_at :: "nat \<Rightarrow> string \<Rightarrow> string \<Rightarrow> string" where
  "write_at off s bs = take off bs @ s @ drop (off + length s) bs"

lemma length_write_at [simp]: "off + length s \<le> length bs \<Longrightarrow> length (write_at off s bs) = length bs"
  by (simp add: write_at_def)

lemma nth_write_at:
  "off + length s \<le> length bs \<Longrightarrow> i < length bs \<Longrightarrow>
     write_at off s bs ! i = (if off \<le> i \<and> i < off + length s then s ! (i - off) else bs ! i)"
  by (auto simp: write_at_def nth_append)

lemma length_bytes_at [simp]: "off + w \<le> length bs \<Longrightarrow> length (bytes_at off w bs) = w"
  by (simp add: bytes_at_def)

lemma nth_bytes_at: "off + w \<le> length bs \<Longrightarrow> i < w \<Longrightarrow> bytes_at off w bs ! i = bs ! (off + i)"
  by (simp add: bytes_at_def)

lemma bytes_at_write_apart:
  "o' + length s \<le> length bs \<Longrightarrow> off + w \<le> length bs \<Longrightarrow> off + w \<le> o' \<or> o' + length s \<le> off \<Longrightarrow>
     bytes_at off w (write_at o' s bs) = bytes_at off w bs"
  by (rule nth_equalityI) (auto simp: nth_bytes_at nth_write_at)

lemma bytes_at_write_same: "off + length s \<le> length bs \<Longrightarrow> w = length s \<Longrightarrow> bytes_at off w (write_at off s bs) = s"
  by (rule nth_equalityI) (auto simp: nth_bytes_at nth_write_at)

lemma bytes_at_write_inside:
  "off \<le> o' \<Longrightarrow> o' + length s \<le> off + w \<Longrightarrow> off + w \<le> length bs \<Longrightarrow>
     bytes_at off w (write_at o' s bs) = write_at (o' - off) s (bytes_at off w bs)"
  by (rule nth_equalityI) (auto simp: nth_bytes_at nth_write_at add.commute)

lemma bytes_at_bytes_at: "off + w \<le> w' \<Longrightarrow> o' + w' \<le> length bs \<Longrightarrow> bytes_at off w (bytes_at o' w' bs) = bytes_at (o' + off) w bs"
  by (rule nth_equalityI) (auto simp: nth_bytes_at add.assoc)

lemma get_array_write:
  assumes "i < n" and "n * w \<le> length bs" and "j + length s \<le> w"
  shows "get_array w get n (write_at (i * w + j) s bs) = (get_array w get n bs)[i := get (write_at j s (bytes_at (i * w) w bs))]"
proof (rule nth_equalityI)
  have step: "k * w + w \<le> n * w" if "k < n" for k using mult_le_mono1 [of "Suc k" n w] that by simp
  have inside: "i * w + j + length s \<le> length bs" using step [OF assms(1)] assms(2,3) by simp
  fix k assume "k < length (get_array w get n (write_at (i * w + j) s bs))"
  then have k: "k < n" by (simp add: get_array_def)
  have apart: "k * w + w \<le> i * w + j \<or> i * w + j + length s \<le> k * w" if "k \<noteq> i"
  proof (cases "k < i")
    case True
    then show ?thesis using mult_le_mono1 [of "Suc k" i w] by simp
  next
    case False
    then show ?thesis using mult_le_mono1 [of "Suc i" k w] that assms(3) by simp
  qed
  show "get_array w get n (write_at (i * w + j) s bs) ! k = (get_array w get n bs)[i := get (write_at j s (bytes_at (i * w) w bs))] ! k"
  proof (cases "k = i")
    case True
    then show ?thesis
      using k step [OF k] assms(2,3) bytes_at_write_inside [of "i * w" "i * w + j" s w bs] by (simp add: get_array_def)
  next
    case False
    then show ?thesis
      using k step [OF k] assms(2) inside bytes_at_write_apart [of "i * w + j" s bs "k * w" w] apart by (simp add: get_array_def)
  qed
qed (simp add: get_array_def)

section \<open>Integers as bytes\<close>

lemma length_put_le [simp]: "length (put_le k n) = k"
  by (induction k arbitrary: n) auto

lemma get_le_put_le: "get_le (put_le k n) = n mod 256 ^ k"
proof (induction k arbitrary: n)
  case (Suc k)
  have "of_char (char_of (n mod 256) :: char) = n mod 256" by simp
  then have "get_le (put_le (Suc k) n) = n mod 256 + 256 * (n div 256 mod 256 ^ k)" using Suc by simp
  also have "\<dots> = n mod 256 ^ Suc k" using zmod_zmult2_eq [of "256 ^ k" n 256] by simp
  finally show ?case .
qed simp

lemma get_int32_put_le [simp]: "get_int32 (put_le 4 x) = i32 x"
proof -
  have "get_le (put_le 4 x) = x mod 2 ^ 32" by (simp add: get_le_put_le)
  then show ?thesis using i32_mod [of x] by (simp add: get_int32_def i32_def mod_simps)
qed

section \<open>The writes of the feedback\<close>

definition store_int32 :: "nat \<Rightarrow> int \<Rightarrow> string \<Rightarrow> string" where
  "store_int32 off v bs = write_at off (put_le 4 v) bs"

text \<open>What \<open>Observe\<close> does to the bytes of one region, in its first and in its second loop.\<close>

definition store_aged :: "string \<Rightarrow> string" where
  "store_aged bs =
     (if get_int32 (bytes_at 804672 4 bs) > 0 then store_int32 804672 (get_int32 (bytes_at 804672 4 bs) - 1) bs else bs)"

definition store_blocking :: "bool \<Rightarrow> string \<Rightarrow> string" where
  "store_blocking blocking bs =
     (if blocking then (if get_int32 (bytes_at 804672 4 bs) \<ge> 0 then store_int32 804672 (- 1) bs else bs)
      else (if get_int32 (bytes_at 804672 4 bs) < 0 then store_int32 804672 0 bs else bs))"

definition store_contended :: "bool \<Rightarrow> string \<Rightarrow> string" where
  "store_contended contended bs =
     (if contended then (if get_int32 (bytes_at 804668 4 bs) \<noteq> 1 then store_int32 804668 1 bs else bs)
      else (if get_int32 (bytes_at 804668 4 bs) \<noteq> 0 then store_int32 804668 0 bs else bs))"

lemma length_store_int32 [simp]: "off + 4 \<le> length bs \<Longrightarrow> length (store_int32 off v bs) = length bs"
  by (simp add: store_int32_def)

lemma length_stores [simp]:
  "length bs = 804680 \<Longrightarrow> length (store_aged bs) = 804680"
  "length bs = 804680 \<Longrightarrow> length (store_blocking blocking bs) = 804680"
  "length bs = 804680 \<Longrightarrow> length (store_contended contended bs) = 804680"
  by (simp_all add: store_aged_def store_blocking_def store_contended_def)

lemma get_region_store:
  assumes "length bs = 804680"
  shows "get_region (store_int32 804668 v bs) = (get_region bs)\<lparr>sg_utilizationSwitch := i32 v\<rparr>"
    and "get_region (store_int32 804672 v bs) = (get_region bs)\<lparr>sg_recentKernel := i32 v\<rparr>"
  using assms by (simp_all add: get_region_def store_int32_def bytes_at_write_apart bytes_at_write_same)

lemma get_region_fields:
  "sg_recentKernel (get_region bs) = get_int32 (bytes_at 804672 4 bs)"
  "sg_utilizationSwitch (get_region bs) = get_int32 (bytes_at 804668 4 bs)"
  by (simp_all add: get_region_def)

lemma in_i32_get_int32 [simp]: "in_i32 (get_int32 bs)"
  by (simp add: get_int32_def)

lemma get_region_store_aged:
  assumes "length bs = 804680"
  shows "get_region (store_aged bs) = (get_region bs)\<lparr>sg_recentKernel := aged (sg_recentKernel (get_region bs))\<rparr>"
proof -
  let ?r = "get_int32 (bytes_at 804672 4 bs)"
  have "i32 (?r - 1) = ?r - 1" if "?r > 0"
    using that in_i32_get_int32 [of "bytes_at 804672 4 bs"] by (simp add: i32_in_i32 in_i32_def)
  then show ?thesis
    using get_region_store(2) [OF assms, of "?r - 1"] by (simp add: store_aged_def aged_def get_region_fields)
qed

lemma get_region_store_switches:
  assumes "length bs = 804680"
  shows "get_region (store_contended contended (store_blocking blocking bs)) = set_switches blocking contended (get_region bs)"
proof -
  let ?b = "store_blocking blocking bs"
  have b: "get_region ?b = (get_region bs)\<lparr>sg_recentKernel := (if blocking then (if sg_recentKernel (get_region bs) \<ge> 0 then - 1 else sg_recentKernel (get_region bs))
      else (if sg_recentKernel (get_region bs) < 0 then 0 else sg_recentKernel (get_region bs)))\<rparr>"
    using get_region_store(2) [OF assms] by (simp add: store_blocking_def get_region_fields i32_in_i32 in_i32_def)
  have "get_region (store_contended contended ?b) = (get_region ?b)\<lparr>sg_utilizationSwitch := (if contended then 1 else 0)\<rparr>"
    using get_region_store(1) [of ?b] assms by (simp add: store_contended_def get_region_fields i32_in_i32 in_i32_def)
  then show ?thesis by (simp add: b set_switches_def)
qed

lemma store_int32_nth: "off + 4 \<le> length bs \<Longrightarrow> i < length bs \<Longrightarrow> i < off \<or> off + 4 \<le> i \<Longrightarrow> store_int32 off v bs ! i = bs ! i"
  by (auto simp: store_int32_def nth_write_at)

lemma stores_nth:
  assumes "length bs = 804680" and "i < 804668 \<or> 804676 \<le> i" and "i < 804680"
  shows "store_aged bs ! i = bs ! i" "store_blocking blocking bs ! i = bs ! i" "store_contended contended bs ! i = bs ! i"
  using assms by (auto simp: store_aged_def store_blocking_def store_contended_def store_int32_nth)

text \<open>A round over the mapped regions: the decisions are taken on what is read, the results are written in place.\<close>

type_synonym region_map = "(string, string \<times> string option) gomap"

definition regions :: "region_map \<Rightarrow> podmap" where
  "regions mem = map (\<lambda>(idx, name, m). (idx, \<lparr>pu_idstr = name, pu_sr = map_option get_region m\<rparr>)) mem"

definition age_bytes :: "region_map \<Rightarrow> region_map" where
  "age_bytes mem = map (\<lambda>(idx, name, m). (idx, name, map_option store_aged m)) mem"

fun apply_bytes :: "switches \<Rightarrow> region_map \<Rightarrow> region_map result" where
  "apply_bytes utSwitchOn [] = Inr []"
| "apply_bytes utSwitchOn ((idx, name, m) # mem) =
     (case m of
        None \<Rightarrow> bind_result (apply_bytes utSwitchOn mem) (\<lambda>mem'. Inr ((idx, name, None) # mem'))
      | Some bs \<Rightarrow>
          bind_result (CheckBlocking utSwitchOn (sg_priority (get_region bs)) (sg_uuids (get_region bs))) (\<lambda>blocking.
          bind_result (CheckPriority utSwitchOn (sg_priority (get_region bs)) (sg_uuids (get_region bs))) (\<lambda>contended.
          bind_result (apply_bytes utSwitchOn mem) (\<lambda>mem'.
            Inr ((idx, name, Some (store_contended contended (store_blocking blocking bs))) # mem')))))"

definition observe_bytes :: "region_map \<Rightarrow> region_map result" where
  "observe_bytes mem = bind_result (observe_count (regions mem) []) (\<lambda>(_, utSwitchOn). apply_bytes utSwitchOn (age_bytes mem))"

definition mapped :: "region_map \<Rightarrow> bool" where
  "mapped mem \<longleftrightarrow> (\<forall>(idx, name, m)\<in>set mem. \<forall>bs. m = Some bs \<longrightarrow> length bs = struct_size region_fields)"

text \<open>Two contents of a region that differ at most in \<open>utilizationSwitch\<close> and \<open>recentKernel\<close>.\<close>

definition same_but_switches :: "string \<Rightarrow> string \<Rightarrow> bool" where
  "same_but_switches bs bs' \<longleftrightarrow> length bs' = length bs \<and>
     (\<forall>i<length bs. i \<notin> {field_offsets 0 region_fields ! 10 ..< field_offsets 0 region_fields ! 12} \<longrightarrow> bs' ! i = bs ! i)"

definition rewritten :: "region_map \<Rightarrow> region_map \<Rightarrow> bool" where
  "rewritten mem mem' = list_all2 (\<lambda>(idx, name, m) (idx', name', m'). idx' = idx \<and> name' = name \<and> rel_option same_but_switches m m') mem mem'"

lemma mapped_simps [simp]:
  "mapped []" "mapped ((idx, name, m) # mem) \<longleftrightarrow> (\<forall>bs. m = Some bs \<longrightarrow> length bs = 804680) \<and> mapped mem"
  by (auto simp: mapped_def region_layout)

lemma observe_count_regions:
  "mapped mem \<Longrightarrow> observe_count (regions mem) sw = Inr (srlist', sw') \<Longrightarrow> srlist' = regions (age_bytes mem)"
  by (induction mem arbitrary: sw srlist')
    (auto simp: regions_def age_bytes_def bind_result_Inr_iff get_region_store_aged split: option.splits)

lemma observe_apply_regions:
  "mapped mem \<Longrightarrow> observe_apply sw (regions mem) = map_sum id regions (apply_bytes sw mem)"
  by (induction sw mem rule: apply_bytes.induct)
    (auto simp: regions_def bind_result_def get_region_store_switches split: option.splits sum.splits)

lemma mapped_age_bytes: "mapped mem \<Longrightarrow> mapped (age_bytes mem)"
  by (induction mem) (auto simp: age_bytes_def)

lemma same_but_switches_stores:
  "length bs = 804680 \<Longrightarrow> same_but_switches bs (store_contended contended (store_blocking blocking (store_aged bs)))"
  by (auto simp: same_but_switches_def region_layout stores_nth)

lemma apply_bytes_rewritten: "mapped mem \<Longrightarrow> apply_bytes sw (age_bytes mem) = Inr mem' \<Longrightarrow> rewritten mem mem'"
  by (induction mem arbitrary: mem')
    (auto simp: rewritten_def age_bytes_def bind_result_Inr_iff same_but_switches_stores split: option.splits)

text \<open>C31: the feedback works in place.  When every mapped region has the size of the struct, a round of \<open>Observe\<close> on the
  regions read from the bytes is a round of four-byte writes into the mapped memory: reading the memory afterwards
  gives the regions that the round computed, and no byte outside \<open>utilizationSwitch\<close> and \<open>recentKernel\<close>
  has changed, so that what the library in the container keeps there is not disturbed.\<close>
theorem feedback_in_place:
  assumes "mapped mem"
  shows "Observe (regions mem) = map_sum id regions (observe_bytes mem)
     \<and> (\<forall>mem'. observe_bytes mem = Inr mem' \<longrightarrow> rewritten mem mem')"
proof (cases "observe_count (regions mem) []")
  case (Inl e)
  then show ?thesis by (simp add: Observe_def observe_bytes_def)
next
  case (Inr r)
  obtain srlist' sw where r: "r = (srlist', sw)" by fastforce
  then have "srlist' = regions (age_bytes mem)" using observe_count_regions [OF assms] Inr by blast
  then show ?thesis
    using Inr r observe_apply_regions [OF mapped_age_bytes [OF assms], of sw] apply_bytes_rewritten [OF assms]
    by (simp add: Observe_def observe_bytes_def)
qed

text \<open>A region whose container has launched kernels.\<close>

definition example_bytes :: string where
  "example_bytes = store_int32 804672 2 (replicate (struct_size region_fields) CHR 0x00)"

lemma example_bytes_facts:
  "length example_bytes = 804680" "sg_recentKernel (get_region example_bytes) = 2" "sg_priority (get_region example_bytes) = 0"
proof -
  let ?z = "replicate (struct_size region_fields) CHR 0x00"
  have z: "length ?z = 804680" by (simp add: region_layout)
  show "length example_bytes = 804680" using z by (simp add: example_bytes_def)
  show "sg_recentKernel (get_region example_bytes) = 2"
    using get_region_store(2) [OF z, of 2] by (simp add: example_bytes_def i32_in_i32 in_i32_def)
  have "bytes_at 804676 4 ?z = replicate 4 CHR 0x00" by (simp add: region_layout bytes_at_def drop_replicate take_replicate)
  moreover have "get_int32 (replicate 4 CHR 0x00) = 0" by code_simp
  ultimately have "sg_priority (get_region ?z) = 0" by (simp only: get_region_def shared_region.simps)
  then show "sg_priority (get_region example_bytes) = 0"
    using get_region_store(2) [OF z, of 2] by (simp add: example_bytes_def)
qed

theorem feedback_in_place_witness:
  "\<exists>bs'. observe_bytes [(''a'', ''u_c'', Some example_bytes)] = Inr [(''a'', ''u_c'', Some bs')] \<and> same_but_switches example_bytes bs'
     \<and> sg_recentKernel (get_region example_bytes) = 2 \<and> sg_recentKernel (get_region bs') = 1"
proof -
  let ?mem = "[(''a'', ''u_c'', Some example_bytes)] :: region_map"
  have mapped: "mapped ?mem" by (simp add: example_bytes_facts)
  have two: "two_priorities (regions ?mem)" by (simp add: two_priorities_def regions_def example_bytes_facts)
  have "\<not> blocked_in (regions ?mem) (get_region example_bytes)" by (rule high_priority_never_blocked) (simp add: example_bytes_facts)
  then have next1: "sg_recentKernel (next_region (regions ?mem) (get_region example_bytes)) = 1"
    by (simp add: next_region_def set_switches_def example_bytes_facts aged_def)
  obtain mem' where mem': "observe_bytes ?mem = Inr mem'" "regions mem' = next_podmap (regions ?mem)" "rewritten ?mem mem'"
    using feedback_in_place [OF mapped] Observe_counts [OF two] by (cases "observe_bytes ?mem") auto
  obtain bs' where bs': "mem' = [(''a'', ''u_c'', Some bs')]" "same_but_switches example_bytes bs'"
    using mem'(3) by (auto simp: rewritten_def list_all2_Cons1 option_rel_Some1)
  have "get_region bs' = next_region (regions ?mem) (get_region example_bytes)"
    using mem'(2) bs'(1) by (simp add: regions_def next_podmap_def)
  then show ?thesis using mem'(1) bs' next1 example_bytes_facts(2) by simp
qed

section \<open>Files that are too short\<close>

text \<open>
  A file that ends before the page with the last fields is mapped all the same, and the monitor dies at the first
  access.  Such a file is what a library leaves that has created the file and not yet extended it.
\<close>

lemma mmapcachefile_short:
  "align_up page (length content) < 804676 \<Longrightarrow> mmapcachefile page (Inr content) (Inr ()) = Inl (GoPanic ''unexpected fault address'')"
  by (simp add: mmapcachefile_def)

lemma short_cache_file_ends_monitor:
  assumes "me_ReadDir env containerPath = Inr [name]" and "me_Stat env (containerPath @ ''/'' @ name) = Some b"
    and "isVaildPod name pods" and "mget podmap (containerPath @ ''/'' @ name) = None"
    and "me_ReadDir env (containerPath @ ''/'' @ name) = Inr [''x.cache'']"
    and "me_mmap env (containerPath @ ''/'' @ name @ ''/x.cache'') = mmapcachefile 4096 (Inr []) (Inr ())"
  shows "feedback_round env containerPath (Inr pods) podmap = Inl (GoPanic ''unexpected fault address'')"
proof -
  have "Contains ''x.cache'' ''.cache''" "\<not> Contains ''x.cache'' ''libvgpu.so''" by code_simp+
  then show ?thesis
    using assms by (simp add: feedback_round_def monitorpath_def monitor_dir_def checkfiles_def getvGPUMemoryInfo_def Let_def
        mmapcachefile_short align_up_def)
qed

section \<open>Process ids\<close>

text \<open>The loop of \<open>setHostPid\<close> over the slots, as writes into the mapped memory.\<close>

fun store_hostpids :: "(int \<times> nat) list \<Rightarrow> nat list \<Rightarrow> string \<Rightarrow> string" where
  "store_hostpids hosts [] bs = bs"
| "store_hostpids hosts (idx # idxs) bs =
     (let val = sg_procs (get_region bs) ! idx
      in if ps_pid val = 0 then bs
         else store_hostpids hosts idxs
           (if idx < length hosts \<and> (ps_hostpid val = 0 \<or> ps_hostpid val \<noteq> i32 (fst (hosts ! idx)))
            then store_int32 (1848 + idx * 784 + 4) (fst (hosts ! idx)) bs else bs))"

lemma get_slot_store: "length b = 784 \<Longrightarrow> get_slot (write_at 4 (put_le 4 v) b) = (get_slot b)\<lparr>ps_hostpid := i32 v\<rparr>"
  by (simp add: get_slot_def bytes_at_write_apart bytes_at_write_same)

lemma get_region_store_hostpid:
  assumes "length bs = 804680" and "idx < 1024"
  shows "get_region (store_int32 (1848 + idx * 784 + 4) v bs) =
     (let procs = sg_procs (get_region bs) in (get_region bs)\<lparr>sg_procs := procs[idx := (procs ! idx)\<lparr>ps_hostpid := i32 v\<rparr>]\<rparr>)"
proof -
  let ?s = "put_le 4 v" and ?o = "1848 + idx * 784 + 4" and ?p = "bytes_at 1848 802816 bs"
  have fit: "idx * 784 + 784 \<le> 802816" using assms(2) by simp
  have "bytes_at 1848 802816 (write_at ?o ?s bs) = write_at (idx * 784 + 4) ?s ?p"
    using bytes_at_write_inside [of 1848 ?o ?s 802816 bs] fit assms(1) by (simp add: add.commute)
  moreover have "get_array 784 get_slot 1024 (write_at (idx * 784 + 4) ?s ?p) =
      (get_array 784 get_slot 1024 ?p)[idx := get_slot (write_at 4 ?s (bytes_at (idx * 784) 784 ?p))]"
    using get_array_write [of idx 1024 784 ?p 4 ?s get_slot] assms by simp
  moreover have "get_slot (write_at 4 ?s (bytes_at (idx * 784) 784 ?p)) = (get_slot (bytes_at (idx * 784) 784 ?p))\<lparr>ps_hostpid := i32 v\<rparr>"
    using get_slot_store fit assms(1) by simp
  moreover have "get_array 784 get_slot 1024 ?p ! idx = get_slot (bytes_at (idx * 784) 784 ?p)"
    using assms(2) by (simp add: get_array_def)
  moreover have "bytes_at off w (write_at ?o ?s bs) = bytes_at off w bs" if "off + w \<le> 1848 \<or> 804664 \<le> off" "off + w \<le> 804680" for off w
    using that fit assms(1) by (intro bytes_at_write_apart) auto
  ultimately show ?thesis using assms(1) by (simp add: get_region_def store_int32_def Let_def)
qed

lemma length_procs [simp]: "length (sg_procs (get_region bs)) = 1024"
  by (simp add: get_region_def get_array_def)

lemma store_hostpids_suffix:
  "length bs = 804680 \<Longrightarrow> k \<le> 1024 \<Longrightarrow> get_region (store_hostpids hosts [k..<1024] bs) =
     (let procs = sg_procs (get_region bs) in (get_region bs)\<lparr>sg_procs := take k procs @ assign_pids (drop k hosts) (drop k procs)\<rparr>)"
proof (induction "1024 - k" arbitrary: k bs)
  case 0
  then show ?case by simp
next
  case (Suc n)
  let ?procs = "sg_procs (get_region bs)" and ?h = "fst (hosts ! k)"
  have k: "k < 1024" using Suc.hyps(2) by simp
  have split: "drop k ?procs = ?procs ! k # drop (Suc k) ?procs" using k by (simp add: Cons_nth_drop_Suc)
  have upt: "[k..<1024] = k # [Suc k..<1024]" using k by (simp add: upt_conv_Cons)
  define c where "c \<longleftrightarrow> k < length hosts \<and> (ps_hostpid (?procs ! k) = 0 \<or> ps_hostpid (?procs ! k) \<noteq> i32 ?h)"
  define bs' where "bs' = (if c then store_int32 (1848 + k * 784 + 4) ?h bs else bs)"
  have len: "length bs' = 804680" using Suc.prems k by (simp add: bs'_def)
  define p where "p = (if c then (?procs ! k)\<lparr>ps_hostpid := i32 ?h\<rparr> else ?procs ! k)"
  have bs': "get_region bs' = (get_region bs)\<lparr>sg_procs := ?procs[k := p]\<rparr>"
    using get_region_store_hostpid [OF Suc.prems(1) k, of ?h] by (simp add: bs'_def p_def Let_def)
  have IH: "get_region (store_hostpids hosts [Suc k..<1024] bs') = (get_region bs')\<lparr>sg_procs :=
      take (Suc k) (?procs[k := p]) @ assign_pids (drop (Suc k) hosts) (drop (Suc k) ?procs)\<rparr>"
    using Suc.hyps(1) [of "Suc k" bs'] Suc.hyps(2) len k bs' by (simp add: Let_def)
  have take: "take (Suc k) (?procs[k := p]) = take k ?procs @ [p]" using k by (simp add: take_Suc_conv_app_nth)
  show ?case
  proof (cases "ps_pid (?procs ! k) = 0")
    case True
    then have "assign_pids (drop k hosts) (drop k ?procs) = drop k ?procs" "store_hostpids hosts [k..<1024] bs = bs"
      by (simp_all add: split upt Let_def)
    then show ?thesis by (simp add: Let_def)
  next
    case False
    then have run: "store_hostpids hosts [k..<1024] bs = store_hostpids hosts [Suc k..<1024] bs'"
      by (simp add: upt Let_def bs'_def c_def)
    have assign: "assign_pids (drop k hosts) (drop k ?procs) = p # assign_pids (drop (Suc k) hosts) (drop (Suc k) ?procs)"
    proof (cases "k < length hosts")
      case True
      then have "drop k hosts = hosts ! k # drop (Suc k) hosts" by (simp add: Cons_nth_drop_Suc)
      then show ?thesis using \<open>ps_pid (?procs ! k) \<noteq> 0\<close> True split by (simp add: p_def c_def)
    next
      case False
      then have "assign_pids [] (drop (Suc k) ?procs) = drop (Suc k) ?procs" by (cases "drop (Suc k) ?procs") auto
      then show ?thesis using False \<open>ps_pid (?procs ! k) \<noteq> 0\<close> split by (simp add: p_def c_def)
    qed
    show ?thesis unfolding run IH take bs' by (simp add: assign Let_def)
  qed
qed

lemma store_hostpids_assigns:
  "length bs = struct_size region_fields \<Longrightarrow> get_region (store_hostpids hosts [0..<1024] bs) =
     (get_region bs)\<lparr>sg_procs := assign_pids hosts (sg_procs (get_region bs))\<rparr>"
  using store_hostpids_suffix [of bs 0 hosts] by (simp add: region_layout Let_def)

section \<open>The reader of slots\<close>

lemma ReadAt_inside: "int (length buff) + off \<le> int (length file) \<Longrightarrow> 0 \<le> off \<Longrightarrow> ReadAt file buff off = bytes_at (nat off) (length buff) file"
  by (simp add: ReadAt_def bytes_at_def)

lemma read_monitorused_nth:
  assumes "distinct idxs" and "\<forall>i\<in>set idxs. i < 16" and "length buff = 8" and "length used = 16" and "i < 16" and "264 \<le> length file"
  shows "dm_total (read_monitorused file 0 idxs buff used ! i) =
     (if i \<in> set idxs then max (dm_total (used ! i)) (get_word (bytes_at (136 + 8 * i) 8 file)) else dm_total (used ! i))"
  using assms
proof (induction idxs arbitrary: buff used)
  case (Cons j idxs)
  let ?b = "bytes_at (136 + 8 * j) 8 file" and ?used = "\<lambda>w. if dm_total (used ! j) < w then used[j := (used ! j)\<lparr>dm_total := w\<rparr>] else used"
  have j: "j < 16" "j \<notin> set idxs" using Cons.prems by auto
  have b: "ReadAt file buff (136 + 8 * int j) = ?b"
    using ReadAt_inside [of buff "136 + 8 * int j" "file"] Cons.prems(3,6) j by (simp add: nat_add_distrib nat_mult_distrib)
  have "length ?b = 8" using Cons.prems(6) j by simp
  then have "dm_total (read_monitorused file 0 idxs ?b (?used (get_word ?b)) ! i) =
      (if i \<in> set idxs then max (dm_total (?used (get_word ?b) ! i)) (get_word (bytes_at (136 + 8 * i) 8 file)) else dm_total (?used (get_word ?b) ! i))"
    using Cons.prems by (intro Cons.IH) auto
  then show ?case using b j Cons.prems(4,5) by (auto simp: Let_def nth_list_update max_def)
qed simp

lemma length_read_used: "length (read_used file offset idxs buff) = length buff"
  by (induction idxs arbitrary: buff) (auto simp: ReadAt_def bytes_at_def)

text \<open>
  The reader does not know the layout: it takes as the usage of the first device what the fourth device has as the
  size of its modules, because it counts eight bytes for a device instead of forty.
\<close>

lemma setProcSlot_misreads:
  assumes "length bs = struct_size slot_fields"
  shows "dm_total (ps_used (setProcSlot 0 bs) ! 0) = dm_moduleSize (ps_used (get_slot bs) ! 3)"
proof -
  have len: "length bs = 784" using assms by (simp add: region_layout)
  have "dm_moduleSize (ps_used (get_slot bs) ! 3) = get_word (bytes_at 136 8 bs)"
    using len by (simp add: get_slot_def get_array_def get_memory_def bytes_at_bytes_at)
  moreover have "length (read_used bs 0 [0..<16] (replicate 8 CHR 0x00)) = 8" by (simp add: length_read_used)
  ultimately show ?thesis
    using read_monitorused_nth [of "[0..<16]" _ "replicate 16 zero_memory" 0 bs] len
    by (simp add: setProcSlot_def Let_def zero_memory_def)
qed

end
