(* ===== verification/Registration.thy ===== *)
theory Registration
  imports Scheduler
begin

text \<open>
  Registration of devices: the loop of \<open>RegisterFromNodeAnnotatons\<close>
  (\<open>pkg/scheduler/scheduler.go\<close>).  Every pass reads all nodes; for every known vendor whose register
  annotation is present it advances the handshake with the device plugin (ask the plugin to report,
  drop the devices of a plugin that stays silent) and merges the reported devices into the node
  registry.  \<open>nodeInfoCopy\<close> remembers, per handshake annotation, the \<open>NodeInfo\<close> last built: it holds a
  pointer, which on first registration is also the registry's own entry.
\<close>

record node_object =
  no_Name :: string
  no_Annotations :: annotations

text \<open>
  The state of the loop, and what it gets from outside: the formatted time, whether a timestamp lies
  more than 60 seconds in the past, and whether the API server returns the node for the patch.
\<close>

record register_state =
  rg_nodes :: node_manager
  rg_copy :: "(string, addr) gomap"
  rg_patches :: "(string \<times> string \<times> string) list"

record register_env =
  re_now :: string
  re_expired :: "string \<Rightarrow> bool"
  re_get :: "string \<Rightarrow> bool"

section \<open>Merging the reported devices\<close>

definition make_device_info :: "nat \<Rightarrow> api_device_info \<Rightarrow> device_info" where
  "make_device_info index d =
     \<lparr>di_ID = ad_Id d, di_Index = int index, di_Count = ad_Count d, di_Devmem = ad_Devmem d,
      di_Devcore = ad_Devcore d, di_Type = ad_Type d, di_Numa = ad_Numa d, di_Health = ad_Health d\<rparr>"

text \<open>The first registered device with the reported id takes the reported memory and cores.\<close>

fun refresh_first :: "api_device_info \<Rightarrow> device_info list \<Rightarrow> device_info list" where
  "refresh_first d [] = []"
| "refresh_first d (x # xs) =
     (if di_ID x = ad_Id d then x\<lparr>di_Devmem := ad_Devmem d, di_Devcore := ad_Devcore d\<rparr> # xs
      else x # refresh_first d xs)"

definition merge_device ::
  "string \<Rightarrow> nat \<times> api_device_info \<Rightarrow> node_manager \<times> device_info list \<Rightarrow> node_manager \<times> device_info list" where
  "merge_device name di st =
     (case (di, st) of ((index, d), (m, new)) \<Rightarrow>
      case mget (nm_nodes m) name of
        None \<Rightarrow> (m, new @ [make_device_info index d])
      | Some b \<Rightarrow>
          if list_ex (\<lambda>x. di_ID x = ad_Id d) (ni_Devices (deref m b))
          then (set_devices b (refresh_first d (ni_Devices (deref m b))) m, new)
          else (m, new @ [make_device_info index d]))"

definition merge_devices :: "string \<Rightarrow> api_device_info list \<Rightarrow> node_manager \<Rightarrow> node_manager \<times> device_info list" where
  "merge_devices name nodedevices m = fold (merge_device name) (enumerate 0 nodedevices) (m, [])"

definition come :: "string \<Rightarrow> string \<Rightarrow> api_device_info list \<Rightarrow> register_state \<Rightarrow> register_state" where
  "come name devhandsk nodedevices st =
     (case merge_devices name nodedevices (rg_nodes st) of
        (m1, new) \<Rightarrow>
          case new_node_info \<lparr>ni_ID = name, ni_Devices = new\<rparr> m1 of
            (a, m2) \<Rightarrow>
              st\<lparr>rg_nodes := addNode name (Some a) m2, rg_copy := mset_to (rg_copy st) devhandsk a\<rparr>)"

section \<open>The handshake\<close>

definition leave :: "register_env \<Rightarrow> string \<Rightarrow> string \<Rightarrow> register_state \<Rightarrow> register_state result" where
  "leave env name devhandsk st =
     (case mget (nm_nodes (rg_nodes st)) name of
        None \<Rightarrow> Inr st
      | Some _ \<Rightarrow>
          (case mget (rg_copy st) devhandsk of
             None \<Rightarrow> Inr st
           | Some a \<Rightarrow>
               bind_result (rmNodeDevice name a (rg_nodes st))
                 (\<lambda>m. Inr (st\<lparr>rg_nodes := m,
                    rg_patches := (if re_get env name
                      then rg_patches st @ [(name, devhandsk, ''Deleted_'' @ re_now env)] else rg_patches st)\<rparr>))))"

definition register_device ::
  "register_env \<Rightarrow> node_object \<Rightarrow> string \<times> string \<Rightarrow> register_state \<Rightarrow> register_state result" where
  "register_device env val known st =
     (case known of (devhandsk, devreg) \<Rightarrow>
      case mget (no_Annotations val) devreg of
        None \<Rightarrow> Inr st
      | Some str \<Rightarrow>
          (case DecodeNodeDevices str of
             Inl _ \<Rightarrow> Inr st
           | Inr nodedevices \<Rightarrow>
               if nodedevices = [] then Inr st
               else
                 let handshake = mget_default [] (no_Annotations val) devhandsk
                 in if Contains handshake ''Requesting'' then
                      (case Split CHR ''_'' handshake of
                         _ # formertime # _ \<Rightarrow>
                           if re_expired env formertime then leave env (no_Name val) devhandsk st else Inr st
                       | _ \<Rightarrow> Inl (GoPanic ''index out of range''))
                    else if Contains handshake ''Deleted'' then Inr st
                    else if \<not> re_get env (no_Name val) then Inr st
                    else Inr (come (no_Name val) devhandsk nodedevices
                           (st\<lparr>rg_patches := rg_patches st @ [(no_Name val, devhandsk, ''Requesting_'' @ re_now env)]\<rparr>))))"

fun register_devices ::
  "register_env \<Rightarrow> node_object \<Rightarrow> (string, string) gomap \<Rightarrow> register_state \<Rightarrow> register_state result" where
  "register_devices env val [] st = Inr st"
| "register_devices env val (known # rest) st =
     bind_result (register_device env val known st) (register_devices env val rest)"

fun register_pass ::
  "register_env \<Rightarrow> (string, string) gomap \<Rightarrow> node_object list \<Rightarrow> register_state \<Rightarrow> register_state result" where
  "register_pass env known_devices [] st = Inr st"
| "register_pass env known_devices (val # nodes) st =
     bind_result (register_devices env val known_devices st) (register_pass env known_devices nodes)"

text \<open>One turn of the endless loop, with the recomputation of the usage at its end.\<close>

definition RegisterFromNodeAnnotatons ::
  "register_env \<Rightarrow> (string, string) gomap \<Rightarrow> node_object list result \<Rightarrow> scheduler \<times> (string, addr) gomap \<Rightarrow>
   (scheduler \<times> (string, addr) gomap \<times> (string \<times> string \<times> string) list) result" where
  "RegisterFromNodeAnnotatons env known_devices nodes st =
     (case st of (s, nodeInfoCopy) \<Rightarrow>
        bind_result nodes
          (\<lambda>ns. bind_result (register_pass env known_devices ns
                   \<lparr>rg_nodes = sc_nodes s, rg_copy = nodeInfoCopy, rg_patches = []\<rparr>)
             (\<lambda>rg. Inr (fst (getNodesUsage (map no_Name ns) (s\<lparr>sc_nodes := rg_nodes rg\<rparr>)), rg_copy rg, rg_patches rg))))"

section \<open>What merging does\<close>

lemma refresh_first_ids [simp]: "map di_ID (refresh_first d xs) = map di_ID xs"
  by (induction xs) simp_all

lemma refresh_first_map:
  "distinct (map di_ID xs) \<Longrightarrow> refresh_first d xs =
     map (\<lambda>x. if di_ID x = ad_Id d then x\<lparr>di_Devmem := ad_Devmem d, di_Devcore := ad_Devcore d\<rparr> else x) xs"
proof (induction xs)
  case (Cons x xs)
  have "map (\<lambda>y. if di_ID y = ad_Id d then y\<lparr>di_Devmem := ad_Devmem d, di_Devcore := ad_Devcore d\<rparr> else y) xs = xs"
    if "di_ID x = ad_Id d"
    using Cons.prems that by (intro map_idI) (metis image_eqI list.simps(9) distinct.simps(2) set_map)
  then show ?case using Cons by simp
qed simp


text \<open>What a report makes of a registered device, and which reported devices are new.\<close>

definition report_upd :: "api_device_info list \<Rightarrow> device_info \<Rightarrow> device_info" where
  "report_upd nds x =
     (case find (\<lambda>d. ad_Id d = di_ID x) nds of
        Some d \<Rightarrow> x\<lparr>di_Devmem := ad_Devmem d, di_Devcore := ad_Devcore d\<rparr>
      | None \<Rightarrow> x)"

definition new_devices :: "nat \<Rightarrow> api_device_info list \<Rightarrow> device_info list \<Rightarrow> device_info list" where
  "new_devices i nds ds =
     map (\<lambda>(j, d). make_device_info j d) (filter (\<lambda>(j, d). ad_Id d \<notin> di_ID ` set ds) (enumerate i nds))"

lemma report_upd_ID [simp]: "di_ID (report_upd nds x) = di_ID x"
  by (simp add: report_upd_def split: option.splits)

lemma set_devices_twice [simp]:
  "b < length (nm_heap m) \<Longrightarrow> set_devices b ys (set_devices b xs m) = set_devices b ys m"
  by (simp add: set_devices_def deref_def)

lemma report_upd_Cons:
  "report_upd (d # nds) x = (if ad_Id d = di_ID x then x\<lparr>di_Devmem := ad_Devmem d, di_Devcore := ad_Devcore d\<rparr>
     else report_upd nds x)"
  by (simp add: report_upd_def)

lemma report_upd_absent: "di_ID x \<notin> ad_Id ` set nds \<Longrightarrow> report_upd nds x = x"
proof -
  assume "di_ID x \<notin> ad_Id ` set nds"
  then have "find (\<lambda>d. ad_Id d = di_ID x) nds = None" by (force simp: find_None_iff image_iff)
  then show ?thesis by (simp add: report_upd_def)
qed

lemma report_upd_refresh:
  assumes "distinct (map di_ID ds)" and "distinct (ad_Id d # map ad_Id nds)"
  shows "map (report_upd nds) (refresh_first d ds) = map (report_upd (d # nds)) ds"
  unfolding refresh_first_map [OF assms(1)]
  using assms(2) by (auto simp: report_upd_Cons report_upd_absent)

lemma set_devices_same: "b < length (nm_heap m) \<Longrightarrow> set_devices b (ni_Devices (deref m b)) m = m"
  by (simp add: set_devices_def deref_def)

lemma merge_loop:
  "\<lbrakk> mget (nm_nodes m) name = Some b; b < length (nm_heap m); distinct (map di_ID (ni_Devices (deref m b)));
     distinct (map ad_Id nds) \<rbrakk> \<Longrightarrow>
   fold (merge_device name) (enumerate i nds) (m, new) =
     (set_devices b (map (report_upd nds) (ni_Devices (deref m b))) m,
      new @ new_devices i nds (ni_Devices (deref m b)))"
proof (induction nds arbitrary: i m new)
  case Nil
  have "report_upd [] = (\<lambda>x. x)" by (rule ext) (simp add: report_upd_def)
  then show ?case using Nil.prems by (simp add: new_devices_def set_devices_same)
next
  case (Cons d nds)
  let ?ds = "ni_Devices (deref m b)"
  show ?case
  proof (cases "ad_Id d \<in> di_ID ` set ?ds")
    case True
    define m1 where "m1 = set_devices b (refresh_first d ?ds) m"
    have step: "merge_device name (i, d) (m, new) = (m1, new)"
      using True Cons.prems(1) by (auto simp: merge_device_def m1_def list_ex_iff)
    have m1: "deref m1 b = (deref m b)\<lparr>ni_Devices := refresh_first d ?ds\<rparr>"
      using Cons.prems(2) by (simp add: m1_def deref_set_devices)
    have "set (map di_ID (refresh_first d ?ds)) = set (map di_ID ?ds)" by simp
    then have ids: "di_ID ` set (refresh_first d ?ds) = di_ID ` set ?ds" by (simp only: set_map)
    have "fold (merge_device name) (enumerate (Suc i) nds) (m1, new) =
       (set_devices b (map (report_upd nds) (ni_Devices (deref m1 b))) m1,
        new @ new_devices (Suc i) nds (ni_Devices (deref m1 b)))"
      using Cons.prems by (intro Cons.IH) (simp_all add: m1, simp_all add: m1_def)
    then show ?thesis
      using step True Cons.prems report_upd_refresh [of ?ds d nds]
      by (simp add: m1) (simp add: m1_def new_devices_def ids)
  next
    case False
    then have step: "merge_device name (i, d) (m, new) = (m, new @ [make_device_info i d])"
      using Cons.prems(1) by (force simp: merge_device_def list_ex_iff image_iff)
    have upd: "map (report_upd (d # nds)) ?ds = map (report_upd nds) ?ds"
      using False by (auto simp: report_upd_Cons)
    show ?thesis
      unfolding upd using step Cons.IH [of m "Suc i" "new @ [make_device_info i d]"] Cons.prems False
      by (simp add: new_devices_def)
  qed
qed

lemma merge_loop_unregistered:
  "mget (nm_nodes m) name = None \<Longrightarrow>
   fold (merge_device name) (enumerate i nds) (m, new) = (m, new @ new_devices i nds [])"
  by (induction nds arbitrary: i new) (simp_all add: merge_device_def new_devices_def)

lemma new_devices_ids:
  "map di_ID (new_devices i nds ds) = filter (\<lambda>x. x \<notin> di_ID ` set ds) (map ad_Id nds)"
  by (induction nds arbitrary: i) (auto simp: new_devices_def make_device_info_def)

lemma new_devices_unregistered: "length (new_devices i nds []) = length nds"
  by (simp add: new_devices_def)

lemma new_devices_disjoint: "di_ID ` set ds \<inter> di_ID ` set (new_devices i nds ds) = {}"
proof -
  have "di_ID ` set (new_devices i nds ds) = set (map di_ID (new_devices i nds ds))" by simp
  then show ?thesis unfolding new_devices_ids by auto
qed

text \<open>The registry after a report.\<close>

definition reported ::
  "string \<Rightarrow> string \<Rightarrow> api_device_info list \<Rightarrow> device_info list \<Rightarrow> register_state \<Rightarrow> register_state \<Rightarrow> bool" where
  "reported name h nds old st st' \<longleftrightarrow>
     nodes_wf (rg_nodes st')
     \<and> (nds \<noteq> [] \<longrightarrow> (\<forall>k. registered (rg_nodes st') k =
          (if k = name then Some (map (report_upd nds) old @ new_devices 0 nds old) else registered (rg_nodes st) k)))
     \<and> (\<exists>a<length (nm_heap (rg_nodes st')). mget (rg_copy st') h = Some a
          \<and> ni_Devices (deref (rg_nodes st') a) = new_devices 0 nds old)"

lemma come_unregistered:
  assumes "nodes_wf (rg_nodes st)" and "distinct (map ad_Id nds)" and "mget (nm_nodes (rg_nodes st)) name = None"
  shows "reported name h nds [] st (come name h nds st)"
proof -
  note None = assms(3)
  let ?m = "rg_nodes st"
  obtain a m2 where new: "new_node_info \<lparr>ni_ID = name, ni_Devices = new_devices 0 nds []\<rparr> ?m = (a, m2)"
    by (metis surj_pair)
  note h = deref_new_node_info [OF new]
  have come: "come name h nds st = st\<lparr>rg_nodes := addNode name (Some a) m2, rg_copy := mset_to (rg_copy st) h a\<rparr>"
    using new by (simp add: come_def merge_devices_def merge_loop_unregistered [OF None])
  have "distinct (map di_ID (new_devices 0 nds []))" using assms(2) by (simp add: new_devices_ids)
  then have wf: "nodes_wf (addNode name (Some a) m2)"
    using nodes_wf_addNode [OF assms(1) new, of name] None by simp
  have add: "addNode name (Some a) m2 = (if new_devices 0 nds [] = [] then m2
      else m2\<lparr>nm_nodes := mset_to (nm_nodes ?m) name a\<rparr>)"
    using h None by (simp add: addNode_def)
  have ne: "new_devices 0 nds [] = [] \<longleftrightarrow> nds = []"
    using new_devices_unregistered [of 0 nds] by (metis length_0_conv)
  have "registered (addNode name (Some a) m2) k =
      (if k = name then Some (new_devices 0 nds []) else registered ?m k)" if "nds \<noteq> []" for k
    using that h ne nodes_wf_get(1) [OF assms(1), of k] unfolding add registered_def
    by (cases "mget (nm_nodes ?m) k") auto
  moreover have "a < length (nm_heap (addNode name (Some a) m2))"
    "ni_Devices (deref (addNode name (Some a) m2) a) = new_devices 0 nds []"
    unfolding add using h by simp_all
  ultimately show ?thesis using wf by (simp add: come reported_def)
qed

lemma come_known:
  assumes "nodes_wf (rg_nodes st)" and "distinct (map ad_Id nds)" and "mget (nm_nodes (rg_nodes st)) name = Some b"
  shows "reported name h nds (ni_Devices (deref (rg_nodes st) b)) st (come name h nds st)"
proof -
  note Some = assms(3)
  let ?m = "rg_nodes st"
  have b: "b < length (nm_heap ?m)" "distinct (map di_ID (ni_Devices (deref ?m b)))"
    using nodes_wf_get [OF assms(1) Some] by simp_all
  define old where old: "old = ni_Devices (deref ?m b)"
  define m1 where "m1 = set_devices b (map (report_upd nds) old) ?m"
  have "distinct (map di_ID (map (report_upd nds) old))" using b(2) by (simp add: old comp_def)
  then have wf1: "nodes_wf m1" unfolding m1_def by (rule nodes_wf_set_devices [OF assms(1) Some])
  have m1: "nm_nodes m1 = nm_nodes ?m" "b < length (nm_heap m1)"
    "deref m1 c = (if c = b then (deref ?m b)\<lparr>ni_Devices := map (report_upd nds) old\<rparr> else deref ?m c)" for c
    using b(1) by (simp_all add: m1_def deref_set_devices)
  obtain a m2 where new: "new_node_info \<lparr>ni_ID = name, ni_Devices = new_devices 0 nds old\<rparr> m1 = (a, m2)"
    by (metis surj_pair)
  note h = deref_new_node_info [OF new]
  have come: "come name h nds st = st\<lparr>rg_nodes := addNode name (Some a) m2, rg_copy := mset_to (rg_copy st) h a\<rparr>"
    using new merge_loop [OF Some b assms(2), of 0 "[]"] by (simp add: come_def merge_devices_def m1_def old)
  have "di_ID ` set (map (report_upd nds) old) \<inter> di_ID ` set (new_devices 0 nds old) = {}"
    using new_devices_disjoint [of old 0 nds] by (simp add: image_image)
  moreover have "distinct (map di_ID (new_devices 0 nds old))" using assms(2) by (simp add: new_devices_ids)
  ultimately have wf: "nodes_wf (addNode name (Some a) m2)"
    using nodes_wf_addNode [OF wf1 new, of name] Some m1 by simp
  have ab: "a \<noteq> b" "b < length (nm_heap m2)" "deref m2 b = deref m1 b" using h m1(2) by auto
  have add: "addNode name (Some a) m2 = (if new_devices 0 nds old = [] then m2
      else set_devices b (map (report_upd nds) old @ new_devices 0 nds old) m2)"
    using h Some m1 ab by (simp add: addNode_def)
  have "registered (addNode name (Some a) m2) k =
      (if k = name then Some (map (report_upd nds) old @ new_devices 0 nds old) else registered ?m k)" for k
  proof (cases "k = name")
    case True
    then show ?thesis unfolding add registered_def using h Some m1 ab by (simp add: deref_set_devices)
  next
    case False
    have "c \<noteq> b" if "mget (nm_nodes ?m) k = Some c" for c
      using that False Some nodes_wf_get(2) [OF assms(1)] by metis
    then show ?thesis
      unfolding add registered_def using h m1 ab False nodes_wf_get(1) [OF wf1, of k]
      by (cases "mget (nm_nodes ?m) k") (auto simp: deref_set_devices)
  qed
  moreover have "a < length (nm_heap (addNode name (Some a) m2))"
    "ni_Devices (deref (addNode name (Some a) m2) a) = new_devices 0 nds old"
    unfolding add using h ab by (simp_all add: deref_set_devices)
  ultimately show ?thesis using wf by (simp add: come reported_def old [symmetric])
qed

lemma come_reported:
  assumes "nodes_wf (rg_nodes st)" and "distinct (map ad_Id nds)"
  shows "reported name h nds (case registered (rg_nodes st) name of Some ds \<Rightarrow> ds | None \<Rightarrow> []) st (come name h nds st)"
  using come_unregistered [OF assms, of name] come_known [OF assms, of name]
  by (cases "mget (nm_nodes (rg_nodes st)) name") (simp_all add: registered_def)


section \<open>Properties of registration\<close>

text \<open>A report from a device plugin is merged without losing or doubling anything: devices the node
  already had keep their entry, with memory and cores taken from the report when it mentions them,
  devices seen for the first time are appended, no other node changes, and the registry stays well
  formed (no device listed twice).\<close>
lemma come_effect:
  assumes "nodes_wf (rg_nodes st)" and "distinct (map ad_Id nds)" and "nds \<noteq> []"
    and "old = (case registered (rg_nodes st) name of Some ds \<Rightarrow> ds | None \<Rightarrow> [])"
  shows "nodes_wf (rg_nodes (come name h nds st))
     \<and> (\<exists>new. registered (rg_nodes (come name h nds st)) name = Some (map (report_upd nds) old @ new)
          \<and> map di_ID new = filter (\<lambda>i. i \<notin> di_ID ` set old) (map ad_Id nds))
     \<and> (\<forall>k. k \<noteq> name \<longrightarrow> registered (rg_nodes (come name h nds st)) k = registered (rg_nodes st) k)"
  using come_reported [OF assms(1,2), of name h] assms(3) new_devices_ids [of 0 nds old]
  by (auto simp: reported_def assms(4))

definition start_state :: "node_manager \<Rightarrow> register_state" where
  "start_state m = \<lparr>rg_nodes = m, rg_copy = [], rg_patches = []\<rparr>"

lemma come_effect_example:
  "\<exists>ds. registered (rg_nodes (come ''node1'' ''h'' [example_gpu] (start_state example_nodes))) ''node1'' = Some ds
     \<and> map di_ID ds = [''GPU-1'', ''GPU-2''] \<and> map di_Devmem ds = [32768, 16384]"
proof -
  have wf: "nodes_wf (rg_nodes (start_state example_nodes))"
    using example_nodes_wf by (simp add: start_state_def)
  have old: "[example_info ''GPU-1'', example_info ''GPU-2''] =
      (case registered (rg_nodes (start_state example_nodes)) ''node1'' of Some ds \<Rightarrow> ds | None \<Rightarrow> [])"
    by (simp add: start_state_def example_registered)
  have "distinct (map ad_Id [example_gpu])" by simp
  from come_effect [OF wf this _ old, of "''h''"] show ?thesis
    by (auto simp: example_gpu_def example_info_def report_upd_def)
qed

lemma leave_registered:
  assumes "nodes_wf (rg_nodes st)" and "registered (rg_nodes st) name = Some ds"
    and "mget (rg_copy st) h = Some a" and "ni_Devices (deref (rg_nodes st) a) = rm" and "length rm \<le> length ds"
  shows "\<exists>st'. leave env name h st = Inr st' \<and> registered (rg_nodes st') name = Some (keep_devices ds rm)"
proof -
  obtain b where b: "mget (nm_nodes (rg_nodes st)) name = Some b" "ds = ni_Devices (deref (rg_nodes st) b)"
    using assms(2) by (auto simp: registered_def)
  then show ?thesis
    using assms nodes_wf_get(1) [OF assms(1) b(1)]
    by (auto simp: leave_def rmNodeDevice_def registered_def deref_set_devices keep_devices_def)
qed

text \<open>When a plugin registers its devices for the first time and then falls silent, the time-out removes
  exactly what it had registered: the node is left without devices.\<close>
lemma leave_after_first_registration:
  assumes "nodes_wf (rg_nodes st)" and "distinct (map ad_Id nds)" and "nds \<noteq> []"
    and "registered (rg_nodes st) name = None"
  shows "\<exists>st'. leave env name h (come name h nds st) = Inr st' \<and> registered (rg_nodes st') name = Some []"
proof -
  let ?st1 = "come name h nds st"
  have "reported name h nds [] st ?st1"
    using come_reported [OF assms(1,2), of name h] assms(4) by simp
  then obtain a where wf: "nodes_wf (rg_nodes ?st1)" and reg: "registered (rg_nodes ?st1) name = Some (new_devices 0 nds [])"
    and copy: "mget (rg_copy ?st1) h = Some a" "ni_Devices (deref (rg_nodes ?st1) a) = new_devices 0 nds []"
    using assms(3) by (auto simp: reported_def)
  have "keep_devices ds ds = []" for ds
    by (auto simp: keep_devices_def filter_empty_conv list_ex_iff)
  then show ?thesis
    using leave_registered [OF wf reg copy order_refl] by simp
qed

definition example_register_env :: register_env where
  "example_register_env = \<lparr>re_now = ''2024.01.01 00:00:00'', re_expired = (\<lambda>_. True), re_get = (\<lambda>_. True)\<rparr>"

lemma init_unregistered: "registered (rg_nodes (start_state init_nodes)) k = None"
  by (simp add: start_state_def init_nodes_def registered_def)

lemma init_start_wf: "nodes_wf (rg_nodes (start_state init_nodes))"
  using nodes_wf_init by (simp add: start_state_def)

lemma leave_after_first_registration_example:
  "\<exists>st'. leave example_register_env ''node1'' ''h'' (come ''node1'' ''h'' [example_gpu] (start_state init_nodes)) = Inr st'
     \<and> registered (rg_nodes st') ''node1'' = Some []"
  by (rule leave_after_first_registration [OF init_start_wf _ _ init_unregistered]) simp_all

text \<open>Once a plugin has reported the same devices again, its silence has no effect: \<open>nodeInfoCopy\<close> was
  overwritten with the empty list of new devices, so the time-out removes nothing and the scheduler
  keeps assigning the devices of a plugin that is gone.\<close>
lemma leave_after_second_report_ignored:
  assumes "nodes_wf (rg_nodes st)" and "distinct (map ad_Id nds)" and "nds \<noteq> []"
    and "registered (rg_nodes st) name = Some ds" and "ad_Id ` set nds \<subseteq> di_ID ` set ds" and "[] \<notin> di_ID ` set ds"
  shows "\<exists>st'. leave env name h (come name h nds st) = Inr st'
     \<and> registered (rg_nodes st') name = Some (map (report_upd nds) ds)"
proof -
  let ?st1 = "come name h nds st"
  have "filter (\<lambda>x. x \<notin> di_ID ` set ds) (map ad_Id nds) = []"
    using assms(5) by (auto simp: filter_empty_conv)
  then have none: "new_devices 0 nds ds = []"
    using new_devices_ids [of 0 nds ds] by (metis map_is_Nil_conv)
  have "reported name h nds ds st ?st1"
    using come_reported [OF assms(1,2), of name h] assms(4) by simp
  then obtain a where wf: "nodes_wf (rg_nodes ?st1)" and reg: "registered (rg_nodes ?st1) name = Some (map (report_upd nds) ds)"
    and copy: "mget (rg_copy ?st1) h = Some a" "ni_Devices (deref (rg_nodes ?st1) a) = []"
    using assms(3) none by (auto simp: reported_def)
  have "keep_devices (map (report_upd nds) ds) [] = map (report_upd nds) ds"
    using assms(6) by (force simp: keep_devices_def filter_id_conv image_iff)
  then show ?thesis
    using leave_registered [OF wf reg copy] by simp
qed

lemma leave_after_second_report_ignored_example:
  "\<exists>st' ds. leave example_register_env ''node1'' ''h'' (come ''node1'' ''h'' [example_gpu] (start_state example_nodes)) = Inr st'
     \<and> registered (rg_nodes st') ''node1'' = Some ds \<and> map di_ID ds = [''GPU-1'', ''GPU-2'']"
proof -
  have wf: "nodes_wf (rg_nodes (start_state example_nodes))"
    using example_nodes_wf by (simp add: start_state_def)
  have reg: "registered (rg_nodes (start_state example_nodes)) ''node1'' =
      Some [example_info ''GPU-1'', example_info ''GPU-2'']"
    by (simp add: start_state_def example_registered)
  have "distinct (map ad_Id [example_gpu])" by simp
  from leave_after_second_report_ignored [OF wf this _ reg, of example_register_env "''h''"] show ?thesis
    by (auto simp: example_gpu_def example_info_def)
qed

text \<open>C38: \<open>nodeInfoCopy\<close> is keyed by the handshake annotation alone, so the time-out of one node uses the
  devices of the node that registered last: if that node has more devices, the scheduler panics on a
  negative capacity.\<close>
theorem leave_panics_across_nodes:
  assumes "nodes_wf (rg_nodes st)" and "registered (rg_nodes st) n1 = None" and "registered (rg_nodes st) n2 = None"
    and "n1 \<noteq> n2" and "distinct (map ad_Id ds1)" and "distinct (map ad_Id ds2)" and "ds1 \<noteq> []"
    and "length ds1 < length ds2"
  shows "is_panic (leave env n1 h (come n2 h ds2 (come n1 h ds1 st)))"
proof -
  let ?st1 = "come n1 h ds1 st" and ?st2 = "come n2 h ds2 (come n1 h ds1 st)"
  have r1: "reported n1 h ds1 [] st ?st1"
    using come_reported [OF assms(1,5), of n1 h] assms(2) by simp
  then have wf1: "nodes_wf (rg_nodes ?st1)" and un: "registered (rg_nodes ?st1) n2 = None"
    using assms(3,4,7) by (auto simp: reported_def)
  have "reported n2 h ds2 [] ?st1 ?st2"
    using come_reported [OF wf1 assms(6), of n2 h] un by simp
  moreover have "registered (rg_nodes ?st1) n1 = Some (new_devices 0 ds1 [])"
    using r1 assms(7) by (auto simp: reported_def)
  ultimately obtain a where reg: "registered (rg_nodes ?st2) n1 = Some (new_devices 0 ds1 [])"
    and copy: "mget (rg_copy ?st2) h = Some a" "ni_Devices (deref (rg_nodes ?st2) a) = new_devices 0 ds2 []"
    using assms(4,8) by (auto simp: reported_def)
  obtain b where b: "mget (nm_nodes (rg_nodes ?st2)) n1 = Some b"
    "ni_Devices (deref (rg_nodes ?st2) b) = new_devices 0 ds1 []"
    using reg by (auto simp: registered_def)
  have "new_devices 0 ds1 [] \<noteq> []"
    using assms(7) new_devices_unregistered [of 0 ds1] by (metis length_0_conv)
  then show ?thesis
    using b copy assms(8) by (simp add: leave_def rmNodeDevice_def new_devices_unregistered)
qed

theorem leave_panics_across_nodes_witness:
  "is_panic (leave example_register_env ''node1'' ''h''
     (come ''node2'' ''h'' [example_gpu, example_gpu\<lparr>ad_Id := ''GPU-2''\<rparr>] (come ''node1'' ''h'' [example_gpu] (start_state init_nodes))))"
  by (rule leave_panics_across_nodes [OF init_start_wf init_unregistered init_unregistered])
    (simp_all add: example_gpu_def)

end
