(* ===== verification/Reporting.thy ===== *)
theory Reporting
  imports Registration Nvidia_Plugin
begin

text \<open>
  From the cards of a node to the registry of the scheduler: what a registration round of the NVIDIA plugin
  writes into the annotations of its node, and what a pass of the registration loop reads from them.
\<close>

section \<open>What the plugin writes\<close>

lemma numa_lines_range:
  "numa_lines idx index col res vals = Inr (numa, ok) \<Longrightarrow> - (2 ^ 63) \<le> res \<Longrightarrow> res < 2 ^ 63 \<Longrightarrow> - (2 ^ 63) \<le> numa \<and> numa < 2 ^ 63"
proof (induction vals arbitrary: index col)
  case (Cons v vals)
  have range: "- (2 ^ 63) \<le> fst (Atoi s) \<and> fst (Atoi s) < 2 ^ 63" for s using ParseInt_range [of 64 s] by simp
  show ?case
    using Cons range by (auto simp: Let_def split: if_splits prod.splits) (metis fst_conv)+
qed simp

lemma api_devices_from_nth:
  "api_devices_from flags topo devs idx cs = Inr nds \<Longrightarrow> length nds = length cs
     \<and> (\<forall>i<length cs. \<exists>c numa. cs ! i = Some c \<and> nds ! i = api_device flags devs numa c \<and> - (2 ^ 63) \<le> numa \<and> numa < 2 ^ 63)"
proof (induction cs arbitrary: idx nds)
  case (Cons oc cs)
  then obtain c numa ok ds where c: "oc = Some c" "getNumaInformation topo (int idx) = Inr (numa, ok)"
    "api_devices_from flags topo devs (Suc idx) cs = Inr ds" "nds = api_device flags devs numa c # ds"
    by (cases oc) (auto simp: bind_result_Inr_iff)
  have "- (2 ^ 63) \<le> numa \<and> numa < 2 ^ 63"
    using c(2) numa_lines_range by (fastforce simp: getNumaInformation_def parseNvidiaNumaInfo_def split: option.splits)
  then show ?case using Cons.IH [OF c(3)] c by (auto simp: nth_Cons split: nat.splits)
qed simp

lemma getApiDevices_nth:
  assumes "getApiDevices flags topo devs nvml = Inr nds"
  shows "length nds = length devs"
    and "i < length devs \<Longrightarrow> \<exists>c numa. nvml i = Some c \<and> nds ! i = api_device flags devs numa c \<and> - (2 ^ 63) \<le> numa \<and> numa < 2 ^ 63"
  using api_devices_from_nth [OF assms [unfolded getApiDevices_def]] by simp_all

text \<open>The names of a card that can be encoded: no separator of the codec occurs in them.\<close>

definition card_ok :: "card_info \<Rightarrow> bool" where
  "card_ok c \<longleftrightarrow> set (ci_UUID c) \<inter> {CHR '','', CHR '':''} = {} \<and> set (ci_Model c) \<inter> {CHR '','', CHR '':''} = {}"

definition cards_ok :: "nat \<Rightarrow> (nat \<Rightarrow> card_info option) \<Rightarrow> bool" where
  "cards_ok n nvml \<longleftrightarrow> 0 < n \<and> (\<forall>i<n. \<forall>c. nvml i = Some c \<longrightarrow> card_ok c)
     \<and> (\<forall>i<n. \<forall>j<n. \<forall>c d. nvml i = Some c \<longrightarrow> nvml j = Some d \<longrightarrow> ci_UUID c = ci_UUID d \<longrightarrow> i = j)"

lemma in_i32_registered_mem: "in_i32 (registered_mem scaling m)"
  by (simp add: registered_mem_def Let_def)

lemma api_device_ok:
  "card_ok c \<Longrightarrow> - (2 ^ 63) \<le> numa \<Longrightarrow> numa < 2 ^ 63 \<Longrightarrow> node_device_ok (api_device flags devs numa c)"
  using in_i32_registered_mem by (auto simp: node_device_ok_def api_device_def card_ok_def)

lemma getApiDevices_ok:
  assumes "getApiDevices flags topo devs nvml = Inr nds" and "cards_ok (length devs) nvml"
  shows "nds \<noteq> []" "list_all node_device_ok nds" "distinct (map ad_Id nds)" "map (\<lambda>d. d\<lparr>ad_Index := 0\<rparr>) nds = nds"
proof -
  note nth = getApiDevices_nth [OF assms(1)]
  show "nds \<noteq> []" using nth(1) assms(2) by (auto simp: cards_ok_def)
  show "list_all node_device_ok nds"
    using nth assms(2) api_device_ok by (fastforce simp: list_all_length cards_ok_def)
  have "ad_Index (nds ! i) = 0" if "i < length nds" for i
    using nth(2) [of i] nth(1) that by (auto simp: api_device_def)
  then show "map (\<lambda>d. d\<lparr>ad_Index := 0\<rparr>) nds = nds"
    by (intro nth_equalityI) simp_all
  show "distinct (map ad_Id nds)"
    unfolding distinct_conv_nth
  proof (intro allI impI)
    fix i j assume ij: "i < length (map ad_Id nds)" "j < length (map ad_Id nds)" "i \<noteq> j"
    then obtain c d where "nvml i = Some c" "ad_Id (nds ! i) = ci_UUID c" "nvml j = Some d" "ad_Id (nds ! j) = ci_UUID d"
      using nth(2) [of i] nth(2) [of j] nth(1) by (auto simp: api_device_def)
    then show "map ad_Id nds ! i \<noteq> map ad_Id nds ! j"
      using ij assms(2) nth(1) by (auto simp: cards_ok_def)
  qed
qed

abbreviation nvidia_handshake :: string where "nvidia_handshake \<equiv> ''4pd.io/node-handshake''"
abbreviation nvidia_register :: string where "nvidia_register \<equiv> ''4pd.io/node-nvidia-register''"

lemma RegistrInAnnotation_writes:
  assumes "RegistrInAnnotation flags topo devs nvml (Inr annos) api_patch now = Inr annos'" and "merges api_patch"
  shows "\<exists>nds. getApiDevices flags topo devs nvml = Inr nds \<and> mget annos' nvidia_register = Some (EncodeNodeDevices nds)
     \<and> mget annos' nvidia_handshake = Some (''Reported '' @ now)
     \<and> (\<forall>k. k \<notin> {nvidia_register, nvidia_handshake} \<longrightarrow> mget annos' k = mget annos k)"
proof -
  obtain nds where nds: "getApiDevices flags topo devs nvml = Inr nds"
    and patch: "api_patch annos (mset_to (mset_to [] nvidia_handshake (''Reported '' @ now)) nvidia_register (EncodeNodeDevices nds)) = Inr annos'"
    using assms(1) by (auto simp: RegistrInAnnotation_def bind_result_Inr_iff)
  have "map_ok (mset_to (mset_to [] nvidia_handshake (''Reported '' @ now)) nvidia_register (EncodeNodeDevices nds))" by simp
  from mergesD [OF assms(2) this patch] show ?thesis using nds by simp
qed

section \<open>What the scheduler reads\<close>

text \<open>
  The characters of \<open>time.Now().String()\<close>: the layout "2006-01-02 15:04:05.999999999 -0700 MST" with the abbreviation
  of the time zone, followed by "m=" and the signed seconds of the monotonic clock.  The abbreviations of the time zone
  database consist of capital letters, or of a sign and digits; "ChST" (Guam) has one \<open>h\<close>.
\<close>

definition time_text :: "string \<Rightarrow> bool" where
  "time_text s \<longleftrightarrow> set s \<subseteq> set ''0123456789-+.:= mhABCDEFGHIJKLMNOPQRSTUVWXYZ''"

lemma Contains_chars: "Contains s t \<Longrightarrow> c \<in> set t \<Longrightarrow> c \<in> set s"
  by (auto simp: Contains_def sublist_def)

lemma reported_not_asked:
  assumes "time_text now"
  shows "\<not> Contains (''Reported '' @ now) ''Requesting''" "\<not> Contains (''Reported '' @ now) ''Deleted''"
proof -
  have "CHR ''q'' \<notin> set (''Reported '' @ now)" "CHR ''l'' \<notin> set (''Reported '' @ now)"
    using assms by (auto simp: time_text_def)
  then show "\<not> Contains (''Reported '' @ now) ''Requesting''" "\<not> Contains (''Reported '' @ now) ''Deleted''"
    using Contains_chars [of "''Reported '' @ now" "''Requesting''" "CHR ''q''"]
      Contains_chars [of "''Reported '' @ now" "''Deleted''" "CHR ''l''"] by auto
qed

lemma register_devices_absent:
  "\<forall>(h, r)\<in>set known. mget (no_Annotations val) r = None \<Longrightarrow> register_devices env val known st = Inr st"
  by (induction known) (auto simp: register_device_def)

lemma register_devices_one:
  assumes "distinct known" and "e \<in> set known" and "\<forall>(h, r)\<in>set known. (h, r) \<noteq> e \<longrightarrow> mget (no_Annotations val) r = None"
  shows "register_devices env val known st = register_device env val e st"
  using assms
proof (induction known arbitrary: st)
  case (Cons x known)
  show ?case
  proof (cases "x = e")
    case True
    then have "\<forall>(h, r)\<in>set known. mget (no_Annotations val) r = None" using Cons.prems by fastforce
    then show ?thesis
      using True register_devices_absent by (cases "register_device env val e st") (simp_all add: register_devices_absent)
  next
    case False
    then have "register_device env val x st = Inr st" using Cons.prems(3) by (cases x) (auto simp: register_device_def)
    then show ?thesis using Cons False by auto
  qed
qed simp

lemma register_device_come:
  assumes "mget (no_Annotations val) r = Some (EncodeNodeDevices nds)" and "mget (no_Annotations val) h = Some (''Reported '' @ now)"
    and "time_text now" and "nds \<noteq> []" and "list_all node_device_ok nds" and "map (\<lambda>d. d\<lparr>ad_Index := 0\<rparr>) nds = nds"
    and "re_get env (no_Name val)"
  shows "register_device env val (h, r) st =
     Inr (come (no_Name val) h nds (st\<lparr>rg_patches := rg_patches st @ [(no_Name val, h, ''Requesting_'' @ re_now env)]\<rparr>))"
  using assms reported_not_asked [OF assms(3)]
  by (simp add: register_device_def node_devices_roundtrip mget_default_def)

end
