(* ===== verification/Recovery.thy ===== *)
theory Recovery
  imports Interleaving
begin

text \<open>
  The records of the scheduler and the annotations at the API server.  The scheduler keeps its records in memory;
  after a restart it rebuilds them from the annotations that \<open>Filter\<close> wrote (\<open>onAddPod\<close> in
  \<open>pkg/scheduler/scheduler.go\<close>, the codecs of \<open>pkg/util/util.go\<close>).  The codec loses container boundaries and device positions.
  The theory follows scheduler and stored pods through runs in which the two agree, shows that a restart
  then gives every node the usage it had, and that they stop to agree when a pod is filtered again in vain.
\<close>

lemma uses_of_forget [simp]: "uses_of i (map forget_idx sel) = map forget_idx (uses_of i sel)"
  by (simp add: uses_of_def filter_map comp_def forget_idx_def)

lemma forget_idx_fields [simp]:
  "cd_Usedmem (forget_idx a) = cd_Usedmem a" "cd_Usedcores (forget_idx a) = cd_Usedcores a"
  by (simp_all add: forget_idx_def)

lemma book_all_forget: "book_all (map forget_idx sel) d = book_all sel d"
  by (simp add: book_all_def comp_def)

lemma SupportDevices_key: "AssignedNodeAnnotations \<notin> snd ` set SupportDevices"
  "AssignedNodeAnnotations \<notin> snd ` set InRequestDevices"
  by (simp_all add: SupportDevices_def InRequestDevices_def AssignedNodeAnnotations_def)

text \<open>The annotation that carries the assignment of GPUs.\<close>

lemma mget_filter_annotations_support:
  assumes "fe_support env = SupportDevices" and "ns_devices m = [(NvidiaGPUDevice, v)]"
  shows "mget (filter_annotations env m) ''hami.sh/vgpu-devices-allocated'' = Some (EncodePodSingleDevice v)"
  using assms
  by (simp add: filter_annotations_def mget_maps_Copy map_ok_EncodePodDevices EncodePodDevices_def SupportDevices_def
      device_names)

text \<open>Names that the codec can carry.\<close>

definition plain_name :: "string \<Rightarrow> bool" where
  "plain_name n \<longleftrightarrow> set n \<inter> {CHR '','', CHR '':'', CHR '';''} = {}"

lemma room_for_amounts:
  assumes "room_for sel d" and "usage_ok d" and "a \<in> set sel" and "cd_UUID a = du_Id d"
  shows "in_i32 (cd_Usedmem a)" "in_i32 (cd_Usedcores a)"
proof -
  have mem: "a \<in> set (uses_of (du_Id d) sel)" using assms(3,4) by (simp add: uses_of_def)
  have nn: "\<forall>b\<in>set (uses_of (du_Id d) sel). 0 \<le> cd_Usedmem b \<and> 0 \<le> cd_Usedcores b"
    using assms(1) by (simp add: room_for_def)
  have "cd_Usedmem a \<le> sum_list (map cd_Usedmem (uses_of (du_Id d) sel))"
    "cd_Usedcores a \<le> sum_list (map cd_Usedcores (uses_of (du_Id d) sel))"
    using mem nn by (auto intro!: member_le_sum_list)
  then show "in_i32 (cd_Usedmem a)" "in_i32 (cd_Usedcores a)"
    using assms(1,2) mem nn by (auto simp: room_for_def usage_ok_def in_i32_def)
qed

text \<open>The assignment of a one-request pod can be encoded.\<close>

lemma assigned_encodable:
  assumes "node_ok us" and "\<forall>u\<in>set us. room_for sel u" and "assigned_on k us sel"
    and "\<forall>u\<in>set us. plain_name (du_Id u)" and "rq_Type k = NvidiaGPUDevice"
  shows "list_all container_device_ok sel"
  unfolding list_all_iff
proof
  fix a
  assume a: "a \<in> set sel"
  then obtain u where u: "u \<in> set us" "cd_UUID a = du_Id u" and t: "cd_Type a = NvidiaGPUDevice"
    using assms(3,5) by (auto simp: assigned_on_def)
  have "usage_ok u" using assms(1) u(1) by (simp add: node_ok_def)
  then have "in_i32 (cd_Usedmem a)" "in_i32 (cd_Usedcores a)"
    using room_for_amounts [of sel u a] assms(2) u a by simp_all
  then show "container_device_ok a"
    using assms(4) u t by (simp add: container_device_ok_def plain_name_def device_names)
qed

lemma calcScore_single_devices:
  assumes "sorts_by DeviceUsageList_Less srt" and "nums_free chk"
    and "calcScore srt chk [[(idx, k)]] nodes = Inr (scores, nodes')" and "m \<in> set scores"
    and "\<forall>(_, ds)\<in>set nodes. node_ok ds \<and> requests_ok [(idx, k)] ds"
  shows "\<exists>us sel. (ns_nodeID m, us) \<in> set nodes \<and> ns_devices m = [(rq_Type k, [sel])] \<and> node_ok us
     \<and> (\<forall>u\<in>set us. room_for sel u) \<and> assigned_on k us sel"
proof -
  obtain us us' where us: "(ns_nodeID m, us) \<in> set nodes"
    and sc: "score_containers srt chk 0 [[(idx, k)]] us [] (Fin 0) = Inr (us', ns_devices m, ns_score m)"
    and len: "length (ns_devices m) = 1"
    using calcScore_member [OF assms(3,4)] by auto
  have ok: "node_ok us" "requests_ok [(idx, k)] us" using assms(5) us by auto
  then have sum: "request_sum [(idx, k)] \<noteq> 0" by (simp add: requests_ok_def request_sum_def)
  let ?r = "fitInDevices srt chk us [(idx, k)] []"
  have dv: "ns_devices m = fr_devinput ?r"
    using sc sum by (simp add: Let_def split: if_splits)
  then show ?thesis
    using fitInDevices_single [OF assms(1,2) ok, of "[]"] len us ok(1) by (auto split: if_splits)
qed

text \<open>What a successful \<open>Filter\<close> records, and stores in both annotations, for a pod that requests GPUs.\<close>

lemma mget_filter_annotations_inreq:
  assumes "fe_inreq env = InRequestDevices" and "fe_support env = SupportDevices" and "ns_devices m = [(NvidiaGPUDevice, v)]"
  shows "mget (filter_annotations env m) ''hami.sh/vgpu-devices-to-allocate'' = Some (EncodePodSingleDevice v)"
  using assms
  by (simp add: filter_annotations_def mget_maps_Copy map_ok_EncodePodDevices EncodePodDevices_def SupportDevices_def
      InRequestDevices_def device_names)

lemma mget_filter_annotations_other:
  assumes "fe_inreq env = InRequestDevices" and "fe_support env = SupportDevices" and "ns_devices m = [(NvidiaGPUDevice, v)]"
    and "k \<notin> {AssignedNodeAnnotations, AssignedTimeAnnotations, ''hami.sh/vgpu-devices-to-allocate'', ''hami.sh/vgpu-devices-allocated''}"
  shows "mget (filter_annotations env m) k = None"
  using assms
  by (simp add: filter_annotations_def mget_maps_Copy map_ok_EncodePodDevices EncodePodDevices_def SupportDevices_def
      InRequestDevices_def device_names)

lemma Filter_gpu_assignment:
  assumes "sched_inv s" and "env_ok env" and "single_type_requests env p s [(idx, k)]"
    and "rq_Type k = NvidiaGPUDevice" and "fe_inreq env = InRequestDevices" and "fe_support env = SupportDevices"
    and "merges (fe_patch env)"
    and "\<forall>n ds d. registered (sc_nodes s) n = Some ds \<longrightarrow> d \<in> set ds \<longrightarrow> plain_name (di_ID d)"
    and "Filter env p nodeNames s = Inr (s', annos', Inr r)" and "flt_NodeNames r = Some ns"
    and "filter_total (Resourcereqs (fe_cfg env) (fe_devs env) p) \<noteq> 0"
  obtains n sel where "ns = [n]" "sc_nodes s' = sc_nodes s"
    "sc_pods s' = addPod p n [(NvidiaGPUDevice, [sel])] (delPod p (sc_pods s))"
    "list_all container_device_ok sel" "int (length sel) = rq_Nums k"
    "mget annos' ''hami.sh/vgpu-devices-allocated'' = Some (EncodePodSingleDevice [sel])"
    "mget annos' ''hami.sh/vgpu-devices-to-allocate'' = Some (EncodePodSingleDevice [sel])"
    "mget annos' AssignedNodeAnnotations = Some n"
    "\<And>key. key \<notin> {AssignedNodeAnnotations, AssignedTimeAnnotations, ''hami.sh/vgpu-devices-to-allocate'',
        ''hami.sh/vgpu-devices-allocated''} \<Longrightarrow> mget annos' key = mget (pod_Annotations p) key"
proof -
  let ?s0 = "s\<lparr>sc_pods := delPod p (sc_pods s)\<rparr>"
  obtain s1 usage failed where g: "getNodesUsage nodeNames ?s0 = (s1, usage, failed)" by (metis prod_cases3)
  have rs: "requests_of [(idx, k)] = [[(idx, k)]]" by (simp add: requests_of_def)
  obtain m scores usage' where c:
    "calcScore (fe_srt env) (checkType (fe_devs env) (pod_Annotations p)) [[(idx, k)]] (fe_itr env usage)
       = Inr (scores, usage')"
    and m: "m \<in> set scores" "ns = [ns_nodeID m]" and nodes: "sc_nodes s' = sc_nodes s"
    and patch: "fe_patch env (pod_Annotations p) (filter_annotations env m) = Inr annos'"
    and pods: "sc_pods s' = addPod p (ns_nodeID m) (ns_devices m) (delPod p (sc_pods s))"
    using Filter_success_cases [OF assms(1-3,11,9,10), unfolded g fst_conv snd_conv rs] by metis
  have inv0: "sched_inv ?s0" using assms(1) by (rule sched_inv_delPod)
  then have wf: "nodes_wf (sc_nodes ?s0)" by (simp add: sched_inv_def)
  have req: "single_type_requests env p ?s0 [(idx, k)]" using assms(3) by (simp add: single_type_requests_def)
  have srt: "sorts_by DeviceUsageList_Less (fe_srt env)" using assms(2) by (simp add: env_ok_def)
  note entries = usage_entries [OF wf assms(2) g]
  have "\<forall>(_, ds)\<in>set (fe_itr env usage). node_ok ds \<and> requests_ok [(idx, k)] ds"
    using entries node_usage_ok [OF inv0] node_usage_requests_ok [OF req] by fastforce
  from calcScore_single_devices [OF srt nums_free_checkType c m(1) this]
  obtain us sel where us: "(ns_nodeID m, us) \<in> set (fe_itr env usage)" "node_ok us"
    "\<forall>u\<in>set us. room_for sel u" "assigned_on k us sel"
    and dv: "ns_devices m = [(NvidiaGPUDevice, [sel])]"
    using assms(4) by auto
  have "\<forall>u\<in>set us. plain_name (du_Id u)"
    using us(1) entries assms(8) by (auto simp: node_usage_def)
  then have enc: "list_all container_device_ok sel"
    using assigned_encodable [OF us(2-4) _ assms(4)] by simp
  have num: "int (length sel) = rq_Nums k"
    using Filter_scores [OF inv0 assms(2) req g c [folded rs] m(1)] dv by auto
  note sent = mergesD [OF assms(7) map_ok_filter_annotations patch]
  show thesis
  proof (rule that [OF m(2) nodes pods [unfolded dv] enc num])
    show "mget annos' ''hami.sh/vgpu-devices-allocated'' = Some (EncodePodSingleDevice [sel])"
      using sent mget_filter_annotations_support [OF assms(6) dv] by simp
    show "mget annos' ''hami.sh/vgpu-devices-to-allocate'' = Some (EncodePodSingleDevice [sel])"
      using sent mget_filter_annotations_inreq [OF assms(5,6) dv] by simp
    show "mget annos' AssignedNodeAnnotations = Some (ns_nodeID m)"
      using sent mget_filter_annotations_node [of env m] SupportDevices_key assms(5,6) by simp
  qed (use sent mget_filter_annotations_other [OF assms(5,6) dv] in simp)
qed

section \<open>Usage does not depend on order and positions\<close>

lemma book_all_counted:
  "mset (map forget_idx sel) = mset (map forget_idx sel') \<Longrightarrow> book_all sel d = book_all sel' d"
  using book_all_mset [of "map forget_idx sel" "map forget_idx sel'" d] by (simp add: book_all_forget)

text \<open>What of a record counts for the usage.\<close>

definition counted :: "pod_info \<Rightarrow> string \<times> container_devices" where
  "counted i = (pi_NodeID i, map forget_idx (all_devices (pi_Devices i)))"

lemma pods_on_counted:
  "map forget_idx (pods_on pods n) = concat (map (\<lambda>(_, c). if fst c = n then snd c else []) (map (\<lambda>(u, i). (u, counted i)) pods))"
  by (induction pods) (auto simp: counted_def)

lemma mset_concat_cong: "mset xss = mset yss \<Longrightarrow> mset (concat xss) = mset (concat yss)"
proof -
  assume eq: "mset xss = mset yss"
  have "mset (concat zss) = sum_mset (image_mset mset (mset zss))" for zss :: "'a list list"
    by (induction zss) simp_all
  then show ?thesis by (simp add: eq)
qed

lemma pods_on_same:
  assumes "map_ok m" and "map_ok m'" and "\<forall>u. map_option counted (mget m u) = map_option counted (mget m' u)"
  shows "mset (map forget_idx (pods_on m n)) = mset (map forget_idx (pods_on m' n))"
proof -
  let ?g = "map (\<lambda>(u :: string, i). (u, counted i))"
  have map_of: "map_of (?g x) u = map_option counted (mget x u)" for x u
    by (simp add: mget_def map_of_map)
  have keys: "map fst (?g x) = map fst x" for x by (induction x) auto
  then have dist: "distinct (map fst (?g m))" "distinct (map fst (?g m'))"
    unfolding keys using assms(1,2) by (simp_all add: map_ok_def)
  have "map_of (?g m) = map_of (?g m')" using assms(3) map_of by (intro ext) simp
  then have "set (?g m) = set (?g m')" using map_of_inject_set [OF dist] by simp
  then have "mset (?g m) = mset (?g m')"
    using set_eq_iff_mset_eq_distinct [of "?g m" "?g m'"] dist [THEN distinct_map [THEN iffD1]] by blast
  then have "mset (map (\<lambda>(_, c). if fst c = n then snd c else []) (?g m)) = mset (map (\<lambda>(_, c). if fst c = n then snd c else []) (?g m'))"
    by (simp only: mset_map)
  from mset_concat_cong [OF this] show ?thesis unfolding pods_on_counted .
qed

lemma node_usage_same:
  assumes "map_ok (sc_pods s)" and "map_ok (sc_pods s')" and "registered (sc_nodes s') n = registered (sc_nodes s) n"
    and "\<forall>u. map_option counted (mget (sc_pods s) u) = map_option counted (mget (sc_pods s') u)"
  shows "node_usage s' n = node_usage s n"
proof -
  have "book_all (pods_on (sc_pods s') n) d = book_all (pods_on (sc_pods s) n) d" for d
    by (rule book_all_counted [OF pods_on_same [OF assms(2,1)]]) (use assms(4) in simp)
  then show ?thesis using assms(3) by (simp add: node_usage_def)
qed

section \<open>Records and stored pods\<close>

type_synonym pod_store = "(string, pod) gomap"

text \<open>The record that the annotations of a stored pod stand for.\<close>

definition stored_record :: "pod \<Rightarrow> (string \<times> container_devices) option" where
  "stored_record q =
     (case mget (pod_Annotations q) AssignedNodeAnnotations of
        None \<Rightarrow> None
      | Some n \<Rightarrow> if IsPodInTerminatedState q then None
                  else Some (n, map forget_idx (all_devices (DecodePodDevices SupportDevices (pod_Annotations q)))))"

definition store_ok :: "pod_store \<Rightarrow> bool" where
  "store_ok store \<longleftrightarrow> map_ok store \<and> (\<forall>u q. mget store u = Some q \<longrightarrow> pod_UID q = u)"

definition agrees :: "scheduler \<Rightarrow> pod_store \<Rightarrow> bool" where
  "agrees s store \<longleftrightarrow> store_ok store
     \<and> (\<forall>u. map_option counted (mget (sc_pods s) u) = Option.bind (mget store u) stored_record)"

text \<open>A restarted scheduler reads the stored pods one by one.\<close>

definition replay :: "pod_store \<Rightarrow> scheduler \<Rightarrow> scheduler" where
  "replay store s = fold (\<lambda>(_, q). onAddPod SupportDevices q) store s"

lemma onAddPod_nodes [simp]: "sc_nodes (onAddPod support p s) = sc_nodes s"
  by (simp add: onAddPod_def split: option.splits)

lemma onAddPod_map_ok: "map_ok (sc_pods s) \<Longrightarrow> map_ok (sc_pods (onAddPod support p s))"
  by (auto simp: onAddPod_def addPod_def delPod_mdel split: option.splits)

lemma onAddPod_unrecorded:
  assumes "mget (sc_pods s) (pod_UID q) = None"
  shows "map_option counted (mget (sc_pods (onAddPod SupportDevices q s)) u) =
     (if u = pod_UID q then stored_record q else map_option counted (mget (sc_pods s) u))"
  using assms
  by (auto simp: onAddPod_def stored_record_def addPod_def delPod_mdel counted_def make_pod_info_def split: option.splits)

lemma replay_records:
  assumes "store_ok store" and "map_ok (sc_pods s)" and "\<forall>(u, q)\<in>set store. mget (sc_pods s) u = None"
  shows "sc_nodes (replay store s) = sc_nodes s \<and> map_ok (sc_pods (replay store s))
     \<and> (\<forall>u. map_option counted (mget (sc_pods (replay store s)) u) =
          (case mget store u of None \<Rightarrow> map_option counted (mget (sc_pods s) u) | Some q \<Rightarrow> stored_record q))"
  using assms
proof (induction store arbitrary: s)
  case (Cons x store)
  obtain u q where x: "x = (u, q)" by (cases x)
  have st: "store_ok store" "u \<notin> fst ` set store"
    using Cons.prems(1) by (auto simp: store_ok_def x mget_None_iff dest: mget_SomeD split: if_splits)
      (metis (no_types, lifting) mget_SomeD fst_conv image_eqI)
  have uid: "pod_UID q = u" using Cons.prems(1) by (auto simp: store_ok_def x)
  let ?s = "onAddPod SupportDevices q s"
  have new: "mget (sc_pods s) (pod_UID q) = None" using Cons.prems(3) x uid by auto
  note one = onAddPod_unrecorded [OF new]
  have "mget (sc_pods ?s) u' = None" if "(u', q') \<in> set store" for u' q'
  proof -
    have "u' \<noteq> u" using st(2) that by force
    moreover have "mget (sc_pods s) u' = None" using Cons.prems(3) that by auto
    ultimately show ?thesis using one [of u'] uid by simp
  qed
  then have fresh: "\<forall>(u', q')\<in>set store. mget (sc_pods ?s) u' = None" by auto
  have IH: "sc_nodes (replay store ?s) = sc_nodes ?s \<and> map_ok (sc_pods (replay store ?s))
     \<and> (\<forall>u. map_option counted (mget (sc_pods (replay store ?s)) u) =
          (case mget store u of None \<Rightarrow> map_option counted (mget (sc_pods ?s) u) | Some q \<Rightarrow> stored_record q))"
    by (rule Cons.IH [OF st(1) onAddPod_map_ok [OF Cons.prems(2)] fresh])
  have "mget store u = None" using st(2) by (simp add: mget_None_iff)
  then show ?case using IH one uid by (auto simp: x replay_def split: option.splits)
qed (simp add: replay_def)

text \<open>After a restart every node has the usage it had, in whatever order the pods are read.\<close>

lemma restart_usage:
  assumes "agrees s store" and "map_ok (sc_pods s)" and "mset store' = mset store"
    and "sc_pods fresh = []" and "registered (sc_nodes fresh) n = registered (sc_nodes s) n"
  shows "node_usage (replay store' fresh) n = node_usage s n"
proof -
  have ok: "store_ok store" using assms(1) by (simp add: agrees_def)
  have dist: "distinct (map fst store)" using ok by (simp add: store_ok_def map_ok_def)
  then have dist': "distinct (map fst store')" using assms(3) by (metis mset_map mset_eq_imp_distinct_iff)
  have "set store' = set store" using assms(3) by (metis set_mset_mset)
  then have same: "mget store' u = mget store u" for u
    using map_of_inject_set [OF dist' dist] by (simp add: mget_def)
  then have ok': "store_ok store'" using ok dist' by (simp add: store_ok_def map_ok_def)
  have rec: "sc_nodes (replay store' fresh) = sc_nodes fresh" "map_ok (sc_pods (replay store' fresh))"
    "map_option counted (mget (sc_pods (replay store' fresh)) u) = Option.bind (mget store u) stored_record" for u
    using replay_records [OF ok', of fresh] assms(4) same by (auto split: option.splits)
  show ?thesis
    by (rule node_usage_same) (use assms(1,2,5) rec in \<open>auto simp: agrees_def\<close>)
qed

section \<open>Runs in which records and annotations agree\<close>

lemma DecodePodDevices_cong:
  assumes "\<forall>k\<in>snd ` set checklist. mget a k = mget b k"
  shows "DecodePodDevices checklist a = DecodePodDevices checklist b"
proof -
  have loop: "decode_pod_loop checklist a pd = decode_pod_loop checklist b pd" for pd
    using assms by (induction checklist a pd rule: decode_pod_loop.induct) (auto split: option.splits sum.splits)
  have none: "decode_pod_loop cl [] pd = pd" for cl pd by (induction cl arbitrary: pd) auto
  show ?thesis using loop [of "[]"] none by (simp add: DecodePodDevices_def) metis
qed

text \<open>
  The events of a cluster: a pod is created; it is filtered, and its annotations are stored; some other client
  changes annotations that are not about the assignment; a pod finishes; a pod is deleted; an event is
  delivered again.  A call of \<open>Filter\<close> that does not place its pod is admitted for a pod that was never placed.
\<close>

inductive cluster_step :: "scheduler \<times> pod_store \<Rightarrow> scheduler \<times> pod_store \<Rightarrow> bool" where
  cluster_create: "mget store (pod_UID p) = None \<Longrightarrow> mget (pod_Annotations p) AssignedNodeAnnotations = None \<Longrightarrow>
     cluster_step (s, store) (onAddPod SupportDevices p s, mset_to store (pod_UID p) p)"
| cluster_place: "mget store (pod_UID p) = Some p \<Longrightarrow> \<not> IsPodInTerminatedState p \<Longrightarrow> env_ok env \<Longrightarrow>
     single_type_requests env p s [(idx, k)] \<Longrightarrow> rq_Type k = NvidiaGPUDevice \<Longrightarrow> fe_inreq env = InRequestDevices \<Longrightarrow>
     fe_support env = SupportDevices \<Longrightarrow> merges (fe_patch env) \<Longrightarrow> filter_total (Resourcereqs (fe_cfg env) (fe_devs env) p) \<noteq> 0 \<Longrightarrow>
     Filter env p nodeNames s = Inr (s', annos', Inr r) \<Longrightarrow> flt_NodeNames r = Some ns \<Longrightarrow>
     cluster_step (s, store) (s', mset_to store (pod_UID p) (p\<lparr>pod_Annotations := annos'\<rparr>))"
| cluster_refuse: "mget store (pod_UID p) = Some p \<Longrightarrow> mget (pod_Annotations p) AssignedNodeAnnotations = None \<Longrightarrow>
     filter_total (Resourcereqs (fe_cfg env) (fe_devs env) p) \<noteq> 0 \<Longrightarrow>
     Filter env p nodeNames s = Inr (s', annos', res) \<Longrightarrow> (\<forall>r. res = Inr r \<longrightarrow> flt_NodeNames r = None) \<Longrightarrow>
     cluster_step (s, store) (s', store)"
| cluster_annotate: "mget store (pod_UID p) = Some p \<Longrightarrow>
     \<forall>key\<in>insert AssignedNodeAnnotations (snd ` set SupportDevices). mget annos key = mget (pod_Annotations p) key \<Longrightarrow>
     cluster_step (s, store) (onUpdatePod SupportDevices p (p\<lparr>pod_Annotations := annos\<rparr>) s, mset_to store (pod_UID p) (p\<lparr>pod_Annotations := annos\<rparr>))"
| cluster_finish: "mget store (pod_UID p) = Some p \<Longrightarrow> phase \<in> {PodFailed, PodSucceeded} \<Longrightarrow>
     cluster_step (s, store) (onUpdatePod SupportDevices p (p\<lparr>pod_Phase := phase\<rparr>) s, mset_to store (pod_UID p) (p\<lparr>pod_Phase := phase\<rparr>))"
| cluster_delete: "mget store (pod_UID p) = Some p \<Longrightarrow> cluster_step (s, store) (onDelPod p s, mdel store (pod_UID p))"
| cluster_deliver: "mget store (pod_UID p) = Some p \<Longrightarrow> cluster_step (s, store) (onUpdatePod SupportDevices old p s, store)"
| cluster_recompute: "cluster_step (s, store) (fst (getNodesUsage nodes s), store)"

inductive_cases cluster_stepE: "cluster_step (s, store) x"

definition plain_devices :: "scheduler \<Rightarrow> bool" where
  "plain_devices s \<longleftrightarrow> (\<forall>n ds d. registered (sc_nodes s) n = Some ds \<longrightarrow> d \<in> set ds \<longrightarrow> plain_name (di_ID d))"

definition cluster_inv :: "scheduler \<times> pod_store \<Rightarrow> bool" where
  "cluster_inv = (\<lambda>(s, store). sched_inv s \<and> agrees s store \<and> plain_devices s)"

lemma store_ok_set: "store_ok store \<Longrightarrow> pod_UID p = u \<Longrightarrow> store_ok (mset_to store u p)"
  by (simp add: store_ok_def)

lemma agreesD:
  assumes "agrees s store"
  shows "store_ok store" and "map_option counted (mget (sc_pods s) u) = Option.bind (mget store u) stored_record"
  using assms by (simp_all add: agrees_def)

text \<open>An event that delivers a stored pod: it is on record, finished or without an assignment.\<close>

lemma agrees_fits_in:
  assumes "agrees s store" and "mget store (pod_UID p) = Some p"
  shows "fits_in SupportDevices p s"
  using agreesD(2) [OF assms(1), of "pod_UID p"] assms(2)
  by (auto simp: fits_in_def stored_record_def split: option.splits if_splits)

lemma onAddPod_stored:
  assumes "map_option counted (mget (sc_pods s) (pod_UID p)) = stored_record p \<or> IsPodInTerminatedState p \<and> stored_record p = None
       \<and> (mget (pod_Annotations p) AssignedNodeAnnotations = None \<longrightarrow> mget (sc_pods s) (pod_UID p) = None)"
  shows "map_option counted (mget (sc_pods (onAddPod SupportDevices p s)) u) =
     (if u = pod_UID p then stored_record p else map_option counted (mget (sc_pods s) u))"
  using assms
  by (auto simp: onAddPod_def stored_record_def addPod_def delPod_mdel counted_def make_pod_info_def split: option.splits if_splits)

lemma agrees_update:
  assumes "agrees s store" and "pod_UID p = u"
    and "\<forall>v. map_option counted (mget (sc_pods s') v) = (if v = u then stored_record p else map_option counted (mget (sc_pods s) v))"
  shows "agrees s' (mset_to store u p)"
  using assms agreesD [OF assms(1)] by (simp add: agrees_def store_ok_set)

lemma agrees_cong: "agrees s store \<Longrightarrow> sc_pods s' = sc_pods s \<Longrightarrow> agrees s' store"
  by (simp add: agrees_def)

lemma plain_devices_cong: "plain_devices s \<Longrightarrow> sc_nodes s' = sc_nodes s \<Longrightarrow> plain_devices s'"
  by (simp add: plain_devices_def)

lemma cluster_place_agrees:
  assumes "sched_inv s" and "agrees s store" and "plain_devices s" and "\<not> IsPodInTerminatedState p" and "env_ok env"
    and "single_type_requests env p s [(idx, k)]" and "rq_Type k = NvidiaGPUDevice" and "fe_inreq env = InRequestDevices"
    and "fe_support env = SupportDevices" and "merges (fe_patch env)"
    and "filter_total (Resourcereqs (fe_cfg env) (fe_devs env) p) \<noteq> 0"
    and "Filter env p nodeNames s = Inr (s', annos', Inr r)" and "flt_NodeNames r = Some ns"
  shows "agrees s' (mset_to store (pod_UID p) (p\<lparr>pod_Annotations := annos'\<rparr>)) \<and> sc_nodes s' = sc_nodes s"
proof -
  let ?q = "p\<lparr>pod_Annotations := annos'\<rparr>"
  obtain n sel where nodes: "sc_nodes s' = sc_nodes s"
    and pods: "sc_pods s' = addPod p n [(NvidiaGPUDevice, [sel])] (delPod p (sc_pods s))"
    and enc: "list_all container_device_ok (concat [sel])"
    and stored: "mget annos' ''hami.sh/vgpu-devices-allocated'' = Some (EncodePodSingleDevice [sel])"
    and name: "mget annos' AssignedNodeAnnotations = Some n"
    using Filter_gpu_assignment [OF assms(1,5-10) _ assms(12,13,11)] assms(3) unfolding plain_devices_def
    by (metis concat.simps append_Nil2)
  have dec: "DecodePodDevices SupportDevices annos' = [(NvidiaGPUDevice, [map forget_idx sel, []])]"
    using stored DecodePodDevices_single_encoded [OF _ enc] by (simp add: SupportDevices_def device_names)
  have rec: "stored_record ?q = Some (n, map forget_idx sel)"
    using assms(4) name dec by (simp add: stored_record_def IsPodInTerminatedState_def all_devices_def forget_idx_def comp_def)
  have "map_option counted (mget (sc_pods s') v) = (if v = pod_UID p then stored_record ?q else map_option counted (mget (sc_pods s) v))" for v
    by (simp add: pods rec addPod_def delPod_mdel counted_def make_pod_info_def all_devices_def)
  then show ?thesis using agrees_update [OF assms(2), of ?q "pod_UID p" s'] nodes by simp
qed

lemma Filter_unplaced:
  assumes "Filter env p nodeNames s = Inr (s', annos', res)" and "\<forall>r. res = Inr r \<longrightarrow> flt_NodeNames r = None"
    and "filter_total (Resourcereqs (fe_cfg env) (fe_devs env) p) \<noteq> 0"
  shows "sc_nodes s' = sc_nodes s \<and> sc_pods s' = delPod p (sc_pods s) \<and> annos' = pod_Annotations p"
  using assms(1,3)
proof (rule Filter_cases, goal_cases)
  case (1 s1 usage failed scores usage')
  then show ?thesis using assms(2) by (cases res) (auto split: if_splits sum.splits)
qed

lemma cluster_step_inv: "cluster_step x y \<Longrightarrow> cluster_inv x \<Longrightarrow> cluster_inv y"
proof (induction rule: cluster_step.induct)
  case (cluster_create store p s)
  have inv: "sched_inv s" "agrees s store" "plain_devices s" using cluster_create.prems by (auto simp: cluster_inv_def)
  have same: "onAddPod SupportDevices p s = s" using cluster_create.hyps(2) by (simp add: onAddPod_def)
  have "stored_record p = None" "map_option counted (mget (sc_pods s) (pod_UID p)) = None"
    using cluster_create.hyps agreesD(2) [OF inv(2), of "pod_UID p"] by (simp_all add: stored_record_def)
  then have "agrees s (mset_to store (pod_UID p) p)" by (intro agrees_update [OF inv(2)]) auto
  then show ?case using inv same by (simp add: cluster_inv_def)
next
  case (cluster_place store p env s idx k nodeNames s' annos' r ns)
  have inv: "sched_inv s" "agrees s store" "plain_devices s" using cluster_place.prems by (auto simp: cluster_inv_def)
  note placed = cluster_place_agrees [OF inv cluster_place.hyps(2-11)]
  show ?case
    using placed Filter_sched_inv [OF inv(1) cluster_place.hyps(3,4,10)] plain_devices_cong [OF inv(3), of s'] by (simp add: cluster_inv_def)
next
  case (cluster_refuse store p env nodeNames s s' annos' res)
  have inv: "sched_inv s" "agrees s store" "plain_devices s" using cluster_refuse.prems by (auto simp: cluster_inv_def)
  note un = Filter_unplaced [OF cluster_refuse.hyps(4,5,3)]
  have "mget (sc_pods s) (pod_UID p) = None"
    using agreesD(2) [OF inv(2), of "pod_UID p"] cluster_refuse.hyps(1,2) by (simp add: stored_record_def)
  then have "sc_pods s' = sc_pods s" using un by (simp add: delPod_def)
  then show ?case
    using inv un sched_inv_cong [of s' s] agrees_cong [OF inv(2), of s'] plain_devices_cong [OF inv(3), of s'] by (simp add: cluster_inv_def)
next
  case (cluster_annotate store p annos s)
  have inv: "sched_inv s" "agrees s store" "plain_devices s" using cluster_annotate.prems by (auto simp: cluster_inv_def)
  let ?q = "p\<lparr>pod_Annotations := annos\<rparr>"
  have dec: "DecodePodDevices SupportDevices annos = DecodePodDevices SupportDevices (pod_Annotations p)"
    using cluster_annotate.hyps(2) by (intro DecodePodDevices_cong) simp
  have rec: "stored_record ?q = stored_record p"
    using cluster_annotate.hyps(2) dec
    by (cases "mget (pod_Annotations p) AssignedNodeAnnotations") (simp_all add: stored_record_def IsPodInTerminatedState_def)
  have "map_option counted (mget (sc_pods s) (pod_UID p)) = stored_record ?q"
    using agreesD(2) [OF inv(2), of "pod_UID p"] cluster_annotate.hyps(1) rec by simp
  then have "agrees (onAddPod SupportDevices ?q s) (mset_to store (pod_UID p) ?q)"
    using onAddPod_stored [of s ?q] by (intro agrees_update [OF inv(2)]) auto
  moreover have "fits_in SupportDevices ?q s"
    using agrees_fits_in [OF inv(2) cluster_annotate.hyps(1)] cluster_annotate.hyps(2) dec
    by (cases "mget (pod_Annotations p) AssignedNodeAnnotations") (auto simp: fits_in_def IsPodInTerminatedState_def)
  ultimately show ?case
    using inv onAddPod_sched_inv [OF inv(1)] plain_devices_cong [OF inv(3)] by (simp add: cluster_inv_def onUpdatePod_def)
next
  case (cluster_finish store p phase s)
  have inv: "sched_inv s" "agrees s store" "plain_devices s" using cluster_finish.prems by (auto simp: cluster_inv_def)
  let ?q = "p\<lparr>pod_Phase := phase\<rparr>"
  have fin: "IsPodInTerminatedState ?q" using cluster_finish.hyps(2) by (auto simp: IsPodInTerminatedState_def)
  have "mget (pod_Annotations p) AssignedNodeAnnotations = None \<longrightarrow> mget (sc_pods s) (pod_UID p) = None"
    using agreesD(2) [OF inv(2), of "pod_UID p"] cluster_finish.hyps(1) by (auto simp: stored_record_def split: option.splits)
  then have "agrees (onAddPod SupportDevices ?q s) (mset_to store (pod_UID p) ?q)"
    using onAddPod_stored [of s ?q] fin
    by (intro agrees_update [OF inv(2)]) (auto simp: stored_record_def split: option.splits)
  moreover have "fits_in SupportDevices ?q s" using fin by (simp add: fits_in_def)
  ultimately show ?case
    using inv onAddPod_sched_inv [OF inv(1)] plain_devices_cong [OF inv(3)] by (simp add: cluster_inv_def onUpdatePod_def)
next
  case (cluster_delete store p s)
  have inv: "sched_inv s" "agrees s store" "plain_devices s" using cluster_delete.prems by (auto simp: cluster_inv_def)
  have "store_ok (mdel store (pod_UID p))" using agreesD(1) [OF inv(2)] by (simp add: store_ok_def)
  moreover have "map_option counted (mget (sc_pods (onDelPod p s)) u) = Option.bind (mget (mdel store (pod_UID p)) u) stored_record" for u
    using agreesD(2) [OF inv(2), of u] cluster_delete.hyps
    by (auto simp: onDelPod_def delPod_mdel stored_record_def split: option.splits)
  ultimately have "agrees (onDelPod p s) (mdel store (pod_UID p))" by (simp add: agrees_def)
  moreover have "sc_nodes (onDelPod p s) = sc_nodes s" by (simp add: onDelPod_def split: option.splits)
  ultimately show ?case
    using inv onDelPod_sched_inv [OF inv(1)] plain_devices_cong [OF inv(3)] by (simp add: cluster_inv_def)
next
  case (cluster_deliver store p s old)
  have inv: "sched_inv s" "agrees s store" "plain_devices s" using cluster_deliver.prems by (auto simp: cluster_inv_def)
  have rec: "map_option counted (mget (sc_pods s) (pod_UID p)) = stored_record p"
    using agreesD(2) [OF inv(2), of "pod_UID p"] cluster_deliver.hyps by simp
  have "agrees (onAddPod SupportDevices p s) store"
    using onAddPod_stored [of s p] rec agreesD [OF inv(2)] cluster_deliver.hyps by (auto simp: agrees_def)
  then show ?case
    using inv onAddPod_sched_inv [OF inv(1) agrees_fits_in [OF inv(2) cluster_deliver.hyps]] plain_devices_cong [OF inv(3)]
    by (simp add: cluster_inv_def onUpdatePod_def)
next
  case (cluster_recompute s store nodes)
  then show ?case
    using sched_inv_cong [of "fst (getNodesUsage nodes s)" s] by (simp add: cluster_inv_def agrees_def plain_devices_def)
qed

lemma cluster_run_inv: "cluster_step\<^sup>*\<^sup>* x y \<Longrightarrow> cluster_inv x \<Longrightarrow> cluster_inv y"
  by (induction rule: rtranclp_induct) (auto intro: cluster_step_inv)

text \<open>C11: a restart loses nothing that scheduling depends on.  Take any run from an empty cluster in which pods with
  one container that requests GPUs are created, placed by \<open>Filter\<close> (also again), annotated by others, finished and
  deleted, with their events delivered, and in which \<open>Filter\<close> never turns down a pod that it had placed before.  When
  then a fresh scheduler that knows the same devices reads the stored pods, in any order, every node gets exactly
  the usage that the old scheduler counted.  Device ids must be free of the codec's separators.\<close>
theorem restart_recovers_usage:
  assumes "nodes_wf (sc_nodes s0)" and "sc_pods s0 = []"
    and "\<forall>k ds d. registered (sc_nodes s0) k = Some ds \<longrightarrow> d \<in> set ds \<longrightarrow> device_ok d \<and> plain_name (di_ID d)"
    and "cluster_step\<^sup>*\<^sup>* (s0, []) (s, store)" and "mset store' = mset store"
    and "sc_pods fresh = []" and "\<forall>n. registered (sc_nodes fresh) n = registered (sc_nodes s) n"
  shows "node_usage (replay store' fresh) n = node_usage s n"
proof -
  have "sched_inv s0"
    using assms(1-3) by (auto simp: sched_inv_def capacity_ok_def device_ok_def intro: room_for_Nil)
  moreover have "agrees s0 []" using assms(2) by (simp add: agrees_def store_ok_def)
  moreover have "plain_devices s0" using assms(3) by (simp add: plain_devices_def)
  ultimately have "cluster_inv (s, store)" using cluster_run_inv [OF assms(4)] by (simp add: cluster_inv_def)
  then have "agrees s store" "map_ok (sc_pods s)" by (auto simp: cluster_inv_def sched_inv_def)
  then show ?thesis using restart_usage assms(5-7) by blast
qed

lemma example_devices_plain:
  "\<forall>k ds d. registered (sc_nodes example_start) k = Some ds \<longrightarrow> d \<in> set ds \<longrightarrow> device_ok d \<and> plain_name (di_ID d)"
  using example_devices_ok by (auto simp: example_start_def example_registered plain_name_def example_info_def)

lemma example_env_facts:
  "fe_inreq example_env = InRequestDevices" "fe_support example_env = SupportDevices" "merges (fe_patch example_env)"
  "\<not> IsPodInTerminatedState example_gpu_pod" "mget (pod_Annotations example_gpu_pod) AssignedNodeAnnotations = None"
  using merges_patch_always
  by (simp_all add: example_env_def IsPodInTerminatedState_def example_gpu_pod_def example_pod_def annotation_names)

theorem restart_recovers_usage_witness:
  "\<exists>s annos. cluster_step\<^sup>*\<^sup>* (example_start, []) (s, [(pod_UID example_gpu_pod, example_gpu_pod\<lparr>pod_Annotations := annos\<rparr>)])
     \<and> sc_pods s \<noteq> []
     \<and> node_usage (replay [(pod_UID example_gpu_pod, example_gpu_pod\<lparr>pod_Annotations := annos\<rparr>)] example_start) ''node1''
         = node_usage s ''node1''"
proof -
  let ?p = example_gpu_pod and ?u = "pod_UID example_gpu_pod"
  obtain s annos r n where f: "Filter example_env ?p [''node1'', ''node2''] example_start = Inr (s, annos, Inr r)"
    and n: "flt_NodeNames r = Some [n]"
    using example_Filter by blast
  have create: "cluster_step (example_start, []) (example_start, [(?u, ?p)])"
    using cluster_create [of "[]" ?p example_start] example_env_facts(5) by (simp add: onAddPod_def mset_to_new)
  have "mget [(?u, ?p)] ?u = Some ?p" by simp
  from cluster_place [OF this example_env_facts(4) example_env_ok example_hyps(1,3) example_env_facts(1-3) example_total f n]
  have place: "cluster_step (example_start, [(?u, ?p)]) (s, [(?u, ?p\<lparr>pod_Annotations := annos\<rparr>)])" by (simp add: mset_to_def)
  have "cluster_step\<^sup>*\<^sup>* (example_start, []) (example_start, [(?u, ?p)])" using create by (rule r_into_rtranclp)
  also note place
  finally have run: "cluster_step\<^sup>*\<^sup>* (example_start, []) (s, [(?u, ?p\<lparr>pod_Annotations := annos\<rparr>)])" .
  obtain m :: node_score where "sc_pods s = addPod ?p (ns_nodeID m) (ns_devices m) (delPod ?p (sc_pods example_start))"
    and same: "sc_nodes s = sc_nodes example_start"
    by (rule Filter_success_cases [OF example_start_inv example_env_ok example_hyps(1) example_total f n]) (rule that; assumption)
  then have "sc_pods s \<noteq> []" by (simp add: addPod_def example_start_pods delPod_def mset_to_new)
  moreover have "node_usage (replay [(?u, ?p\<lparr>pod_Annotations := annos\<rparr>)] example_start) ''node1'' = node_usage s ''node1''"
    using restart_recovers_usage [OF example_start_wf example_start_pods example_devices_plain run refl example_start_pods] same by simp
  ultimately show ?thesis using run by blast
qed

section \<open>A pod that is filtered again in vain\<close>

text \<open>C37: a record that \<open>Filter\<close> drops comes back without a look at the devices.  When a pod that was placed is
  filtered again and no node is accepted, its record is dropped while its annotations stay; after another
  pod has been given the devices, within their capacity, the next update event of the first pod records the old
  assignment again, and a device has more users than it can serve.\<close>
theorem dropped_record_overcommits:
  fixes p q :: pod
  assumes "sched_inv s" and "filter_total (Resourcereqs (fe_cfg env) (fe_devs env) p) \<noteq> 0"
    and "Filter env p nodeNames s = Inr (s1, annos1, Inr r1)" and "flt_NodeNames r1 = None"
    and "env_ok env'" and "single_type_requests env' q s1 rs" and "Filter env' q nodeNames' s1 = Inr (s2, annos2, res2)"
    and "pod_UID q \<noteq> pod_UID p"
    and "mget (pod_Annotations p) AssignedNodeAnnotations = Some n" and "\<not> IsPodInTerminatedState p"
    and "registered (sc_nodes s) n = Some ds" and "d \<in> set ds"
    and "di_Count d < int (length (uses_of (di_ID d) (pods_on (sc_pods s2) n)))
       + int (length (uses_of (di_ID d) (all_devices (DecodePodDevices support (pod_Annotations p)))))"
  shows "annos1 = pod_Annotations p \<and> int (length (uses_of (di_ID d) (pods_on (sc_pods s2) n))) \<le> di_Count d
     \<and> di_Count d < int (length (uses_of (di_ID d) (pods_on (sc_pods (onUpdatePod support old p s2)) n)))"
proof -
  have s1: "sc_nodes s1 = sc_nodes s" "sc_pods s1 = delPod p (sc_pods s)" "annos1 = pod_Annotations p"
    using Filter_unplaced [OF assms(3) _ assms(2)] assms(4) by auto
  have inv1: "sched_inv s1"
    using sched_inv_delPod [OF assms(1), of p] sched_inv_cong [of s1 "s\<lparr>sc_pods := delPod p (sc_pods s)\<rparr>"] s1 by simp
  have inv2: "sched_inv s2" by (rule Filter_sched_inv [OF inv1 assms(5-7)])
  have s2: "sc_nodes s2 = sc_nodes s1 \<and> mget (sc_pods s2) (pod_UID p) = None"
  proof (cases "filter_total (Resourcereqs (fe_cfg env') (fe_devs env') q) = 0")
    case True
    then show ?thesis using assms(7) s1 by (simp add: Filter_def Let_def delPod_mdel)
  next
    case False
    have gone: "mget (sc_pods s1) (pod_UID p) = None" by (simp add: s1 delPod_mdel)
    from assms(7) False show ?thesis
      by (rule Filter_cases) (use gone assms(8) in \<open>auto simp: addPod_def delPod_mdel split: if_splits sum.splits option.splits\<close>)
  qed
  have "room_for (pods_on (sc_pods s2) n) (new_usage d)"
    using inv2 s1(1) s2 assms(11,12) by (auto simp: sched_inv_def capacity_ok_def)
  then have "int (length (uses_of (di_ID d) (pods_on (sc_pods s2) n))) \<le> di_Count d" by (simp add: room_for_def new_usage_def)
  moreover have "pods_on (sc_pods (onUpdatePod support old p s2)) n =
      pods_on (sc_pods s2) n @ all_devices (DecodePodDevices support (pod_Annotations p))"
    using s2 assms(9,10) by (simp add: onUpdatePod_def onAddPod_def addPod_def mset_to_new make_pod_info_def)
  ultimately show ?thesis using s1(3) assms(13) by (simp add: uses_of_def)
qed

lemma Filter_no_candidates:
  assumes "filter_total (Resourcereqs (fe_cfg env) (fe_devs env) p) \<noteq> 0" and "fe_itr env [] = []"
  shows "\<exists>s'. Filter env p [] s = Inr (s', pod_Annotations p, Inr \<lparr>flt_NodeNames = None, flt_FailedNodes = [], flt_Error = []\<rparr>)"
  using assms by (simp add: Filter_def Let_def getNodesUsage_def)

text \<open>One pod is placed on a card with one share, then filtered in vain, and another pod takes the card.\<close>

lemma example_share_placed:
  "\<exists>s0 annos r. Filter example_env example_gpu_pod [''node1''] example_share = Inr (s0, annos, Inr r)
     \<and> sched_inv s0 \<and> sc_nodes s0 = sc_nodes example_share \<and> map fst (sc_pods s0) = [pod_UID example_gpu_pod]
     \<and> mget annos AssignedNodeAnnotations = Some ''node1''
     \<and> length (uses_of ''GPU-1'' (all_devices (DecodePodDevices SupportDevices annos))) = 1"
proof -
  let ?p = example_gpu_pod
  obtain s1 m where plan: "filter_plan example_env ?p [''node1''] example_share = Inr (s1, Planned m)"
    and m: "ns_nodeID m = ''node1''" "map cd_UUID (all_devices (ns_devices m)) = [''GPU-1'']"
    using example_share_plan by auto
  obtain a where patch: "fe_patch example_env (pod_Annotations ?p) (filter_annotations example_env m) = Inr a"
    using example_share_facts(2) by blast
  obtain s0 annos r where f: "Filter example_env ?p [''node1''] example_share = Inr (s0, annos, Inr r)"
    and names: "flt_NodeNames r = Some [''node1'']" and pods: "sc_pods s0 = addPod ?p ''node1'' (ns_devices m) (sc_pods s1)"
    using plan patch m(1) by (auto simp: Filter_phases filter_commit_def Let_def)
  have plain: "\<forall>n ds d. registered (sc_nodes example_share) n = Some ds \<longrightarrow> d \<in> set ds \<longrightarrow> plain_name (di_ID d)"
    by (auto simp: example_share_registered plain_name_def example_info_def)
  have req: "single_type_requests example_env ?p example_share [(''NVIDIA'', snd (hd example_rs))]"
    using example_share_requests by (simp add: example_rs_def)
  obtain n sel where gpu: "[''node1''] = [n]" "sc_nodes s0 = sc_nodes example_share"
    "sc_pods s0 = addPod ?p n [(NvidiaGPUDevice, [sel])] (delPod ?p (sc_pods example_share))"
    "list_all container_device_ok (concat [sel])"
    "mget annos ''hami.sh/vgpu-devices-allocated'' = Some (EncodePodSingleDevice [sel])" "mget annos AssignedNodeAnnotations = Some n"
    using Filter_gpu_assignment [OF example_share_inv example_env_ok req example_hyps(3) example_env_facts(1-3) plain f names example_total]
    by (metis concat.simps append_Nil2)
  have empty: "delPod ?p (sc_pods example_share) = []" "sc_pods s1 = []"
    using filter_plan_state [OF plan] by (auto simp: example_share_def NewScheduler_def init_pods_def delPod_def)
  have "ns_devices m = [(NvidiaGPUDevice, [sel])]"
    using pods gpu(1,3) empty by (simp add: addPod_def mset_to_new make_pod_info_def)
  then have "map cd_UUID sel = [''GPU-1'']" using m(2) by (simp add: all_devices_def)
  moreover have "DecodePodDevices SupportDevices annos = [(NvidiaGPUDevice, [map forget_idx sel, []])]"
    using gpu(5) DecodePodDevices_single_encoded [OF _ gpu(4)] by (simp add: SupportDevices_def device_names)
  ultimately have "length (uses_of ''GPU-1'' (all_devices (DecodePodDevices SupportDevices annos))) = 1"
    by (auto simp: all_devices_def uses_of_def forget_idx_def)
  moreover have "sched_inv s0" by (rule Filter_sched_inv [OF example_share_inv example_env_ok req f])
  moreover have "map fst (sc_pods s0) = [pod_UID ?p]" using gpu(3) empty by (simp add: addPod_def mset_to_new)
  ultimately show ?thesis using f gpu(1,2,6) by (intro exI [of _ s0] exI [of _ annos] exI [of _ r]) simp
qed

theorem dropped_record_overcommits_witness:
  "\<exists>p s0 s1 r1 s2 annos2 res2 d. Filter example_env p [] s0 = Inr (s1, pod_Annotations p, Inr r1) \<and> flt_NodeNames r1 = None
     \<and> Filter example_env (example_gpu_pod\<lparr>pod_UID := ''other''\<rparr>) [''node1''] s1 = Inr (s2, annos2, res2)
     \<and> registered (sc_nodes s2) ''node1'' = Some [d] \<and> di_Count d = 1
     \<and> 1 < length (uses_of (di_ID d) (pods_on (sc_pods (onUpdatePod SupportDevices p p s2)) ''node1''))"
proof -
  let ?q = "example_gpu_pod\<lparr>pod_UID := ''other''\<rparr>" and ?d = "(example_info ''GPU-1'')\<lparr>di_Count := 1\<rparr>"
  obtain s0 annos r where f0: "Filter example_env example_gpu_pod [''node1''] example_share = Inr (s0, annos, Inr r)"
    and inv: "sched_inv s0" and nodes: "sc_nodes s0 = sc_nodes example_share" and keys: "map fst (sc_pods s0) = [pod_UID example_gpu_pod]"
    and node: "mget annos AssignedNodeAnnotations = Some ''node1''"
    and one: "length (uses_of ''GPU-1'' (all_devices (DecodePodDevices SupportDevices annos))) = 1"
    using example_share_placed by (elim exE conjE) (rule that)
  define p where "p = example_gpu_pod\<lparr>pod_Annotations := annos\<rparr>"
  have total: "filter_total (Resourcereqs (fe_cfg example_env) (fe_devs example_env) p) \<noteq> 0"
    using example_total by (simp add: p_def Resourcereqs_def)
  obtain s1 r1 where f1: "Filter example_env p [] s0 = Inr (s1, pod_Annotations p, Inr r1)" and r1: "flt_NodeNames r1 = None"
    using Filter_no_candidates [OF total, of s0] by (auto simp: example_env_def)
  have s1: "sc_nodes s1 = sc_nodes example_share" "sc_pods s1 = sc_pods example_share"
  proof -
    have "sc_pods s1 = delPod p (sc_pods s0)" "sc_nodes s1 = sc_nodes s0" using Filter_unplaced [OF f1 _ total] r1 by auto
    moreover have "delPod p (sc_pods s0) = []"
    proof -
      obtain i where "sc_pods s0 = [(pod_UID example_gpu_pod, i)]" using keys by (cases "sc_pods s0") auto
      then show ?thesis by (simp add: delPod_mdel p_def mdel_def)
    qed
    ultimately show "sc_nodes s1 = sc_nodes example_share" "sc_pods s1 = sc_pods example_share"
      using nodes by (simp_all add: example_share_def NewScheduler_def init_pods_def)
  qed
  have twin: "pod_Containers ?q = pod_Containers example_gpu_pod" "pod_Annotations ?q = pod_Annotations example_gpu_pod"
    by simp_all
  obtain m sm where m: "filter_plan example_env example_gpu_pod [''node1''] example_share = Inr (sm, Planned m)" "ns_nodeID m = ''node1''"
    "map cd_UUID (all_devices (ns_devices m)) = [''GPU-1'']"
    using example_share_plan by auto
  obtain s1' where plan: "filter_plan example_env ?q [''node1''] s1 = Inr (s1', Planned m)"
    using filter_plan_cong [OF s1 twin example_share_facts(1,1) m(1)] by blast
  have empty: "sc_pods s1' = []"
    using filter_plan_state [OF plan] s1 by (auto simp: example_share_def NewScheduler_def init_pods_def delPod_def)
  obtain s2 annos2 res2 where f2: "Filter example_env ?q [''node1''] s1 = Inr (s2, annos2, res2)"
    and s2: "sc_pods s2 = addPod ?q ''node1'' (ns_devices m) []"
    using plan m(2) example_share_facts(2) [of "pod_Annotations ?q" "filter_annotations example_env m"] empty
    by (auto simp: Filter_phases filter_commit_def Let_def)
  have req: "single_type_requests example_env ?q s1 example_rs"
    using example_share_requests by (simp add: single_type_requests_def s1 Resourcereqs_def)
  have "pods_on (sc_pods s2) ''node1'' = all_devices (ns_devices m)" by (simp add: s2 addPod_def mset_to_new make_pod_info_def)
  then have taken: "length (uses_of ''GPU-1'' (pods_on (sc_pods s2) ''node1'')) = 1"
    using m(3) by (auto simp: uses_of_def)
  have uid: "pod_UID ?q \<noteq> pod_UID p" by (simp add: p_def example_gpu_pod_def example_pod_def)
  have old: "mget (pod_Annotations p) AssignedNodeAnnotations = Some ''node1''" "\<not> IsPodInTerminatedState p"
    using node example_env_facts(4) by (simp_all add: p_def IsPodInTerminatedState_def)
  have reg: "registered (sc_nodes s0) ''node1'' = Some [?d]" "?d \<in> set [?d]" by (simp_all add: nodes example_share_registered)
  have full: "di_Count ?d < int (length (uses_of (di_ID ?d) (pods_on (sc_pods s2) ''node1'')))
      + int (length (uses_of (di_ID ?d) (all_devices (DecodePodDevices SupportDevices (pod_Annotations p)))))"
    using taken one by (simp add: p_def example_info_def)
  have "sc_nodes s2 = sc_nodes s1" using f2 plan by (auto simp: Filter_phases filter_commit_def Let_def filter_plan_state(1) split: sum.splits)
  then have "registered (sc_nodes s2) ''node1'' = Some [?d]" using s1(1) by (simp add: example_share_registered)
  moreover have "1 < length (uses_of (di_ID ?d) (pods_on (sc_pods (onUpdatePod SupportDevices p p s2)) ''node1''))"
    using dropped_record_overcommits [OF inv total f1 r1 example_env_ok req f2 uid old reg full, of p] by simp
  ultimately show ?thesis
    using f1 r1 f2 by (intro exI [of _ p] exI [of _ s0] exI [of _ s1] exI [of _ r1] exI [of _ s2] exI [of _ annos2] exI [of _ res2] exI [of _ ?d]) simp
qed

end
