(* ===== verification/Cdi.thy ===== *)
theory Cdi
  imports Go_Strings
begin

text \<open>
  The CDI handler of the NVIDIA plugin process (\<open>nvinternal/cdi\<close>): its options, how it is made, and the
  specification files it writes.  The toolkit's \<open>nvcdi\<close> library, the CDI library and NVML are arguments, gathered in a
  record; libraries and specifications are values of type variables.  The world keeps what can be
  observed: how often NVML is initialised, and the files that were saved.
\<close>

section \<open>Handler and options\<close>

record 'lib cdi_handler =
  ch_driverRoot :: string
  ch_targetDriverRoot :: string
  ch_nvidiaCTKPath :: string
  ch_vendor :: string
  ch_deviceIDStrategy :: string
  ch_enabled :: bool
  ch_gdsEnabled :: bool
  ch_mofedEnabled :: bool
  ch_cdilibs :: "(string, 'lib) gomap"

definition blank_handler :: "'lib cdi_handler" where
  "blank_handler = \<lparr>ch_driverRoot = [], ch_targetDriverRoot = [], ch_nvidiaCTKPath = [], ch_vendor = [], ch_deviceIDStrategy = [],
     ch_enabled = False, ch_gdsEnabled = False, ch_mofedEnabled = False, ch_cdilibs = []\<rparr>"

type_synonym 'lib cdi_option = "'lib cdi_handler \<Rightarrow> 'lib cdi_handler"

definition WithEnabled :: "bool \<Rightarrow> 'lib cdi_option" where
  "WithEnabled enabled c = c\<lparr>ch_enabled := enabled\<rparr>"

definition WithDriverRoot :: "string \<Rightarrow> 'lib cdi_option" where
  "WithDriverRoot root c = c\<lparr>ch_driverRoot := root\<rparr>"

definition WithTargetDriverRoot :: "string \<Rightarrow> 'lib cdi_option" where
  "WithTargetDriverRoot root c = c\<lparr>ch_targetDriverRoot := root\<rparr>"

definition WithNvidiaCTKPath :: "string \<Rightarrow> 'lib cdi_option" where
  "WithNvidiaCTKPath path c = c\<lparr>ch_nvidiaCTKPath := path\<rparr>"

definition WithDeviceIDStrategy :: "string \<Rightarrow> 'lib cdi_option" where
  "WithDeviceIDStrategy strategy c = c\<lparr>ch_deviceIDStrategy := strategy\<rparr>"

definition WithVendor :: "string \<Rightarrow> 'lib cdi_option" where
  "WithVendor vendor c = c\<lparr>ch_vendor := vendor\<rparr>"

definition WithGdsEnabled :: "bool \<Rightarrow> 'lib cdi_option" where
  "WithGdsEnabled enabled c = c\<lparr>ch_gdsEnabled := enabled\<rparr>"

definition WithMofedEnabled :: "bool \<Rightarrow> 'lib cdi_option" where
  "WithMofedEnabled enabled c = c\<lparr>ch_mofedEnabled := enabled\<rparr>"

section \<open>The libraries\<close>

text \<open>The options of \<open>nvcdi.New\<close> that the program sets; \<open>None\<close> where it leaves the option out.\<close>

record lib_options =
  lo_NVIDIACTKPath :: string
  lo_DriverRoot :: string
  lo_Vendor :: string
  lo_DeviceNamer :: "string option"
  lo_Class :: "string option"
  lo_Mode :: "string option"

record ('lib, 'spec) cdi_libs =
  cl_NewDeviceNamer :: "string \<Rightarrow> unit result"
  cl_New :: "lib_options \<Rightarrow> 'lib result"
  cl_Init :: "unit result"
  cl_GetSpec :: "'lib \<Rightarrow> 'spec result"
  cl_Transform :: "string \<Rightarrow> string \<Rightarrow> 'spec \<Rightarrow> 'spec result"
  cl_GenerateName :: "'spec \<Rightarrow> string result"
  cl_Save :: "string \<Rightarrow> 'spec \<Rightarrow> unit result"

datatype 'lib cdi_interface = NullHandler | CdiHandler "'lib cdi_handler"

section \<open>Making a handler\<close>

definition handler_defaults :: "'lib cdi_handler \<Rightarrow> 'lib cdi_handler" where
  "handler_defaults c =
     (let c1 = (if ch_deviceIDStrategy c = [] then c\<lparr>ch_deviceIDStrategy := ''uuid''\<rparr> else c);
          c2 = (if ch_driverRoot c1 = [] then c1\<lparr>ch_driverRoot := ''/''\<rparr> else c1)
      in if ch_targetDriverRoot c2 = [] then c2\<lparr>ch_targetDriverRoot := ch_driverRoot c2\<rparr> else c2)"

definition gpu_options :: "'lib cdi_handler \<Rightarrow> lib_options" where
  "gpu_options c = \<lparr>lo_NVIDIACTKPath = ch_nvidiaCTKPath c, lo_DriverRoot = ch_driverRoot c, lo_Vendor = ch_vendor c,
     lo_DeviceNamer = Some (ch_deviceIDStrategy c), lo_Class = Some ''gpu'', lo_Mode = None\<rparr>"

definition mode_options :: "'lib cdi_handler \<Rightarrow> string \<Rightarrow> lib_options" where
  "mode_options c mode = \<lparr>lo_NVIDIACTKPath = ch_nvidiaCTKPath c, lo_DriverRoot = ch_driverRoot c, lo_Vendor = ch_vendor c,
     lo_DeviceNamer = None, lo_Class = None, lo_Mode = Some mode\<rparr>"

definition additionalModes :: "'lib cdi_handler \<Rightarrow> string list" where
  "additionalModes c = (if ch_gdsEnabled c then [''gds''] else []) @ (if ch_mofedEnabled c then [''mofed''] else [])"

definition new_lib :: "('lib, 'spec) cdi_libs \<Rightarrow> lib_options \<Rightarrow> 'lib result" where
  "new_lib L options = wrap_error ''failed to create nvcdi library'' (cl_New L options)"

fun add_modes :: "('lib, 'spec) cdi_libs \<Rightarrow> string list \<Rightarrow> 'lib cdi_handler \<Rightarrow> 'lib cdi_handler result" where
  "add_modes L [] c = Inr c"
| "add_modes L (mode # modes) c =
     bind_result (new_lib L (mode_options c mode)) (\<lambda>lib. add_modes L modes (c\<lparr>ch_cdilibs := mset_to (ch_cdilibs c) mode lib\<rparr>))"

definition newHandler :: "('lib, 'spec) cdi_libs \<Rightarrow> 'lib cdi_option list \<Rightarrow> 'lib cdi_interface result" where
  "newHandler L opts =
     (let c0 = fold (\<lambda>opt c. opt c) opts blank_handler
      in if \<not> ch_enabled c0 then Inr NullHandler
         else let c = handler_defaults c0
              in bind_result (cl_NewDeviceNamer L (ch_deviceIDStrategy c)) (\<lambda>_.
                 bind_result (new_lib L (gpu_options c)) (\<lambda>gpu.
                 bind_result (add_modes L (additionalModes c) (c\<lparr>ch_cdilibs := [(''gpu'', gpu)]\<rparr>)) (\<lambda>c'.
                   Inr (CdiHandler c')))))"

definition cdi_New :: "bool \<Rightarrow> ('lib, 'spec) cdi_libs \<Rightarrow> 'lib cdi_option list \<Rightarrow> 'lib cdi_interface result" where
  "cdi_New hasNVML L opts = (if \<not> hasNVML then Inr NullHandler else newHandler L opts)"

section \<open>The specification files\<close>

text \<open>\<open>filepath.Join\<close> below a rooted path: empty and dot elements are dropped, a double dot takes back an element.\<close>

definition clean_element :: "string \<Rightarrow> string list \<Rightarrow> string list" where
  "clean_element e path = (if e = [] \<or> e = ''.'' then path else if e = ''..'' then butlast path else path @ [e])"

definition Join_rooted :: "string \<Rightarrow> string \<Rightarrow> string" where
  "Join_rooted root name = CHR ''/'' # Join (fold clean_element (Split CHR ''/'' root @ Split CHR ''/'' name) []) ''/''"

definition cdiRoot :: string where
  "cdiRoot = ''/var/run/cdi''"

record 'spec cdi_world =
  cw_nvml :: int
  cw_saved :: "(string \<times> 'spec) list"

text \<open>The specification of one library and the file it goes to.\<close>

definition spec_of :: "('lib, 'spec) cdi_libs \<Rightarrow> 'lib cdi_handler \<Rightarrow> 'lib \<Rightarrow> (string \<times> 'spec) result" where
  "spec_of L cdi cdilib =
     bind_result (wrap_error ''failed to get CDI spec'' (cl_GetSpec L cdilib)) (\<lambda>spec.
     bind_result (wrap_error ''failed to transform driver root in CDI spec''
         (cl_Transform L (ch_driverRoot cdi) (ch_targetDriverRoot cdi) spec)) (\<lambda>raw.
     bind_result (wrap_error ''failed to generate spec name'' (cl_GenerateName L raw)) (\<lambda>specName. Inr (Join_rooted cdiRoot (specName @ ''.json''), raw))))"

text \<open>
  The loop over the libraries, in the order of the map.  \<open>deferred\<close> counts the calls of \<open>Shutdown\<close> that wait for
  the function to return.
\<close>

fun create_specs :: "('lib, 'spec) cdi_libs \<Rightarrow> 'lib cdi_handler \<Rightarrow> (string \<times> 'lib) list \<Rightarrow> int \<Rightarrow> 'spec cdi_world \<Rightarrow>
    unit result \<times> int \<times> 'spec cdi_world" where
  "create_specs L cdi [] deferred w = (Inr (), deferred, w)"
| "create_specs L cdi ((cls, cdilib) # libs) deferred w =
     (if cls = ''gpu'' \<and> isl (cl_Init L) then (Inl (Errorf ''failed to initialize NVML''), deferred, w)
      else
        let (deferred', w1) = (if cls = ''gpu'' then (deferred + 1, w\<lparr>cw_nvml := cw_nvml w + 1\<rparr>) else (deferred, w))
        in case spec_of L cdi cdilib of
             Inl e \<Rightarrow> (Inl e, deferred', w1)
           | Inr (path, raw) \<Rightarrow>
               (case wrap_error ''failed to save CDI spec'' (cl_Save L path raw) of
                  Inl e \<Rightarrow> (Inl e, deferred', w1)
                | Inr _ \<Rightarrow> create_specs L cdi libs deferred' (w1\<lparr>cw_saved := cw_saved w1 @ [(path, raw)]\<rparr>)))"

text \<open>\<open>walk\<close> is the order in which Go walks the map, which may differ from run to run.\<close>

type_synonym 'lib map_walk = "(string, 'lib) gomap \<Rightarrow> (string, 'lib) gomap"

definition walks :: "'lib map_walk \<Rightarrow> bool" where
  "walks walk \<longleftrightarrow> (\<forall>m. set (walk m) = set m \<and> length (walk m) = length m)"

definition CreateSpecFile ::
  "('lib, 'spec) cdi_libs \<Rightarrow> 'lib map_walk \<Rightarrow> 'lib cdi_interface \<Rightarrow> 'spec cdi_world \<Rightarrow> unit result \<times> 'spec cdi_world" where
  "CreateSpecFile L walk h w =
     (case h of
        NullHandler \<Rightarrow> (Inr (), w)
      | CdiHandler cdi \<Rightarrow>
          (case create_specs L cdi (walk (ch_cdilibs cdi)) 0 w of
             (r, deferred, w') \<Rightarrow> (r, w'\<lparr>cw_nvml := cw_nvml w' - deferred\<rparr>)))"

text \<open>\<open>qualified\<close> is the CDI library's \<open>QualifiedName\<close>.\<close>

definition QualifiedName :: "(string \<Rightarrow> string \<Rightarrow> string \<Rightarrow> string) \<Rightarrow> 'lib cdi_interface \<Rightarrow> string \<Rightarrow> string \<Rightarrow> string" where
  "QualifiedName qualified h cls idn = (case h of NullHandler \<Rightarrow> [] | CdiHandler cdi \<Rightarrow> qualified (ch_vendor cdi) cls idn)"

section \<open>What is written\<close>

text \<open>The kinds of specification a handler was asked for.\<close>

definition cdi_classes :: "'lib cdi_handler \<Rightarrow> string set" where
  "cdi_classes c = {''gpu''} \<union> (if ch_gdsEnabled c then {''gds''} else {}) \<union> (if ch_mofedEnabled c then {''mofed''} else {})"

definition class_options :: "'lib cdi_handler \<Rightarrow> string \<Rightarrow> lib_options" where
  "class_options c cls = (if cls = ''gpu'' then gpu_options c else mode_options c cls)"

text \<open>The file of a class, as the options of the handler determine it.\<close>

definition class_file :: "('lib, 'spec) cdi_libs \<Rightarrow> 'lib cdi_handler \<Rightarrow> string \<Rightarrow> (string \<times> 'spec) result" where
  "class_file L c cls = bind_result (cl_New L (class_options c cls)) (spec_of L c)"

lemma options_libs [simp]:
  "gpu_options (c\<lparr>ch_cdilibs := m\<rparr>) = gpu_options c" "mode_options (c\<lparr>ch_cdilibs := m\<rparr>) = mode_options c"
  "additionalModes (c\<lparr>ch_cdilibs := m\<rparr>) = additionalModes c" "spec_of L (c\<lparr>ch_cdilibs := m\<rparr>) = spec_of L c"
  "cdi_classes (c\<lparr>ch_cdilibs := m\<rparr>) = cdi_classes c" "class_options (c\<lparr>ch_cdilibs := m\<rparr>) = class_options c"
  by (simp_all add: gpu_options_def mode_options_def additionalModes_def spec_of_def cdi_classes_def class_options_def fun_eq_iff)

lemma fst_image_iff: "x \<in> fst ` S \<longleftrightarrow> (\<exists>y. (x, y) \<in> S)"
  by force

lemma new_lib_Inr: "new_lib L options = Inr lib \<longleftrightarrow> cl_New L options = Inr lib"
  by (auto simp: new_lib_def split: sum.splits)

lemma add_modes_Inr:
  "add_modes L modes c = Inr c' \<Longrightarrow> ''gpu'' \<notin> set modes \<Longrightarrow>
     c' = c\<lparr>ch_cdilibs := ch_cdilibs c'\<rparr>
   \<and> (\<forall>m. mget (ch_cdilibs c') m =
        (if m \<in> set modes then (case cl_New L (mode_options c m) of Inl _ \<Rightarrow> None | Inr lib \<Rightarrow> Some lib) else mget (ch_cdilibs c) m))
   \<and> (\<forall>m\<in>set modes. \<not> isl (cl_New L (mode_options c m)))
   \<and> (map_ok (ch_cdilibs c) \<longrightarrow> map_ok (ch_cdilibs c'))"
proof (induction modes arbitrary: c)
  case (Cons mode modes)
  then obtain lib where lib: "cl_New L (mode_options c mode) = Inr lib"
    and rest: "add_modes L modes (c\<lparr>ch_cdilibs := mset_to (ch_cdilibs c) mode lib\<rparr>) = Inr c'"
    by (auto simp: bind_result_Inr_iff new_lib_Inr)
  show ?case using Cons.IH [OF rest] Cons.prems(2) lib by (auto simp: map_ok_mset_to)
qed simp

lemma newHandler_libs:
  assumes "newHandler L opts = Inr (CdiHandler c)"
  shows "map_ok (ch_cdilibs c)" and "(cls, lib) \<in> set (ch_cdilibs c) \<longleftrightarrow> cls \<in> cdi_classes c \<and> cl_New L (class_options c cls) = Inr lib"
    and "cls \<in> cdi_classes c \<Longrightarrow> \<exists>lib. cl_New L (class_options c cls) = Inr lib"
proof -
  obtain c1 gpu where gpu: "cl_New L (gpu_options c1) = Inr gpu"
    and modes: "add_modes L (additionalModes c1) (c1\<lparr>ch_cdilibs := [(''gpu'', gpu)]\<rparr>) = Inr c"
    using assms by (auto simp: newHandler_def Let_def bind_result_Inr_iff new_lib_Inr split: if_splits)
  have no_gpu: "''gpu'' \<notin> set (additionalModes c1)" by (simp add: additionalModes_def)
  note made = add_modes_Inr [OF modes no_gpu, simplified]
  have same: "c = c1\<lparr>ch_cdilibs := ch_cdilibs c\<rparr>" using made by simp
  have opts: "class_options c = class_options c1" "cdi_classes c = cdi_classes c1" by (subst same, simp)+
  have cls: "cdi_classes c1 = insert ''gpu'' (set (additionalModes c1))" by (auto simp: cdi_classes_def additionalModes_def)
  show ok: "map_ok (ch_cdilibs c)" using made by simp
  have "(cls, lib) \<in> set (ch_cdilibs c) \<longleftrightarrow> mget (ch_cdilibs c) cls = Some lib"
    using ok by (simp add: mget_def map_ok_def)
  also have "\<dots> \<longleftrightarrow> cls \<in> cdi_classes c \<and> cl_New L (class_options c cls) = Inr lib"
    unfolding opts cls using made gpu no_gpu by (auto simp: class_options_def split: sum.splits)
  finally show "(cls, lib) \<in> set (ch_cdilibs c) \<longleftrightarrow> cls \<in> cdi_classes c \<and> cl_New L (class_options c cls) = Inr lib" .
  show "\<exists>lib. cl_New L (class_options c cls) = Inr lib" if "cls \<in> cdi_classes c"
    using that made gpu unfolding opts cls
    by (cases "cl_New L (class_options c1 cls)") (auto simp: class_options_def isl_def split: if_splits)
qed

lemma create_specs_effect:
  assumes "create_specs L cdi libs n w = (r, n', w')"
  shows "cw_nvml w' - n' = cw_nvml w - n"
    and "r = Inr () \<longleftrightarrow> (\<forall>(cls, lib)\<in>set libs. (cls = ''gpu'' \<longrightarrow> \<not> isl (cl_Init L))
            \<and> (\<exists>path raw. spec_of L cdi lib = Inr (path, raw) \<and> \<not> isl (cl_Save L path raw)))"
    and "r = Inr () \<Longrightarrow> \<exists>new. cw_saved w' = cw_saved w @ new \<and> Inr ` set new = spec_of L cdi ` snd ` set libs"
proof -
  have "cw_nvml w' - n' = cw_nvml w - n
    \<and> (r = Inr () \<longleftrightarrow> (\<forall>(cls, lib)\<in>set libs. (cls = ''gpu'' \<longrightarrow> \<not> isl (cl_Init L))
            \<and> (\<exists>path raw. spec_of L cdi lib = Inr (path, raw) \<and> \<not> isl (cl_Save L path raw))))
    \<and> (r = Inr () \<longrightarrow> (\<exists>new. cw_saved w' = cw_saved w @ new \<and> Inr ` set new = spec_of L cdi ` snd ` set libs))"
    using assms
  proof (induction libs arbitrary: n w)
    case (Cons cl libs)
    obtain cls lib where cl: "cl = (cls, lib)" by fastforce
    define n1 where "n1 = (if cls = ''gpu'' then n + 1 else n)"
    define w1 where "w1 = (if cls = ''gpu'' then w\<lparr>cw_nvml := cw_nvml w + 1\<rparr> else w)"
    have eq: "cw_nvml w1 - n1 = cw_nvml w - n" "cw_saved w1 = cw_saved w" by (simp_all add: n1_def w1_def)
    consider (noinit) "cls = ''gpu''" "isl (cl_Init L)"
      | (nospec) e where "\<not> (cls = ''gpu'' \<and> isl (cl_Init L))" "spec_of L cdi lib = Inl e"
      | (nosave) path raw e where "\<not> (cls = ''gpu'' \<and> isl (cl_Init L))" "spec_of L cdi lib = Inr (path, raw)" "cl_Save L path raw = Inl e"
      | (saved) path raw u where "\<not> (cls = ''gpu'' \<and> isl (cl_Init L))" "spec_of L cdi lib = Inr (path, raw)" "cl_Save L path raw = Inr u"
      by (metis old.sum.exhaust surj_pair)
    then show ?case
    proof cases
      case noinit
      then show ?thesis using Cons.prems cl by auto
    next
      case nospec
      then have "r = Inl e" "n' = n1" "w' = w1" using Cons.prems cl by (auto simp: n1_def w1_def split: if_splits)
      then show ?thesis using nospec cl eq by auto
    next
      case nosave
      then have "isl r" "n' = n1" "w' = w1" using Cons.prems cl by (auto simp: n1_def w1_def split: if_splits)
      then show ?thesis using nosave cl eq by auto
    next
      case saved
      then have "create_specs L cdi libs n1 (w1\<lparr>cw_saved := cw_saved w1 @ [(path, raw)]\<rparr>) = (r, n', w')"
        using Cons.prems cl by (auto simp: n1_def w1_def split: if_splits)
      note IH = Cons.IH [OF this]
      have "\<exists>new. cw_saved w' = cw_saved w @ new \<and> Inr ` set new = spec_of L cdi ` snd ` set (cl # libs)" if r: "r = Inr ()"
      proof -
        obtain new where "cw_saved w' = cw_saved w1 @ [(path, raw)] @ new" "Inr ` set new = spec_of L cdi ` snd ` set libs"
          using IH [THEN conjunct2, THEN conjunct2] r by auto
        then show ?thesis using eq saved(2) cl by (intro exI [of _ "(path, raw) # new"]) auto
      qed
      then show ?thesis using IH eq saved cl by auto
    qed
  qed auto
  then show "cw_nvml w' - n' = cw_nvml w - n"
    and "r = Inr () \<longleftrightarrow> (\<forall>(cls, lib)\<in>set libs. (cls = ''gpu'' \<longrightarrow> \<not> isl (cl_Init L))
            \<and> (\<exists>path raw. spec_of L cdi lib = Inr (path, raw) \<and> \<not> isl (cl_Save L path raw)))"
    and "r = Inr () \<Longrightarrow> \<exists>new. cw_saved w' = cw_saved w @ new \<and> Inr ` set new = spec_of L cdi ` snd ` set libs"
    by auto
qed

text \<open>
  A handler made from options writes, in whatever order the map of its libraries is walked, one specification for
  every class it was asked for (GPUs always, GDS and MOFED when they are enabled); it succeeds exactly
  when NVML can be initialised and every one of these specifications can be generated and saved, and
  whatever happens it shuts NVML down as often as it initialised it.
\<close>

lemma CreateSpecFile_complete:
  assumes "newHandler L opts = Inr (CdiHandler c)" and "walks walk" and "CreateSpecFile L walk (CdiHandler c) w = (r, w')"
  shows "cw_nvml w' = cw_nvml w"
    and "r = Inr () \<longleftrightarrow> \<not> isl (cl_Init L)
          \<and> (\<forall>cls\<in>cdi_classes c. \<exists>path raw. class_file L c cls = Inr (path, raw) \<and> \<not> isl (cl_Save L path raw))"
    and "r = Inr () \<Longrightarrow> \<exists>new. cw_saved w' = cw_saved w @ new \<and> Inr ` set new = class_file L c ` cdi_classes c"
proof -
  let ?order = "walk (ch_cdilibs c)"
  obtain n' w1 where cs: "create_specs L c ?order 0 w = (r, n', w1)" and w': "w' = w1\<lparr>cw_nvml := cw_nvml w1 - n'\<rparr>"
    using assms(3) by (auto simp: CreateSpecFile_def split: prod.splits)
  have order: "set ?order = set (ch_cdilibs c)" using assms(2) by (simp add: walks_def)
  note eff = create_specs_effect [OF cs] and libs = newHandler_libs [OF assms(1)]
  have gen: "class_file L c cls = spec_of L c lib" if "(cls, lib) \<in> set ?order" for cls lib
    using that libs(2) order by (simp add: class_file_def)
  have dom: "fst ` set ?order = cdi_classes c"
    unfolding set_eq_iff fst_image_iff order libs(2) using libs(3) by blast
  have gpu: "''gpu'' \<in> cdi_classes c" by (simp add: cdi_classes_def)
  have ok: "r = Inr () \<longleftrightarrow> (\<forall>cls\<in>cdi_classes c. (cls = ''gpu'' \<longrightarrow> \<not> isl (cl_Init L))
      \<and> (\<exists>path raw. class_file L c cls = Inr (path, raw) \<and> \<not> isl (cl_Save L path raw)))"
    unfolding eff(2) dom [symmetric] using gen by fastforce
  have "spec_of L c ` snd ` set ?order = class_file L c ` cdi_classes c"
    unfolding dom [symmetric] image_image using gen by (intro image_cong) auto
  then show "r = Inr () \<Longrightarrow> \<exists>new. cw_saved w' = cw_saved w @ new \<and> Inr ` set new = class_file L c ` cdi_classes c"
    using eff(3) w' by auto
  show "cw_nvml w' = cw_nvml w" using eff(1) w' by simp
  show "r = Inr () \<longleftrightarrow> \<not> isl (cl_Init L)
      \<and> (\<forall>cls\<in>cdi_classes c. \<exists>path raw. class_file L c cls = Inr (path, raw) \<and> \<not> isl (cl_Save L path raw))"
    using ok gpu by blast
qed

end
