(* ===== verification/Rm_Alloc.thy ===== *)
theory Rm_Alloc
  imports Rm_Devices
begin

text \<open>
  Allocation among replicas and health checks of the NVIDIA device plugin
  (\<open>rm/allocate.go\<close>, \<open>rm/health.go\<close>).  \<open>sort.Slice\<close> is an
  argument that may use any sorting algorithm; what NVML answers is a record of results.
\<close>

section \<open>Distributed allocation\<close>

type_synonym replica_table = "(string, int \<times> int) gomap"

text \<open>Total and available replicas per card, for the cards that have a candidate.\<close>

definition count_available :: "string list \<Rightarrow> replica_table" where
  "count_available candidates =
     fold (\<lambda>c reps. case mget_default (0, 0) reps (AnnotatedID_GetID c) of
             (tot, avail) \<Rightarrow> mset_to reps (AnnotatedID_GetID c) (tot, avail + 1)) candidates []"

definition count_total :: "rm_devices \<Rightarrow> replica_table \<Rightarrow> replica_table" where
  "count_total devices reps =
     fold (\<lambda>(d, _) reps.
             case mget reps (AnnotatedID_GetID d) of
               None \<Rightarrow> reps
             | Some (tot, avail) \<Rightarrow> mset_to reps (AnnotatedID_GetID d) (tot + 1, avail)) devices reps"

text \<open>How many replicas of a candidate's card are taken.\<close>

definition replica_diff :: "replica_table \<Rightarrow> string \<Rightarrow> int" where
  "replica_diff reps c = (case mget_default (0, 0) reps (AnnotatedID_GetID c) of (tot, avail) \<Rightarrow> tot - avail)"

definition take_replica :: "string \<Rightarrow> replica_table \<Rightarrow> replica_table" where
  "take_replica c reps =
     (case mget_default (0, 0) reps (AnnotatedID_GetID c) of
        (tot, avail) \<Rightarrow> mset_to reps (AnnotatedID_GetID c) (tot, avail - 1))"

type_synonym slice_sort = "(string \<Rightarrow> string \<Rightarrow> bool) \<Rightarrow> string list \<Rightarrow> string list"

primrec alloc_loop ::
  "slice_sort \<Rightarrow> nat \<Rightarrow> string list \<Rightarrow> replica_table \<Rightarrow> string list \<Rightarrow> (string list \<times> string list) result" where
  "alloc_loop srt 0 candidates reps devices = Inr (devices, candidates)"
| "alloc_loop srt (Suc n) candidates reps devices =
     (case srt (\<lambda>a b. replica_diff reps a < replica_diff reps b) candidates of
        [] \<Rightarrow> Inl (GoPanic ''index out of range'')
      | c # rest \<Rightarrow> alloc_loop srt n rest (take_replica c reps) (devices @ [c]))"

definition alloc_candidates :: "rm_devices \<Rightarrow> string list \<Rightarrow> string list \<Rightarrow> string list" where
  "alloc_candidates devices available required =
     Devices_GetIDs (Difference (Subset devices available) (Subset devices required))"

definition distributedAlloc ::
  "slice_sort \<Rightarrow> rm_devices \<Rightarrow> string list \<Rightarrow> string list \<Rightarrow> int \<Rightarrow> string list result" where
  "distributedAlloc srt devices available required sz =
     (let candidates = alloc_candidates devices available required;
          needed = sz - int (length required)
      in if int (length candidates) < needed
         then Inl (Errorf ''not enough available devices to satisfy allocation'')
         else bind_result (alloc_loop srt (nat needed) candidates (count_total devices (count_available candidates)) [])
                (\<lambda>(chosen, _). Inr (required @ chosen)))"

text \<open>The aligned policy is a library; its answer is an argument.\<close>

definition getPreferredAllocation ::
  "slice_sort \<Rightarrow> (string list \<Rightarrow> string list \<Rightarrow> int \<Rightarrow> string list result) \<Rightarrow> rm_devices \<Rightarrow>
   string list \<Rightarrow> string list \<Rightarrow> int \<Rightarrow> string list result" where
  "getPreferredAllocation srt alignedAlloc devices available required sz =
     (if AlignedAllocationSupported devices \<and> \<not> AnyHasAnnotations available
      then alignedAlloc available required sz
      else distributedAlloc srt devices available required sz)"

section \<open>Health checks\<close>

definition getAdditionalXids :: "string \<Rightarrow> nat list" where
  "getAdditionalXids input =
     (if input = [] then []
      else concat (map (\<lambda>x. let trimmed = TrimSpace x
                            in if trimmed = [] then []
                               else case ParseUint 64 trimmed of (xid, ok) \<Rightarrow> if ok then [xid] else [])
                    (Split CHR '','' input)))"

definition parseMigDeviceUUID :: "string \<Rightarrow> (string \<times> int \<times> int) result" where
  "parseMigDeviceUUID mig =
     (let err = Inl (Errorf ''Unable to parse UUID as MIG device'')
      in case cut ''-'' mig of
           None \<Rightarrow> err
         | Some (t0, t1) \<Rightarrow>
             if t0 \<noteq> ''MIG'' then err
             else
               (case cut ''/'' t1 of
                  None \<Rightarrow> err
                | Some (gpu, r) \<Rightarrow>
                    (case cut ''/'' r of
                       None \<Rightarrow> err
                     | Some (a, b) \<Rightarrow>
                         if \<not> HasPrefix gpu ''GPU-'' then err
                         else if \<not> snd (Atoi a) then err
                         else if \<not> snd (Atoi b) then err
                         else Inr (gpu, fst (Atoi a), fst (Atoi b)))))"

record mig_handle =
  mh_parent :: "string result"
  mh_gi :: "int result"
  mh_ci :: "int result"

definition getMigDeviceParts :: "mig_handle option \<Rightarrow> rm_device \<Rightarrow> (string \<times> int \<times> int) result" where
  "getMigDeviceParts handle d =
     (if \<not> IsMigDevice d then Inl (Errorf ''cannot get GI and CI of full device'')
      else
        case handle of
          None \<Rightarrow> parseMigDeviceUUID (Device_GetUUID d)
        | Some h \<Rightarrow>
            bind_result (mh_parent h) (\<lambda>parent.
            bind_result (mh_gi h) (\<lambda>gi.
            bind_result (mh_ci h) (\<lambda>ci. Inr (parent, gi, ci)))))"

definition getDevicePlacement :: "mig_handle option \<Rightarrow> rm_device \<Rightarrow> (string \<times> int \<times> int) result" where
  "getDevicePlacement handle d =
     (if \<not> IsMigDevice d then Inr (Device_GetUUID d, 0xFFFFFFFF, 0xFFFFFFFF) else getMigDeviceParts handle d)"

text \<open>What NVML answers about one device while the health check is set up.\<close>

record health_query =
  hq_handle :: "mig_handle option"
  hq_gpu :: bool
  hq_supported :: bool
  hq_register :: bool

record health_maps =
  hm_parent :: "(string, rm_device) gomap"
  hm_gi :: "(string, int) gomap"
  hm_ci :: "(string, int) gomap"

definition setup_device ::
  "(rm_device \<Rightarrow> health_query) \<Rightarrow> rm_device \<Rightarrow> health_maps \<times> string list \<Rightarrow> health_maps \<times> string list" where
  "setup_device q d st =
     (case st of (maps, unhealthy) \<Rightarrow>
      case getDevicePlacement (hq_handle (q d)) d of
        Inl _ \<Rightarrow> (maps, unhealthy @ [rd_ID d])
      | Inr (uuid, gi, ci) \<Rightarrow>
          (\<lparr>hm_parent = mset_to (hm_parent maps) uuid d, hm_gi = mset_to (hm_gi maps) (rd_ID d) gi,
            hm_ci = mset_to (hm_ci maps) (rd_ID d) ci\<rparr>,
           if \<not> hq_gpu (q d) \<or> \<not> hq_supported (q d) \<or> \<not> hq_register (q d) then unhealthy @ [rd_ID d] else unhealthy))"

definition setup_devices :: "(rm_device \<Rightarrow> health_query) \<Rightarrow> rm_devices \<Rightarrow> health_maps \<times> string list" where
  "setup_devices q devices =
     fold (\<lambda>(_, d). setup_device q d) devices (\<lparr>hm_parent = [], hm_gi = [], hm_ci = []\<rparr>, [])"

record nvml_event =
  ev_xid :: bool
  ev_data :: nat
  ev_uuid :: "string result"
  ev_gi :: nat
  ev_ci :: nat

datatype wait_result = WaitTimeout | WaitError | WaitEvent nvml_event

definition skipped_xids :: "string \<Rightarrow> nat list" where
  "skipped_xids disable = [13, 31, 43, 45, 68] @ getAdditionalXids disable"

text \<open>One turn of the loop: the ids sent to the \<open>unhealthy\<close> channel.\<close>

definition health_step :: "nat list \<Rightarrow> health_maps \<Rightarrow> rm_devices \<Rightarrow> wait_result \<Rightarrow> string list" where
  "health_step skipped maps devices w =
     (case w of
        WaitTimeout \<Rightarrow> []
      | WaitError \<Rightarrow> map (\<lambda>(_, d). rd_ID d) devices
      | WaitEvent e \<Rightarrow>
          if \<not> ev_xid e then []
          else if ev_data e \<in> set skipped then []
          else
            (case ev_uuid e of
               Inl _ \<Rightarrow> map (\<lambda>(_, d). rd_ID d) devices
             | Inr uuid \<Rightarrow>
                 (case mget (hm_parent maps) uuid of
                    None \<Rightarrow> []
                  | Some d \<Rightarrow>
                      if IsMigDevice d \<and> ev_gi e \<noteq> 0xFFFFFFFF \<and> ev_ci e \<noteq> 0xFFFFFFFF
                         \<and> \<not> (mget_default 0 (hm_gi maps) (rd_ID d) mod 2 ^ 32 = int (ev_gi e)
                              \<and> mget_default 0 (hm_ci maps) (rd_ID d) mod 2 ^ 32 = int (ev_ci e))
                      then [] else [rd_ID d])))"

text \<open>
  \<open>checkHealth\<close> over the events received until it is stopped: disabled by the environment variable,
  or the marks of the setup followed by those of every turn.
\<close>

definition checkHealth ::
  "string \<Rightarrow> unit result \<Rightarrow> bool \<Rightarrow> unit result \<Rightarrow> (rm_device \<Rightarrow> health_query) \<Rightarrow> rm_devices \<Rightarrow> wait_result list \<Rightarrow>
   string list result" where
  "checkHealth envvar init FailOnInitError eventSet q devices events =
     (let disable = (if ToLower envvar = ''all'' then ''xids'' else ToLower envvar)
      in if Contains disable ''xids'' then Inr []
         else
           case init of
             Inl e \<Rightarrow> if FailOnInitError then Inl (Errorf ''failed to initialize NVML'') else Inr []
           | Inr _ \<Rightarrow>
               bind_result eventSet (\<lambda>_.
                 case setup_devices q devices of
                   (maps, unhealthy) \<Rightarrow>
                     Inr (unhealthy @ concat (map (health_step (skipped_xids disable) maps devices) events))))"

section \<open>Properties of the allocation\<close>

lemma replica_diff_take:
  "replica_diff (take_replica c reps) d =
     replica_diff reps d + (if AnnotatedID_GetID d = AnnotatedID_GetID c then 1 else 0)"
  by (auto simp: replica_diff_def take_replica_def split: prod.splits)

text \<open>The load of a candidate's card after some replicas were taken.\<close>

definition load_after :: "replica_table \<Rightarrow> string list \<Rightarrow> string \<Rightarrow> int" where
  "load_after reps taken c =
     replica_diff reps c + int (length (filter (\<lambda>d. AnnotatedID_GetID d = AnnotatedID_GetID c) taken))"

lemma load_after_Cons: "load_after reps (c # taken) d = load_after (take_replica c reps) taken d"
  by (simp add: load_after_def replica_diff_take)

lemma load_after_mono: "replica_diff reps d \<le> load_after reps taken d"
  by (simp add: load_after_def)

text \<open>A picked replica is at most one ahead of every candidate that was left.\<close>

lemma alloc_loop_spec:
  assumes "\<And>lt. strict_weak_order lt \<Longrightarrow> sorts_by lt (srt lt)"
  shows "n \<le> length candidates \<Longrightarrow>
     \<exists>chosen rest. alloc_loop srt n candidates reps devices = Inr (devices @ chosen, rest)
       \<and> mset candidates = mset chosen + mset rest \<and> length chosen = n
       \<and> (\<forall>c\<in>set chosen. \<forall>r\<in>set rest. load_after reps chosen c - 1 \<le> load_after reps chosen r)"
proof (induction n arbitrary: candidates reps devices)
  case 0
  then show ?case by simp
next
  case (Suc n)
  let ?lt = "\<lambda>a b. replica_diff reps a < replica_diff reps b"
  have swo: "strict_weak_order ?lt" by unfold_locales auto
  note srt = assms [OF swo]
  have len: "length (srt ?lt candidates) = length candidates" and perm: "mset (srt ?lt candidates) = mset candidates"
    using srt by (simp_all add: sorts_by_length sorts_by_mset)
  then obtain c rest where c: "srt ?lt candidates = c # rest"
    using Suc.prems by (cases "srt ?lt candidates") auto
  then have "n \<le> length rest" using len Suc.prems by simp
  from Suc.IH [OF this, of "take_replica c reps" "devices @ [c]"]
  obtain chosen rest' where IH: "alloc_loop srt n rest (take_replica c reps) (devices @ [c]) = Inr (devices @ [c] @ chosen, rest')"
    "mset rest = mset chosen + mset rest'" "length chosen = n"
    "\<forall>d\<in>set chosen. \<forall>r\<in>set rest'. load_after (take_replica c reps) chosen d - 1 \<le> load_after (take_replica c reps) chosen r"
    by auto
  have least: "replica_diff reps c \<le> replica_diff reps r" if "r \<in> set rest" for r
    using sorts_by_sorted [OF srt, of candidates] c that by auto
  have sub: "set rest' \<subseteq> set rest" "set chosen \<subseteq> set rest"
    using IH(2) by (metis set_mset_mset set_mset_union Un_upper2) (metis IH(2) set_mset_mset set_mset_union Un_upper1)
  have "load_after reps (c # chosen) d - 1 \<le> load_after reps (c # chosen) r"
    if d: "d \<in> set (c # chosen)" and r: "r \<in> set rest'" for d r
  proof (cases "\<exists>e\<in>set chosen. AnnotatedID_GetID e = AnnotatedID_GetID d")
    case True
    then obtain e where e: "e \<in> set chosen" "AnnotatedID_GetID e = AnnotatedID_GetID d" by blast
    then have "load_after rp chosen d = load_after rp chosen e" for rp
      by (simp add: load_after_def replica_diff_def)
    then show ?thesis using IH(4) e r by (simp add: load_after_Cons)
  next
    case False
    then have "d = c" using d by auto
    moreover have "filter (\<lambda>x. AnnotatedID_GetID x = AnnotatedID_GetID d) chosen = []"
      using False by (simp add: filter_empty_conv)
    ultimately have "load_after reps (c # chosen) d = replica_diff reps c + 1"
      by (simp add: load_after_def)
    then show ?thesis
      using least [of r] r sub load_after_mono [of reps r "c # chosen"] by auto
  qed
  then show ?case
    using IH c perm by (intro exI [of _ "c # chosen"] exI [of _ rest']) (auto simp: perm [symmetric])
qed

lemma set_alloc_candidates:
  assumes "devices_wf devices"
  shows "distinct (alloc_candidates devices available required)
     \<and> set (alloc_candidates devices available required) = (set available \<inter> fst ` set devices) - set required"
proof -
  let ?sub = "Subset devices available"
  have get: "mget devices u = Some d \<Longrightarrow> rd_ID d = u" for u d
    using assms mget_SomeD [of devices u d] by (auto simp: devices_wf_def)
  have key: "rd_ID d = u" if "(u, d) \<in> set ?sub" for u d
    using that mget_Some_iff [OF map_ok_Subset, of devices available u d] get by (auto simp: mget_Subset split: if_splits)
  then have ids: "alloc_candidates devices available required = map fst (Difference ?sub (Subset devices required))"
    by (auto simp: alloc_candidates_def Devices_GetIDs_def Difference_def)
  have "distinct (map fst ?sub)" using map_ok_Subset by (simp add: map_ok_def)
  then have "distinct (alloc_candidates devices available required)"
    unfolding ids Difference_def by (simp add: distinct_map_filter)
  moreover have "u \<in> set (alloc_candidates devices available required) \<longleftrightarrow>
      u \<in> (set available \<inter> fst ` set devices) - set required" for u
  proof -
    have "u \<in> fst ` set ?sub \<longleftrightarrow> mget ?sub u \<noteq> None" and "u \<in> fst ` set devices \<longleftrightarrow> mget devices u \<noteq> None"
      by (simp_all add: mget_None_iff)
    then show ?thesis
      unfolding ids by (force simp: Difference_def Devices_Contains_def mget_Subset image_iff split: if_splits)
  qed
  ultimately show ?thesis by blast
qed

text \<open>C22: the distributed allocation gives what it promises, with any sorting algorithm: if enough available
  devices are left, the answer is the required devices followed by exactly as many different further
  ones as are needed, all of them available and none of them required; and the cards are loaded
  evenly: no card that received a replica ends up more than one replica ahead of a card that still
  had one to give.\<close>
theorem distributedAlloc_balanced:
  assumes "\<And>lt. strict_weak_order lt \<Longrightarrow> sorts_by lt (srt lt)" and "devices_wf devices"
    and "cands = alloc_candidates devices available required"
    and "int (length required) \<le> sz" and "sz - int (length required) \<le> int (length cands)"
  shows "\<exists>chosen. distributedAlloc srt devices available required sz = Inr (required @ chosen)
     \<and> int (length (required @ chosen)) = sz \<and> distinct chosen
     \<and> set chosen \<subseteq> (set available \<inter> fst ` set devices) - set required
     \<and> (\<forall>c\<in>set chosen. \<forall>r\<in>set cands - set chosen.
          load_after (count_total devices (count_available cands)) chosen c - 1
            \<le> load_after (count_total devices (count_available cands)) chosen r)"
proof -
  let ?n = "nat (sz - int (length required))" and ?reps = "count_total devices (count_available cands)"
  have "?n \<le> length cands" using assms(5) by linarith
  from alloc_loop_spec [OF assms(1) this, of ?reps "[]"]
  obtain chosen rest where l: "alloc_loop srt ?n cands ?reps [] = Inr (chosen, rest)"
    and perm: "mset cands = mset chosen + mset rest" and len: "length chosen = ?n"
    and bal: "\<forall>c\<in>set chosen. \<forall>r\<in>set rest. load_after ?reps chosen c - 1 \<le> load_after ?reps chosen r"
    by auto
  note cs = set_alloc_candidates [OF assms(2), of available required, folded assms(3)]
  have "mset cands = mset (chosen @ rest)" using perm by simp
  then have "distinct (chosen @ rest)" and set_eq: "set cands = set (chosen @ rest)"
    using cs by (metis mset_eq_imp_distinct_iff, metis mset_eq_setD)
  then have "set cands - set chosen \<subseteq> set rest" "distinct chosen" "set chosen \<subseteq> set cands" by auto
  moreover have "distributedAlloc srt devices available required sz = Inr (required @ chosen)"
    using l assms(5) by (simp add: distributedAlloc_def Let_def assms(3) [symmetric])
  moreover have "int (length (required @ chosen)) = sz" using len assms(4) by simp
  ultimately show ?thesis using bal cs by (intro exI [of _ chosen]) auto
qed

definition example_replicas :: rm_devices where
  "example_replicas = map (\<lambda>u. (u, example_rm_device u)) [''A::0'', ''A::1'', ''B::0'']"

theorem distributedAlloc_balanced_witness:
  "\<exists>chosen. distributedAlloc insertionSort example_replicas [''A::0'', ''A::1'', ''B::0''] [''A::0''] 2 = Inr ([''A::0''] @ chosen)
     \<and> length chosen = 1"
proof -
  have srt: "strict_weak_order lt \<Longrightarrow> sorts_by lt (insertionSort lt)" for lt :: "string \<Rightarrow> string \<Rightarrow> bool"
    by (rule strict_weak_order.sorts_by_insertionSort)
  have wf: "devices_wf example_replicas"
    by (simp add: devices_wf_def example_replicas_def example_rm_device_def)
  have "alloc_candidates example_replicas [''A::0'', ''A::1'', ''B::0''] [''A::0''] = [''A::1'', ''B::0'']"
    by (simp add: alloc_candidates_def Subset_def example_replicas_def Difference_def Devices_Contains_def Devices_GetIDs_def
        example_rm_device_def)
  from distributedAlloc_balanced [OF srt wf this [symmetric], of 2] show ?thesis by auto
qed

section \<open>Properties of the health check\<close>

lemma setup_device_cases:
  "setup_device q d (maps, un) = (maps', un') \<Longrightarrow>
     (un' = un \<or> un' = un @ [rd_ID d]) \<and> (maps' = maps \<or> (\<exists>u. hm_parent maps' = mset_to (hm_parent maps) u d))
     \<and> ((\<exists>x. getDevicePlacement (hq_handle (q d)) d = Inr x) \<and> hq_gpu (q d) \<and> hq_supported (q d) \<and> hq_register (q d) \<longrightarrow> un' = un)"
  by (auto simp: setup_device_def split: sum.splits if_splits)

text \<open>All devices the maps and the marks speak about are devices of the plugin.\<close>

lemma setup_known:
  assumes "fold (\<lambda>(_, d). setup_device q d) ds st = (maps', un')"
    and "set (snd st) \<subseteq> I" and "\<forall>u d. mget (hm_parent (fst st)) u = Some d \<longrightarrow> rd_ID d \<in> I" and "(rd_ID \<circ> snd) ` set ds \<subseteq> I"
  shows "set un' \<subseteq> I \<and> (\<forall>u d. mget (hm_parent maps') u = Some d \<longrightarrow> rd_ID d \<in> I)"
  using assms
proof (induction ds arbitrary: st)
  case (Cons p ds)
  obtain k d where p: "p = (k, d)" by (cases p)
  obtain maps un where st: "st = (maps, un)" by (cases st)
  obtain maps1 un1 where s1: "setup_device q d (maps, un) = (maps1, un1)" by fastforce
  note c = setup_device_cases [OF s1]
  show ?case
  proof (rule Cons.IH [of "(maps1, un1)"])
    show "fold (\<lambda>(_, d). setup_device q d) ds (maps1, un1) = (maps', un')"
      using Cons.prems(1) s1 p st by simp
    show "set (snd (maps1, un1)) \<subseteq> I" using Cons.prems c p st by auto
    show "\<forall>u d. mget (hm_parent (fst (maps1, un1))) u = Some d \<longrightarrow> rd_ID d \<in> I"
      using Cons.prems c p st by (auto split: if_splits)
    show "(rd_ID \<circ> snd) ` set ds \<subseteq> I" using Cons.prems(4) by simp
  qed
qed simp

lemma setup_quiet:
  assumes "\<forall>(_, d)\<in>set ds. (\<exists>x. getDevicePlacement (hq_handle (q d)) d = Inr x) \<and> hq_gpu (q d) \<and> hq_supported (q d) \<and> hq_register (q d)"
  shows "snd (fold (\<lambda>(_, d). setup_device q d) ds st) = snd st"
  using assms
proof (induction ds arbitrary: st)
  case (Cons p ds)
  obtain k d where p: "p = (k, d)" by (cases p)
  obtain maps un where st: "st = (maps, un)" by (cases st)
  obtain maps1 un1 where s1: "setup_device q d (maps, un) = (maps1, un1)" by fastforce
  then have "un1 = un" using setup_device_cases [OF s1] Cons.prems p by auto
  then show ?case using Cons s1 p st by simp
qed simp

definition harmless :: "wait_result \<Rightarrow> bool" where
  "harmless w = (case w of WaitTimeout \<Rightarrow> True | WaitError \<Rightarrow> False
     | WaitEvent e \<Rightarrow> \<not> ev_xid e \<or> ev_data e \<in> {13, 31, 43, 45, 68})"

lemma health_step_known:
  assumes "\<forall>u d. mget (hm_parent maps) u = Some d \<longrightarrow> rd_ID d \<in> (rd_ID \<circ> snd) ` set devices"
  shows "set (health_step skipped maps devices w) \<subseteq> (rd_ID \<circ> snd) ` set devices"
proof -
  have all: "set (map (\<lambda>(_, d). rd_ID d) devices) = (rd_ID \<circ> snd) ` set devices"
    by (simp add: case_prod_unfold comp_def)
  show ?thesis
  proof (cases w)
    case (WaitEvent e)
    have "set (health_step skipped maps devices (WaitEvent e)) \<subseteq> (rd_ID \<circ> snd) ` set devices"
    proof (cases "ev_uuid e")
      case (Inl err)
      then show ?thesis using all by (simp add: health_step_def del: set_map)
    next
      case (Inr u)
      then show ?thesis using assms by (cases "mget (hm_parent maps) u") (simp_all add: health_step_def)
    qed
    then show ?thesis by (simp only: WaitEvent)
  qed (use all in \<open>simp_all add: health_step_def del: set_map\<close>)
qed

lemma health_step_harmless: "harmless w \<Longrightarrow> health_step (skipped_xids disable) maps devices w = []"
  by (auto simp: harmless_def health_step_def skipped_xids_def split: wait_result.splits)

text \<open>C23: the health check condemns only devices of the plugin, and only for a reason: whatever events NVML
  delivers, every condemned id is the id of a managed device; and if NVML answers all queries during
  the setup and delivers only time-outs, non-critical events and application errors (Xid 13, 31, 43,
  45, 68), no device is condemned.\<close>
theorem checkHealth_sound:
  assumes "checkHealth envvar init FailOnInitError eventSet q devices events = Inr marks"
  shows "set marks \<subseteq> (rd_ID \<circ> snd) ` set devices
     \<and> ((\<forall>(_, d)\<in>set devices. (\<exists>x. getDevicePlacement (hq_handle (q d)) d = Inr x)
           \<and> hq_gpu (q d) \<and> hq_supported (q d) \<and> hq_register (q d))
        \<longrightarrow> list_all harmless events \<longrightarrow> marks = [])"
proof (cases "marks = []")
  case False
  let ?dis = "if ToLower envvar = ''all'' then ''xids'' else ToLower envvar"
  obtain maps un where su: "setup_devices q devices = (maps, un)" by fastforce
  have marks: "marks = un @ concat (map (health_step (skipped_xids ?dis) maps devices) events)"
    using assms False su by (auto simp: checkHealth_def Let_def bind_result_Inr_iff split: if_splits sum.splits)
  have known: "set un \<subseteq> (rd_ID \<circ> snd) ` set devices"
    "\<forall>u d. mget (hm_parent maps) u = Some d \<longrightarrow> rd_ID d \<in> (rd_ID \<circ> snd) ` set devices"
    using setup_known [OF su [unfolded setup_devices_def], of "(rd_ID \<circ> snd) ` set devices"] by auto
  have "set marks \<subseteq> (rd_ID \<circ> snd) ` set devices"
    unfolding marks using known(1) health_step_known [OF known(2)] by (simp add: UN_least)
  moreover have "un = []" if "\<forall>(_, d)\<in>set devices. (\<exists>x. getDevicePlacement (hq_handle (q d)) d = Inr x)
           \<and> hq_gpu (q d) \<and> hq_supported (q d) \<and> hq_register (q d)"
    using setup_quiet [OF that, of "(\<lparr>hm_parent = [], hm_gi = [], hm_ci = []\<rparr>, [])"] su by (simp add: setup_devices_def)
  ultimately show ?thesis
    using health_step_harmless by (auto simp: marks list_all_iff)
qed simp

lemma setup_parent:
  assumes "\<forall>(k, d)\<in>set ds. \<not> IsMigDevice d \<and> Device_GetUUID d = u" and "ds \<noteq> []"
  shows "mget (hm_parent (fst (fold (\<lambda>(_, d). setup_device q d) ds st))) u = Some (snd (last ds))"
  using assms
proof (induction ds arbitrary: st)
  case (Cons p ds)
  obtain k d where p: "p = (k, d)" by (cases p)
  show ?case
  proof (cases "ds = []")
    case True
    then show ?thesis
      using Cons.prems p by (auto simp: setup_device_def getDevicePlacement_def split: prod.splits)
  next
    case False
    then show ?thesis using Cons p by simp
  qed
qed simp

text \<open>With time-slicing, a failing card is condemned only in part: the replicas of one card share its
  UUID, the map from UUID to device keeps only the last of them, and so a critical error of the card
  marks one replica; all the others stay healthy and schedulable.\<close>
lemma replicas_stay_healthy:
  assumes "\<forall>(k, d)\<in>set ds. \<not> IsMigDevice d \<and> Device_GetUUID d = u" and "ds \<noteq> []"
    and "ev_xid e" and "ev_data e \<notin> set skipped" and "ev_uuid e = Inr u"
  shows "health_step skipped (fst (setup_devices q ds)) ds (WaitEvent e) = [rd_ID (snd (last ds))]"
proof -
  have "mget (hm_parent (fst (setup_devices q ds))) u = Some (snd (last ds))"
    unfolding setup_devices_def by (rule setup_parent [OF assms(1,2)])
  moreover have "\<not> IsMigDevice (snd (last ds))"
    using bspec [OF assms(1) last_in_set [OF assms(2)]] by (simp add: case_prod_unfold)
  ultimately show ?thesis
    using assms(3-5) by (simp add: health_step_def)
qed

definition example_xid :: nvml_event where
  "example_xid = \<lparr>ev_xid = True, ev_data = 79, ev_uuid = Inr ''A'', ev_gi = 0xFFFFFFFF, ev_ci = 0xFFFFFFFF\<rparr>"

definition example_shared :: rm_devices where
  "example_shared = [(''A::0'', example_rm_device ''A::0''), (''A::1'', example_rm_device ''A::1'')]"

lemma example_shared_uuid:
  "Device_GetUUID (example_rm_device ''A::0'') = ''A''" "Device_GetUUID (example_rm_device ''A::1'') = ''A''"
  using cut_annotation [of "''A''" "''0''"] cut_annotation [of "''A''" "''1''"]
  by (simp_all add: Device_GetUUID_def AnnotatedID_GetID_def AnnotatedID_Split_def example_rm_device_def)

lemma example_not_mig: "\<not> IsMigDevice (example_rm_device u)"
  by (simp add: IsMigDevice_def example_rm_device_def Contains_single)

theorem checkHealth_sound_witness:
  "\<exists>marks. checkHealth [] (Inr ()) True (Inr ()) (\<lambda>_. \<lparr>hq_handle = None, hq_gpu = True, hq_supported = True, hq_register = True\<rparr>)
       example_shared [WaitEvent (example_xid\<lparr>ev_data := 31\<rparr>), WaitTimeout] = Inr marks \<and> marks = []"
proof -
  let ?q = "\<lambda>_. \<lparr>hq_handle = None, hq_gpu = True, hq_supported = True, hq_register = True\<rparr>"
  obtain maps un where su: "setup_devices ?q example_shared = (maps, un)" by fastforce
  have "\<not> Contains [] ''xids''" by (simp add: Contains_def)
  then obtain marks where c: "checkHealth [] (Inr ()) True (Inr ()) ?q example_shared
      [WaitEvent (example_xid\<lparr>ev_data := 31\<rparr>), WaitTimeout] = Inr marks"
    using su by (simp add: checkHealth_def Let_def ToLower_def)
  have "\<forall>(_, d)\<in>set example_shared. \<exists>x. getDevicePlacement None d = Inr x"
    unfolding example_shared_def getDevicePlacement_def using example_not_mig by simp
  then show ?thesis
    using c checkHealth_sound [OF c] by (simp add: harmless_def case_prod_unfold)
qed

lemma replicas_stay_healthy_example:
  "health_step [13] (fst (setup_devices (\<lambda>_. \<lparr>hq_handle = None, hq_gpu = True, hq_supported = True, hq_register = True\<rparr>)
       example_shared)) example_shared (WaitEvent example_xid) = [''A::1'']"
proof -
  have h: "\<forall>(k, d)\<in>set example_shared. \<not> IsMigDevice d \<and> Device_GetUUID d = ''A''"
    unfolding example_shared_def using example_shared_uuid example_not_mig by simp
  have ne: "example_shared \<noteq> []" and l: "rd_ID (snd (last example_shared)) = ''A::1''"
    by (simp_all add: example_shared_def example_rm_device_def)
  show ?thesis
    using replicas_stay_healthy [OF h ne, of example_xid "[13]"] l by (simp add: example_xid_def)
qed

end
