(* ===== verification/Nvidia_Manager.thy ===== *)
theory Nvidia_Manager
  imports Cdi Nvidia_Plugin Rm_Alloc
begin

text \<open>
  The managers of the NVIDIA plugins: \<open>nvinternal/plugin/manager\<close>, \<open>cmd/device-plugin/nvidia/plugin-manager.go\<close>, and the
  validation of the flags in \<open>main.go\<close>.  The platform, the CDI libraries and the parser of the device list
  strategies are arguments.
\<close>

section \<open>Managers and their options\<close>

record ('lib, 'cfg) manager =
  mn_migStrategy :: string
  mn_failOnInitError :: bool
  mn_cdiHandler :: "'lib cdi_interface option"
  mn_cdiEnabled :: bool
  mn_config :: "'cfg option"

type_synonym ('lib, 'cfg) manager_option = "('lib, 'cfg) manager \<Rightarrow> ('lib, 'cfg) manager"

definition WithCDIEnabled :: "bool \<Rightarrow> ('lib, 'cfg) manager_option" where
  "WithCDIEnabled enabled m = m\<lparr>mn_cdiEnabled := enabled\<rparr>"

definition WithCDIHandler :: "'lib cdi_interface \<Rightarrow> ('lib, 'cfg) manager_option" where
  "WithCDIHandler handler m = m\<lparr>mn_cdiHandler := Some handler\<rparr>"

definition WithFailOnInitError :: "bool \<Rightarrow> ('lib, 'cfg) manager_option" where
  "WithFailOnInitError failOnInitError m = m\<lparr>mn_failOnInitError := failOnInitError\<rparr>"

definition WithMigStrategy :: "string \<Rightarrow> ('lib, 'cfg) manager_option" where
  "WithMigStrategy migStrategy m = m\<lparr>mn_migStrategy := migStrategy\<rparr>"

definition WithConfig :: "'cfg \<Rightarrow> ('lib, 'cfg) manager_option" where
  "WithConfig config m = m\<lparr>mn_config := Some config\<rparr>"

definition blank_manager :: "('lib, 'cfg) manager" where
  "blank_manager = \<lparr>mn_migStrategy = [], mn_failOnInitError = False, mn_cdiHandler = None, mn_cdiEnabled = False, mn_config = None\<rparr>"

datatype ('lib, 'cfg) manager_interface = NullPM | NvmlPM "('lib, 'cfg) manager" | TegraPM "('lib, 'cfg) manager"

datatype manager_mode = NvmlMode | TegraMode | NullMode

record platform =
  pl_hasNVML :: bool
  pl_isTegra :: bool
  pl_Init :: "unit result"

definition resolveMode :: "platform \<Rightarrow> bool \<Rightarrow> manager_mode result" where
  "resolveMode pl failOnInitError =
     (if \<not> pl_hasNVML pl \<and> \<not> pl_isTegra pl then
        (if failOnInitError then Inl (Errorf ''platform detection failed'') else Inr NullMode)
      else if pl_isTegra pl then Inr (if pl_hasNVML pl then NvmlMode else TegraMode)
      else Inr NvmlMode)"

text \<open>When NVML cannot be initialised, nothing is served; it is shut down again before the function returns.\<close>

definition manager_New :: "platform \<Rightarrow> ('lib, 'cfg) manager_option list \<Rightarrow> ('lib, 'cfg) manager_interface result" where
  "manager_New pl opts =
     (let m0 = fold (\<lambda>opt m. opt m) opts blank_manager
      in if mn_config m0 = None then Inr NullPM
         else
           let m1 = (if mn_cdiHandler m0 = None then m0\<lparr>mn_cdiHandler := Some NullHandler\<rparr> else m0)
           in bind_result (resolveMode pl (mn_failOnInitError m1)) (\<lambda>mode.
                let m = (if mode \<noteq> NvmlMode \<and> mn_cdiEnabled m1 then m1\<lparr>mn_cdiEnabled := False\<rparr> else m1)
                in case mode of
                     NvmlMode \<Rightarrow>
                       (case pl_Init pl of
                          Inl _ \<Rightarrow> if mn_failOnInitError m then Inl (Errorf ''nvml init failed'') else Inr NullPM
                        | Inr _ \<Rightarrow> Inr (NvmlPM m))
                   | TegraMode \<Rightarrow> Inr (TegraPM m)
                   | NullMode \<Rightarrow> Inr NullPM))"

text \<open>The resource managers that become plugins, each with the configuration and the handler of the manager.\<close>

definition GetPlugins :: "unit result \<Rightarrow> gpu_card list \<Rightarrow> ('lib, rm_config) manager_interface \<Rightarrow> resource_manager list result" where
  "GetPlugins init gpus m =
     (case m of
        NvmlPM mgr \<Rightarrow> (case mn_config mgr of None \<Rightarrow> Inl (GoPanic ''nil config'') | Some cfg \<Rightarrow> NewNVMLResourceManagers init cfg gpus)
      | TegraPM mgr \<Rightarrow> (case mn_config mgr of None \<Rightarrow> Inl (GoPanic ''nil config'') | Some cfg \<Rightarrow> NewTegraResourceManagers cfg)
      | NullPM \<Rightarrow> Inr [])"

definition CreateCDISpecFile ::
  "('lib, 'spec) cdi_libs \<Rightarrow> 'lib map_walk \<Rightarrow> ('lib, 'cfg) manager_interface \<Rightarrow> 'spec cdi_world \<Rightarrow> unit result \<times> 'spec cdi_world" where
  "CreateCDISpecFile L walk m w =
     (case m of
        NvmlPM mgr \<Rightarrow> (case mn_cdiHandler mgr of None \<Rightarrow> (Inl (GoPanic ''nil handler''), w) | Some h \<Rightarrow> CreateSpecFile L walk h w)
      | TegraPM mgr \<Rightarrow> (Inr (), w)
      | NullPM \<Rightarrow> (Inr (), w))"

section \<open>The plugin manager of the process\<close>

record plugin_flags =
  pf_MigStrategy :: string
  pf_DeviceListStrategy :: "string list"
  pf_DeviceIDStrategy :: string
  pf_ContainerDriverRoot :: string
  pf_NvidiaDriverRoot :: string
  pf_NvidiaCTKPath :: string
  pf_GDSEnabled :: bool
  pf_MOFEDEnabled :: bool
  pf_FailOnInitError :: bool

text \<open>\<open>NewDeviceListStrategies\<close> of the configuration library fails or tells whether CDI is enabled.\<close>

definition validateFlags :: "(string list \<Rightarrow> bool result) \<Rightarrow> plugin_flags \<Rightarrow> unit result" where
  "validateFlags NewDeviceListStrategies flags =
     bind_result (wrap_error ''invalid --device-list-strategy option'' (NewDeviceListStrategies (pf_DeviceListStrategy flags))) (\<lambda>_.
          if pf_DeviceIDStrategy flags \<noteq> ''uuid'' \<and> pf_DeviceIDStrategy flags \<noteq> ''index''
          then Inl (Errorf (''invalid --device-id-strategy option: '' @ pf_DeviceIDStrategy flags)) else Inr ())"

text \<open>\<open>config\<close> is what the library makes of command line and file: the flags and the rest.\<close>

definition loadConfig :: "(string list \<Rightarrow> bool result) \<Rightarrow> (plugin_flags \<times> 'cfg) result \<Rightarrow> (plugin_flags \<times> 'cfg) result" where
  "loadConfig NewDeviceListStrategies config =
     bind_result (wrap_error ''unable to finalize config'' config) (\<lambda>(flags, rest).
     bind_result (wrap_error ''unable to validate flags'' (validateFlags NewDeviceListStrategies flags)) (\<lambda>_. Inr (flags, rest)))"

definition cdi_vendor :: string where
  "cdi_vendor = ''k8s.device-plugin.nvidia.com''"

definition handler_options :: "bool \<Rightarrow> plugin_flags \<Rightarrow> 'lib cdi_option list" where
  "handler_options cdiEnabled flags =
     [WithEnabled cdiEnabled, WithDriverRoot (pf_ContainerDriverRoot flags), WithTargetDriverRoot (pf_NvidiaDriverRoot flags),
      WithNvidiaCTKPath (pf_NvidiaCTKPath flags), WithDeviceIDStrategy (pf_DeviceIDStrategy flags), WithVendor cdi_vendor,
      WithGdsEnabled (pf_GDSEnabled flags), WithMofedEnabled (pf_MOFEDEnabled flags)]"

definition NewPluginManager ::
  "(string list \<Rightarrow> bool result) \<Rightarrow> ('lib, 'spec) cdi_libs \<Rightarrow> 'lib map_walk \<Rightarrow> platform \<Rightarrow> plugin_flags \<Rightarrow> 'cfg \<Rightarrow> 'spec cdi_world \<Rightarrow>
   ('lib, 'cfg) manager_interface result \<times> 'spec cdi_world" where
  "NewPluginManager NewDeviceListStrategies L walk pl flags config w =
     (if pf_MigStrategy flags \<notin> {''none'', ''single'', ''mixed''} then (Inl (Errorf (''unknown strategy: '' @ pf_MigStrategy flags)), w)
      else
        case NewDeviceListStrategies (pf_DeviceListStrategy flags) of
          Inl e \<Rightarrow> (wrap_error ''invalid device list strategy'' (Inl e), w)
        | Inr cdiEnabled \<Rightarrow>
            (case cdi_New (pl_hasNVML pl) L (handler_options cdiEnabled flags) of
               Inl e \<Rightarrow> (wrap_error ''unable to create cdi handler'' (Inl e), w)
             | Inr cdiHandler \<Rightarrow>
                 (case manager_New pl [WithCDIEnabled cdiEnabled, WithCDIHandler cdiHandler, WithConfig config,
                      WithFailOnInitError (pf_FailOnInitError flags), WithMigStrategy (pf_MigStrategy flags)] of
                    Inl e \<Rightarrow> (wrap_error ''unable to create plugin manager'' (Inl e), w)
                  | Inr m \<Rightarrow>
                      (case CreateCDISpecFile L walk m w of
                         (Inl e, w') \<Rightarrow> (wrap_error ''unable to create cdi spec file'' (Inl e), w')
                       | (Inr _, w') \<Rightarrow> (Inr m, w')))))"

section \<open>CDI is only announced when its specifications exist\<close>

lemma manager_New_Nvml:
  assumes "manager_New pl [WithCDIEnabled e, WithCDIHandler h, WithConfig config, WithFailOnInitError f, WithMigStrategy s] = Inr m"
  shows "m = NullPM \<or> (\<exists>mgr. (m = NvmlPM mgr \<and> pl_hasNVML pl \<and> mn_cdiEnabled mgr = e \<or> m = TegraPM mgr \<and> \<not> mn_cdiEnabled mgr)
     \<and> mn_cdiHandler mgr = Some h \<and> mn_config mgr = Some config)"
proof -
  define m1 where "m1 = \<lparr>mn_migStrategy = s, mn_failOnInitError = f, mn_cdiHandler = Some h, mn_cdiEnabled = e, mn_config = Some config\<rparr>"
  have "m = NullPM \<or> m = NvmlPM m1 \<and> pl_hasNVML pl \<or> m = TegraPM (m1\<lparr>mn_cdiEnabled := False\<rparr>)"
    using assms
    by (cases "pl_hasNVML pl"; cases "pl_isTegra pl"; cases f; cases "pl_Init pl")
      (simp_all add: manager_New_def blank_manager_def resolveMode_def WithCDIEnabled_def WithCDIHandler_def WithConfig_def
        WithFailOnInitError_def WithMigStrategy_def Let_def m1_def split: if_splits)
  then show ?thesis by (auto simp: m1_def)
qed

lemma handler_of_options:
  assumes "newHandler L (handler_options True flags) = Inr h"
  shows "\<exists>c. h = CdiHandler c \<and> ch_vendor c = cdi_vendor
     \<and> cdi_classes c = {''gpu''} \<union> (if pf_GDSEnabled flags then {''gds''} else {}) \<union> (if pf_MOFEDEnabled flags then {''mofed''} else {})"
proof -
  define c0 where "c0 = fold (\<lambda>opt c. opt c) (handler_options True flags) (blank_handler :: 'a cdi_handler)"
  note opts = c0_def handler_options_def WithEnabled_def WithDriverRoot_def WithTargetDriverRoot_def WithNvidiaCTKPath_def
    WithDeviceIDStrategy_def WithVendor_def WithGdsEnabled_def WithMofedEnabled_def blank_handler_def
  have en: "ch_enabled c0" by (simp add: opts)
  obtain gpu c where c: "h = CdiHandler c"
    "add_modes L (additionalModes (handler_defaults c0)) ((handler_defaults c0)\<lparr>ch_cdilibs := [(''gpu'', gpu)]\<rparr>) = Inr c"
    using assms en by (auto simp: newHandler_def Let_def bind_result_Inr_iff simp flip: c0_def)
  have "''gpu'' \<notin> set (additionalModes (handler_defaults c0))" by (simp add: additionalModes_def)
  from add_modes_Inr [OF c(2) this] have same: "c = (handler_defaults c0)\<lparr>ch_cdilibs := ch_cdilibs c\<rparr>" by simp
  have fields: "ch_vendor (handler_defaults c0) = cdi_vendor" "ch_gdsEnabled (handler_defaults c0) = pf_GDSEnabled flags"
    "ch_mofedEnabled (handler_defaults c0) = pf_MOFEDEnabled flags"
    by (simp_all add: handler_defaults_def opts Let_def)
  have "ch_vendor c = cdi_vendor" "ch_gdsEnabled c = pf_GDSEnabled flags" "ch_mofedEnabled c = pf_MOFEDEnabled flags"
    by (subst same, simp add: fields)+
  then show ?thesis using c(1) by (simp add: cdi_classes_def)
qed

text \<open>C26: CDI is only announced when it can be served.  Whenever the process gets a manager whose plugins answer
  allocations with CDI device names, the manager has a real CDI handler, which can form these names, and
  the specification of every class that the flags ask for has been generated and saved; a manager that
  does not run on NVML never announces CDI, and NVML is shut down as often as it was initialised.\<close>
theorem NewPluginManager_cdi_ready:
  assumes "walks walk" and "NewPluginManager strategies L walk pl flags config w = (Inr m, w')"
  shows "cw_nvml w' = cw_nvml w
     \<and> (\<forall>mgr. m = TegraPM mgr \<longrightarrow> \<not> mn_cdiEnabled mgr)
     \<and> (\<forall>mgr. m = NvmlPM mgr \<longrightarrow> mn_cdiEnabled mgr \<longrightarrow>
          (\<exists>c new. mn_cdiHandler mgr = Some (CdiHandler c) \<and> ch_vendor c = cdi_vendor \<and> cw_saved w' = cw_saved w @ new
             \<and> Inr ` set new = class_file L c ` ({''gpu''} \<union> (if pf_GDSEnabled flags then {''gds''} else {})
                  \<union> (if pf_MOFEDEnabled flags then {''mofed''} else {}))))"
proof -
  obtain e h u where handler: "cdi_New (pl_hasNVML pl) L (handler_options e flags) = Inr h"
    and mgr: "manager_New pl [WithCDIEnabled e, WithCDIHandler h, WithConfig config,
        WithFailOnInitError (pf_FailOnInitError flags), WithMigStrategy (pf_MigStrategy flags)] = Inr m"
    and spec: "CreateCDISpecFile L walk m w = (Inr u, w')"
    using assms(2) by (auto simp: NewPluginManager_def split: if_splits sum.splits prod.splits)
  note cases = manager_New_Nvml [OF mgr]
  have nvml: "cw_nvml w' = cw_nvml w"
  proof (cases h)
    case NullHandler
    then show ?thesis using cases spec by (auto simp: CreateCDISpecFile_def CreateSpecFile_def)
  next
    case (CdiHandler c)
    then have new: "newHandler L (handler_options e flags) = Inr (CdiHandler c)"
      using handler by (simp add: cdi_New_def split: if_splits)
    show ?thesis
      using cases spec CdiHandler CreateSpecFile_complete(1) [OF new assms(1)] by (auto simp: CreateCDISpecFile_def)
  qed
  have ready: "\<exists>c new. mn_cdiHandler g = Some (CdiHandler c) \<and> ch_vendor c = cdi_vendor \<and> cw_saved w' = cw_saved w @ new
      \<and> Inr ` set new = class_file L c ` ({''gpu''} \<union> (if pf_GDSEnabled flags then {''gds''} else {})
          \<union> (if pf_MOFEDEnabled flags then {''mofed''} else {}))" if g: "m = NvmlPM g" "mn_cdiEnabled g" for g
  proof -
    have "pl_hasNVML pl" "e" "mn_cdiHandler g = Some h" using cases g by auto
    then have new: "newHandler L (handler_options True flags) = Inr h" using handler by (simp add: cdi_New_def)
    obtain c where c: "h = CdiHandler c" "ch_vendor c = cdi_vendor"
      "cdi_classes c = {''gpu''} \<union> (if pf_GDSEnabled flags then {''gds''} else {}) \<union> (if pf_MOFEDEnabled flags then {''mofed''} else {})"
      using handler_of_options [OF new] by blast
    have "CreateSpecFile L walk (CdiHandler c) w = (Inr (), w')"
      using spec g(1) \<open>mn_cdiHandler g = Some h\<close> c(1) by (simp add: CreateCDISpecFile_def)
    from CreateSpecFile_complete(3) [OF new [unfolded c(1)] assms(1) this]
    show ?thesis using c \<open>mn_cdiHandler g = Some h\<close> by auto
  qed
  have "\<not> mn_cdiEnabled g" if "m = TegraPM g" for g using cases that by auto
  then show ?thesis using nvml ready by simp
qed

definition example_libs :: "(string, string) cdi_libs" where
  "example_libs = \<lparr>cl_NewDeviceNamer = (\<lambda>_. Inr ()),
     cl_New = (\<lambda>opts. Inr (case lo_Mode opts of None \<Rightarrow> ''gpu'' | Some m \<Rightarrow> m)), cl_Init = Inr (), cl_GetSpec = Inr,
     cl_Transform = (\<lambda>_ _. Inr), cl_GenerateName = Inr, cl_Save = (\<lambda>_ _. Inr ())\<rparr>"

definition example_flags :: plugin_flags where
  "example_flags = \<lparr>pf_MigStrategy = ''none'', pf_DeviceListStrategy = [''cdi-annotations''], pf_DeviceIDStrategy = ''uuid'',
     pf_ContainerDriverRoot = ''/driver-root'', pf_NvidiaDriverRoot = ''/'', pf_NvidiaCTKPath = ''/usr/bin/nvidia-ctk'',
     pf_GDSEnabled = True, pf_MOFEDEnabled = False, pf_FailOnInitError = True\<rparr>"

text \<open>GDS is enabled too; the map is walked backwards.\<close>

theorem NewPluginManager_cdi_ready_witness:
  "\<exists>g c w'. NewPluginManager (\<lambda>_. Inr True) example_libs rev \<lparr>pl_hasNVML = True, pl_isTegra = False, pl_Init = Inr ()\<rparr> example_flags
       (0::nat) \<lparr>cw_nvml = 0, cw_saved = []\<rparr> = (Inr (NvmlPM g), w')
     \<and> mn_cdiEnabled g \<and> mn_cdiHandler g = Some (CdiHandler c) \<and> cw_nvml w' = 0
     \<and> Inr ` set (cw_saved w') = class_file example_libs c ` {''gpu'', ''gds''}"
proof -
  note opts = handler_options_def WithEnabled_def WithDriverRoot_def WithTargetDriverRoot_def WithNvidiaCTKPath_def
    WithDeviceIDStrategy_def WithVendor_def WithGdsEnabled_def WithMofedEnabled_def blank_handler_def
    manager_New_def blank_manager_def resolveMode_def WithCDIEnabled_def WithCDIHandler_def WithConfig_def
    WithFailOnInitError_def WithMigStrategy_def Let_def example_libs_def example_flags_def
  let ?run = "NewPluginManager (\<lambda>_. Inr True) example_libs rev \<lparr>pl_hasNVML = True, pl_isTegra = False, pl_Init = Inr ()\<rparr> example_flags
       (0::nat) \<lparr>cw_nvml = 0, cw_saved = []\<rparr>"
  have "\<exists>g w'. ?run = (Inr (NvmlPM g), w') \<and> mn_cdiEnabled g"
    by (simp add: NewPluginManager_def cdi_New_def newHandler_def handler_defaults_def new_lib_def gpu_options_def mode_options_def
        additionalModes_def mset_to_def CreateCDISpecFile_def CreateSpecFile_def spec_of_def opts)
  then obtain g w' where run: "?run = (Inr (NvmlPM g), w')" and en: "mn_cdiEnabled g" by blast
  have "walks (rev :: string map_walk)" by (simp add: walks_def)
  note ready = NewPluginManager_cdi_ready [OF this run]
  have flags: "pf_GDSEnabled example_flags" "\<not> pf_MOFEDEnabled example_flags" by (simp_all add: example_flags_def)
  obtain c where "mn_cdiHandler g = Some (CdiHandler c)" "Inr ` set (cw_saved w') = class_file example_libs c ` {''gpu'', ''gds''}"
    using ready en flags by (auto simp: insert_commute)
  moreover have "cw_nvml w' = 0" using ready by simp
  ultimately show ?thesis using run en by blast
qed

end
