(* ===== verification/Event_Loop.thy ===== *)
theory Event_Loop
  imports Prelude
begin

text \<open>
  The event loop of a plugin process: a turn takes an event and a running state to an outcome, which is a running
  state again or an end.  The contract of such a loop is an invariant on outcomes that every turn keeps for
  the events that can occur; then every run keeps it.  Where turns may leak something, a meter
  bounds what a run can leak by what its events cost.  Both plugin processes are instances.
\<close>

inductive loop_run :: "('e \<Rightarrow> 's \<Rightarrow> 'o) \<Rightarrow> ('s \<Rightarrow> 'o) \<Rightarrow> 'e list \<Rightarrow> 'o \<Rightarrow> 'o \<Rightarrow> bool" for turn running where
  loop_done: "loop_run turn running [] out out"
| loop_next: "loop_run turn running evs (turn ev s) out \<Longrightarrow> loop_run turn running (ev # evs) (running s) out"

locale event_loop =
  fixes turn :: "'e \<Rightarrow> 's \<Rightarrow> 'o" and running :: "'s \<Rightarrow> 'o" and possible :: "'e \<Rightarrow> bool" and good :: "'o \<Rightarrow> bool"
  assumes turn_good: "good (running s) \<Longrightarrow> possible ev \<Longrightarrow> good (turn ev s)"
begin

lemma run_good:
  "loop_run turn running evs out0 out \<Longrightarrow> good out0 \<Longrightarrow> list_all possible evs \<Longrightarrow> good out"
  by (induction rule: loop_run.induct) (auto intro: turn_good)

lemma run_append:
  assumes "loop_run turn running evs out0 (running s)" and "loop_run turn running evs' (running s) out"
  shows "loop_run turn running (evs @ evs') out0 out"
  using assms
proof (induction evs out0 "running s" rule: loop_run.induct)
  case (loop_next evs ev t)
  then show ?case using loop_run.loop_next by force
qed simp

end

text \<open>A loop with a meter: what a turn adds to it is bounded by the cost of the event.\<close>

locale metered_loop = event_loop turn running possible good
  for turn :: "'e \<Rightarrow> 's \<Rightarrow> 'o" and running :: "'s \<Rightarrow> 'o" and possible :: "'e \<Rightarrow> bool" and good :: "'o \<Rightarrow> bool" +
  fixes meter :: "'o \<Rightarrow> nat" and cost :: "'e \<Rightarrow> nat"
  assumes turn_meter: "good (running s) \<Longrightarrow> possible ev \<Longrightarrow> meter (turn ev s) \<le> meter (running s) + cost ev"
begin

lemma run_meter:
  "loop_run turn running evs out0 out \<Longrightarrow> good out0 \<Longrightarrow> list_all possible evs \<Longrightarrow>
     meter out \<le> meter out0 + sum_list (map cost evs)"
proof (induction rule: loop_run.induct)
  case (loop_next evs ev s out)
  have "good (turn ev s)" using turn_good loop_next.prems by simp
  then have "meter out \<le> meter (turn ev s) + sum_list (map cost evs)" using loop_next by simp
  also have "\<dots> \<le> meter (running s) + cost ev + sum_list (map cost evs)" using turn_meter loop_next.prems by simp
  finally show ?case by simp
qed simp

end

end
