(* ===== verification/Nvidia_Main.thy ===== *)
theory Nvidia_Main
  imports Nvidia_Manager Event_Loop
begin

text \<open>
  The process around the NVIDIA plugins: the flags and the configuration file
  (\<open>cmd/device-plugin/nvidia/vgpucfg.go\<close>), the choice of a manager for the platform
  (\<open>nvinternal/plugin/manager\<close>) and the loop of \<open>main.go\<close> that starts the plugins and starts them again when the
  kubelet comes back, a timer expires or a signal asks for it.  The parsed command line and file and the
  events of the loop are arguments.
\<close>

section \<open>Flags and the configuration file\<close>

record node_config =
  nc_Name :: string
  nc_Devicememoryscaling :: rat
  nc_Devicecorescaling :: rat
  nc_Devicesplitcount :: nat

record vgpu_flags =
  vf_DeviceSplitCount :: "nat option"
  vf_DeviceMemoryScaling :: "rat option"
  vf_DeviceCoresScaling :: "rat option"
  vf_DisableCoreLimit :: "bool option"

record command_line =
  cl_IsSet :: "string \<Rightarrow> bool"
  cl_split :: nat
  cl_memory :: rat
  cl_cores :: rat
  cl_nolimit :: bool

text \<open>The flags the program adds to those of the library, with their defaults and environment variables.\<close>

datatype flag_value = StringFlag string | UintFlag nat | Float64Flag rat | BoolFlag bool

record cli_flag =
  fl_Name :: string
  fl_Value :: flag_value
  fl_EnvVars :: "string list"

definition addFlags :: "string \<Rightarrow> cli_flag list" where
  "addFlags nodeName =
     [\<lparr>fl_Name = ''node-name'', fl_Value = StringFlag nodeName, fl_EnvVars = [''NodeName'']\<rparr>,
      \<lparr>fl_Name = ''device-split-count'', fl_Value = UintFlag 2, fl_EnvVars = [''DEVICE_SPLIT_COUNT'']\<rparr>,
      \<lparr>fl_Name = ''device-memory-scaling'', fl_Value = Float64Flag 1, fl_EnvVars = [''DEVICE_MEMORY_SCALING'']\<rparr>,
      \<lparr>fl_Name = ''device-cores-scaling'', fl_Value = Float64Flag 1, fl_EnvVars = [''DEVICE_CORES_SCALING'']\<rparr>,
      \<lparr>fl_Name = ''disable-core-limit'', fl_Value = BoolFlag False, fl_EnvVars = [''DISABLE_CORE_LIMIT'']\<rparr>,
      \<lparr>fl_Name = ''resource-name'', fl_Value = StringFlag ''nvidia.com/gpu'', fl_EnvVars = []\<rparr>]"

definition updateFromCLIFlag :: "bool \<Rightarrow> 'a \<Rightarrow> 'a option \<Rightarrow> 'a option" where
  "updateFromCLIFlag isSet val flag = (if isSet \<or> flag = None then Some val else flag)"

definition update_flag :: "command_line \<Rightarrow> string \<Rightarrow> vgpu_flags \<Rightarrow> vgpu_flags" where
  "update_flag c n f =
     (if n = ''device-split-count'' then
        f\<lparr>vf_DeviceSplitCount := updateFromCLIFlag (cl_IsSet c n) (cl_split c) (vf_DeviceSplitCount f)\<rparr>
      else if n = ''device-memory-scaling'' then
        f\<lparr>vf_DeviceMemoryScaling := updateFromCLIFlag (cl_IsSet c n) (cl_memory c) (vf_DeviceMemoryScaling f)\<rparr>
      else if n = ''device-cores-scaling'' then
        f\<lparr>vf_DeviceCoresScaling := updateFromCLIFlag (cl_IsSet c n) (cl_cores c) (vf_DeviceCoresScaling f)\<rparr>
      else if n = ''disable-core-limit'' then
        f\<lparr>vf_DisableCoreLimit := updateFromCLIFlag (cl_IsSet c n) (cl_nolimit c) (vf_DisableCoreLimit f)\<rparr>
      else f)"

text \<open>
  The flags are pointers.  The loop stores the addresses of fields of its variable \<open>val\<close>, which is one
  variable for all iterations (Go 1.21): what a stored pointer reads after the loop is the last entry of
  the file.  \<open>points\<close> are the three pointers into \<open>val\<close> that were stored.
\<close>

record val_pointers =
  vp_memory :: bool
  vp_cores :: bool
  vp_split :: bool

definition node_entry :: "string \<Rightarrow> node_config \<Rightarrow> val_pointers \<Rightarrow> val_pointers" where
  "node_entry nodeName val points =
     (if nodeName = nc_Name val then
        \<lparr>vp_memory = (vp_memory points \<or> nc_Devicememoryscaling val > 0),
         vp_cores = (vp_cores points \<or> nc_Devicecorescaling val > 0),
         vp_split = (vp_split points \<or> nc_Devicesplitcount val > 0)\<rparr>
      else points)"

definition read_pointers :: "node_config \<Rightarrow> val_pointers \<Rightarrow> vgpu_flags \<Rightarrow> vgpu_flags" where
  "read_pointers val points f =
     f\<lparr>vf_DeviceMemoryScaling := (if vp_memory points then Some (nc_Devicememoryscaling val) else vf_DeviceMemoryScaling f),
       vf_DeviceCoresScaling := (if vp_cores points then Some (nc_Devicecorescaling val) else vf_DeviceCoresScaling f),
       vf_DeviceSplitCount := (if vp_split points then Some (nc_Devicesplitcount val) else vf_DeviceSplitCount f)\<rparr>"

definition readFromConfigFile :: "node_config list result \<Rightarrow> string \<Rightarrow> vgpu_flags \<Rightarrow> unit result \<times> vgpu_flags" where
  "readFromConfigFile file nodeName f =
     (case file of
        Inl e \<Rightarrow> (Inl e, f)
      | Inr configs \<Rightarrow>
          let points = fold (node_entry nodeName) configs \<lparr>vp_memory = False, vp_cores = False, vp_split = False\<rparr>
          in (Inr (), if configs = [] then f else read_pointers (last configs) points f))"

definition generateDeviceConfigFromNvidia ::
  "command_line \<Rightarrow> string list \<Rightarrow> node_config list result \<Rightarrow> string \<Rightarrow> vgpu_flags \<Rightarrow> vgpu_flags" where
  "generateDeviceConfigFromNvidia c names file nodeName f =
     snd (readFromConfigFile file nodeName (fold (update_flag c) names f))"

section \<open>The configuration of resources\<close>

text \<open>\<open>shared\<close> is the configuration library's default name of a shared resource.\<close>

definition disable_rename :: "bool \<Rightarrow> (string \<Rightarrow> string) \<Rightarrow> replicated_resource \<Rightarrow> replicated_resource" where
  "disable_rename renameByDefault shared r =
     (let r1 = (if \<not> renameByDefault \<and> rpr_Rename r \<noteq> [] then r\<lparr>rpr_Rename := []\<rparr> else r);
          r2 = (if renameByDefault \<and> rpr_Rename r \<noteq> shared (rpr_Name r) then r1\<lparr>rpr_Rename := shared (rpr_Name r)\<rparr> else r1)
      in if \<not> rpd_All (rpr_Devices r) then r2\<lparr>rpr_Devices := \<lparr>rpd_All = True, rpd_Count = 0, rpd_List = []\<rparr>\<rparr> else r2)"

definition disableResourceRenamingInConfig :: "bool \<Rightarrow> (string \<Rightarrow> string) \<Rightarrow> rm_config \<Rightarrow> rm_config" where
  "disableResourceRenamingInConfig renameByDefault shared cfg =
     cfg\<lparr>cf_GPUs := [], cf_MIGs := [], cf_Replicated := map (disable_rename renameByDefault shared) (cf_Replicated cfg)\<rparr>"

section \<open>Retrieving the plugins\<close>

text \<open>
  What the start of the plugins depends on.  \<open>se_config\<close> is the configuration that the library reads from the
  command line and its file; the other fields are arguments of the functions called.
\<close>

record ('lib, 'spec) start_env =
  se_strategies :: "string list \<Rightarrow> bool result"
  se_config :: "(plugin_flags \<times> rm_config) result"
  se_renameByDefault :: bool
  se_shared :: "string \<Rightarrow> string"
  se_commandLine :: command_line
  se_flagNames :: "string list"
  se_file :: "node_config list result"
  se_nodeName :: string
  se_resourceName :: string
  se_matches :: "string \<Rightarrow> string \<Rightarrow> bool"
  se_AddMIGResource :: mig_adder
  se_profiles :: "mig_profile list result"
  se_marshal :: "unit result"
  se_platform :: platform
  se_libs :: "('lib, 'spec) cdi_libs"
  se_walk :: "'lib map_walk"
  se_gpus :: "gpu_card list"

definition retrieve_plugins ::
  "('lib, 'spec) start_env \<Rightarrow> vgpu_flags \<Rightarrow> 'spec cdi_world \<Rightarrow> resource_manager list result \<times> vgpu_flags \<times> 'spec cdi_world" where
  "retrieve_plugins env f w =
     (case wrap_error ''unable to load config'' (loadConfig (se_strategies env) (se_config env)) of
        Inl e \<Rightarrow> (Inl e, f, w)
      | Inr (flags, cfg) \<Rightarrow>
          let cfg1 = disableResourceRenamingInConfig (se_renameByDefault env) (se_shared env) cfg;
              f' = generateDeviceConfigFromNvidia (se_commandLine env) (se_flagNames env) (se_file env) (se_nodeName env) f;
              pl = se_platform env
          in case wrap_error ''unable to add default resources to config''
                  (AddDefaultResourcesToConfig (se_matches env) (se_AddMIGResource env) (pl_hasNVML pl) (pl_Init pl)
                     (pf_FailOnInitError flags) (se_profiles env) (se_resourceName env) cfg1) of
               Inl e \<Rightarrow> (Inl e, f', w)
             | Inr cfg2 \<Rightarrow>
                 (case wrap_error ''failed to marshal config to JSON'' (se_marshal env) of
                    Inl e \<Rightarrow> (Inl e, f', w)
                  | Inr _ \<Rightarrow>
                      (case NewPluginManager (se_strategies env) (se_libs env) (se_walk env) pl flags cfg2 w of
                         (Inl e, w') \<Rightarrow> (wrap_error ''error creating plugin manager'' (Inl e), f', w')
                       | (Inr m, w') \<Rightarrow> (wrap_error ''error getting plugins'' (GetPlugins (pl_Init pl) (se_gpus env) m), f', w'))))"

section \<open>Starting and stopping the plugins\<close>

text \<open>
  A plugin with the number of its devices and the outcomes of its next calls: opening its socket, dialling it,
  registering at the kubelet and removing the socket.
\<close>

record plugin_slot =
  sl_devices :: nat
  sl_listen :: "unit result"
  sl_dial :: "unit result"
  sl_register :: "unit result"
  sl_remove :: "unit result"
  sl_state :: plugin_state

fun start_slots :: "plugin_slot list \<Rightarrow> unit result \<times> plugin_slot list" where
  "start_slots [] = (Inr (), [])"
| "start_slots (p # plugins) =
     (if sl_devices p = 0 then (case start_slots plugins of (r, ps) \<Rightarrow> (r, p # ps))
      else
        case Start (sl_listen p) (sl_dial p) (sl_register p) (sl_remove p) (sl_state p) of
          (Inl e, st) \<Rightarrow> (Inl e, p\<lparr>sl_state := st\<rparr> # plugins)
        | (Inr _, st) \<Rightarrow> (case start_slots plugins of (r, ps) \<Rightarrow> (r, p\<lparr>sl_state := st\<rparr> # ps)))"

text \<open>
  \<open>found\<close> are the plugins that \<open>retrieve_plugins\<close> has found for the current configuration, each in its slot; the
  flag asks for another attempt.
\<close>

definition new_slot :: "resource_manager \<Rightarrow> unit result \<Rightarrow> unit result \<Rightarrow> unit result \<Rightarrow> unit result \<Rightarrow> plugin_slot" where
  "new_slot r listen dial register remove = \<lparr>sl_devices = length (rmg_devices r), sl_listen = listen, sl_dial = dial,
     sl_register = register, sl_remove = remove,
     sl_state = \<lparr>ps_server = False, ps_serving = False, ps_orphans = 0, ps_stop = None\<rparr>\<rparr>"

definition startPlugins :: "plugin_slot list result \<Rightarrow> (plugin_slot list \<times> bool) result" where
  "startPlugins found =
     bind_result found (\<lambda>plugins.
       case start_slots plugins of
         (Inl (GoPanic s), _) \<Rightarrow> Inl (GoPanic s)
       | (Inl (Errorf _), ps) \<Rightarrow> Inr (ps, True)
       | (Inr _, ps) \<Rightarrow> Inr (ps, False))"

text \<open>The errors of \<open>Stop\<close> are dropped.\<close>

fun stopPlugins :: "plugin_slot list \<Rightarrow> plugin_slot list result" where
  "stopPlugins [] = Inr []"
| "stopPlugins (p # plugins) =
     (case Stop (sl_remove p) (sl_state p) of
        (Inl (GoPanic s), _) \<Rightarrow> Inl (GoPanic s)
      | (_, st) \<Rightarrow> bind_result (stopPlugins plugins) (\<lambda>ps. Inr (p\<lparr>sl_state := st\<rparr> # ps)))"

section \<open>Watching files\<close>

text \<open>\<open>newFSWatcher\<close>: the files that are watched and whether the watcher is open; it is closed when a file cannot be added.\<close>

fun add_watches :: "(string \<Rightarrow> unit result) \<Rightarrow> string list \<Rightarrow> string list \<Rightarrow> unit result \<times> string list \<times> bool" where
  "add_watches add [] watched = (Inr (), watched, True)"
| "add_watches add (f # fs) watched =
     (case add f of Inl e \<Rightarrow> (Inl e, watched, False) | Inr _ \<Rightarrow> add_watches add fs (watched @ [f]))"

definition newFSWatcher :: "unit result \<Rightarrow> (string \<Rightarrow> unit result) \<Rightarrow> string list \<Rightarrow> unit result \<times> string list \<times> bool" where
  "newFSWatcher NewWatcher add fs = (case NewWatcher of Inl e \<Rightarrow> (Inl e, [], False) | Inr _ \<Rightarrow> add_watches add fs [])"

lemma add_watches_result:
  "add_watches add fs ws = (r, watched, opened) \<Longrightarrow> (opened \<longleftrightarrow> r = Inr ()) \<and> (r = Inr () \<longrightarrow> watched = ws @ fs)"
proof (induction fs arbitrary: ws)
  case (Cons f fs)
  then show ?case using Cons.IH [of "ws @ [f]"] Cons.prems by (cases "add f") auto
qed auto

lemma newFSWatcher_open:
  "newFSWatcher NewWatcher add fs = (r, watched, opened) \<Longrightarrow> (opened \<longleftrightarrow> r = Inr ()) \<and> (r = Inr () \<longrightarrow> watched = fs)"
  by (cases NewWatcher) (auto simp: newFSWatcher_def dest: add_watches_result)

section \<open>The loop\<close>

datatype daemon_event = RestartTimeout | FsEvent string bool | FsError | Signal_HUP | Signal_other

text \<open>\<open>dn_orphans\<close> counts the servers that plugins of earlier rounds have left serving.\<close>

record daemon =
  dn_plugins :: "plugin_slot list"
  dn_timer :: bool
  dn_orphans :: nat

definition slot_orphans :: "plugin_slot list \<Rightarrow> nat" where
  "slot_orphans ps = sum_list (map (\<lambda>p. ps_orphans (sl_state p)) ps)"

text \<open>The loop runs on, or has ended; an ended one shows the plugins and the servers it leaves behind.\<close>

datatype daemon_outcome = Running daemon | Exited "plugin_slot list" nat | Failed go_error

definition start_run :: "plugin_slot list result \<Rightarrow> bool \<Rightarrow> nat \<Rightarrow> daemon_outcome" where
  "start_run found timer orphans =
     (case startPlugins found of
        Inl e \<Rightarrow> Failed e
      | Inr (ps, restartPlugins) \<Rightarrow> Running \<lparr>dn_plugins = ps, dn_timer = (timer \<or> restartPlugins), dn_orphans = orphans\<rparr>)"

definition restart_run :: "plugin_slot list result \<Rightarrow> bool \<Rightarrow> daemon \<Rightarrow> daemon_outcome" where
  "restart_run found timer d =
     (case stopPlugins (dn_plugins d) of
        Inl e \<Rightarrow> Failed e
      | Inr ps \<Rightarrow> start_run found timer (dn_orphans d + slot_orphans ps))"

text \<open>
  One turn of the loop.  A timer that was armed by a failed start stays armed when another event comes
  first; once it has fired, its channel delivers nothing more.
\<close>

definition daemon_turn :: "plugin_slot list result \<Rightarrow> daemon_event \<Rightarrow> daemon \<Rightarrow> daemon_outcome" where
  "daemon_turn found ev d =
     (case ev of
        RestartTimeout \<Rightarrow> if dn_timer d then restart_run found False d else Running d
      | FsEvent name created \<Rightarrow> if name = KubeletSocket \<and> created then restart_run found (dn_timer d) d else Running d
      | FsError \<Rightarrow> Running d
      | Signal_HUP \<Rightarrow> restart_run found (dn_timer d) d
      | Signal_other \<Rightarrow> (case stopPlugins (dn_plugins d) of Inl e \<Rightarrow> Failed e | Inr ps \<Rightarrow> Exited ps (dn_orphans d)))"

text \<open>The runs of the loop: each turn with the plugins that a restart in it would find.\<close>

definition daemon_run :: "(plugin_slot list result \<times> daemon_event) list \<Rightarrow> daemon_outcome \<Rightarrow> daemon_outcome \<Rightarrow> bool" where
  "daemon_run = loop_run (\<lambda>(found, ev). daemon_turn found ev) Running"

section \<open>Lemmas on flags\<close>

lemma fold_node_entry:
  "vp_memory (fold (node_entry n) configs pts) \<longleftrightarrow>
     vp_memory pts \<or> (\<exists>v\<in>set configs. nc_Name v = n \<and> nc_Devicememoryscaling v > 0)"
  by (induction configs arbitrary: pts) (auto simp: node_entry_def)

text \<open>
  A node with an entry in the configuration file is given the memory scaling of the last entry of the
  file, whichever node that one is for.
\<close>

lemma config_of_last_entry:
  assumes "val \<in> set configs" and "nc_Name val = nodeName" and "nc_Devicememoryscaling val > 0"
  shows "vf_DeviceMemoryScaling (snd (readFromConfigFile (Inr configs) nodeName f)) = Some (nc_Devicememoryscaling (last configs))"
proof -
  have "vp_memory (fold (node_entry nodeName) configs \<lparr>vp_memory = False, vp_cores = False, vp_split = False\<rparr>)"
    unfolding fold_node_entry using assms by auto
  moreover have "configs \<noteq> []" using assms(1) by auto
  ultimately show ?thesis by (simp add: readFromConfigFile_def read_pointers_def Let_def)
qed

text \<open>Renaming and the selection of devices are switched off for every replicated resource.\<close>

lemma disable_rename_all:
  "rpd_All (rpr_Devices (disable_rename b shared r))"
  "rpr_Rename (disable_rename b shared r) = (if b then shared (rpr_Name r) else [])"
  by (auto simp: disable_rename_def Let_def)

section \<open>Properties of the loop\<close>

text \<open>A plugin whose own socket could be opened but not dialled.\<close>

definition undialled :: "plugin_slot \<Rightarrow> bool" where
  "undialled p \<longleftrightarrow> sl_devices p \<noteq> 0 \<and> \<not> isl (sl_listen p) \<and> isl (sl_dial p)"

definition dial_failures :: "plugin_slot list result \<Rightarrow> nat" where
  "dial_failures found = (case found of Inl _ \<Rightarrow> 0 | Inr ps \<Rightarrow> length (filter undialled ps))"

text \<open>
  A plugin whose server field is set has an open stop channel; one that was never started has none and serves nothing.
  A plugin leaves a server behind only where its socket could not be dialled.
\<close>

definition slot_ok :: "plugin_slot \<Rightarrow> bool" where
  "slot_ok p \<longleftrightarrow>
     (if ps_server (sl_state p) then ps_stop (sl_state p) = Some False
      else ps_stop (sl_state p) = None \<and> \<not> ps_serving (sl_state p))
     \<and> ps_orphans (sl_state p) \<le> of_bool (undialled p)
     \<and> \<not> is_panic (sl_listen p) \<and> \<not> is_panic (sl_dial p) \<and> \<not> is_panic (sl_register p) \<and> \<not> is_panic (sl_remove p)"

definition fresh_slot :: "plugin_slot \<Rightarrow> bool" where
  "fresh_slot p \<longleftrightarrow> slot_ok p \<and> \<not> ps_server (sl_state p) \<and> ps_orphans (sl_state p) = 0"

text \<open>A plugin after \<open>Stop\<close>: it serves nothing, and its stop channel is closed unless its socket could not be removed.\<close>

definition stopped :: "plugin_slot \<Rightarrow> bool" where
  "stopped p \<longleftrightarrow> \<not> ps_serving (sl_state p) \<and> (ps_stop (sl_state p) \<noteq> None \<longrightarrow> isl (sl_remove p))"

lemma undialled_state [simp]: "undialled (p\<lparr>sl_state := st\<rparr>) = undialled p"
  by (simp add: undialled_def)

lemma Stop_ok:
  assumes "slot_ok p"
  shows "\<exists>r st. Stop (sl_remove p) (sl_state p) = (r, st) \<and> \<not> is_panic r \<and> slot_ok (p\<lparr>sl_state := st\<rparr>)
     \<and> stopped (p\<lparr>sl_state := st\<rparr>) \<and> ps_orphans st = ps_orphans (sl_state p)"
  using assms
  by (cases "sl_remove p"; cases "ps_server (sl_state p)") (simp_all add: Stop_def slot_ok_def cleanup_def stopped_def)

lemma stopPlugins_ok:
  "list_all slot_ok ps \<Longrightarrow> \<exists>ps'. stopPlugins ps = Inr ps' \<and> list_all slot_ok ps' \<and> list_all stopped ps'
     \<and> slot_orphans ps' = slot_orphans ps"
proof (induction ps)
  case (Cons p ps)
  then obtain ps' where ps': "stopPlugins ps = Inr ps'" "list_all slot_ok ps'" "list_all stopped ps'" "slot_orphans ps' = slot_orphans ps"
    by auto
  obtain r st where st: "Stop (sl_remove p) (sl_state p) = (r, st)" "\<not> is_panic r" "slot_ok (p\<lparr>sl_state := st\<rparr>)"
    "stopped (p\<lparr>sl_state := st\<rparr>)" "ps_orphans st = ps_orphans (sl_state p)"
    using Stop_ok [of p] Cons.prems by fastforce
  have "stopPlugins (p # ps) = Inr (p\<lparr>sl_state := st\<rparr> # ps')"
    using st(1,2) ps'(1) by (auto simp: is_panic_def split: sum.splits go_error.splits)
  then show ?case using st ps' by (simp add: slot_orphans_def)
qed simp

text \<open>When its own socket cannot be dialled, \<open>Start\<close> forgets the server that already serves it, and \<open>Stop\<close> cannot reach it any more.\<close>

lemma dial_failure_leaves_server:
  assumes "fresh_slot p" and "sl_listen p = Inr ()" and "sl_dial p = Inl e"
  shows "\<exists>st. Start (sl_listen p) (sl_dial p) (sl_register p) (sl_remove p) (sl_state p) = (Inl e, st)
     \<and> ps_orphans st = 1 \<and> Stop (sl_remove p) st = (Inr (), st)"
  using assms by (simp add: Start_def Serve_def initialize_def cleanup_def Stop_def fresh_slot_def slot_ok_def)

lemma Start_ok:
  assumes "fresh_slot p" and "sl_devices p \<noteq> 0"
  shows "\<exists>r st. Start (sl_listen p) (sl_dial p) (sl_register p) (sl_remove p) (sl_state p) = (r, st) \<and> \<not> is_panic r
     \<and> slot_ok (p\<lparr>sl_state := st\<rparr>)"
proof -
  have new: "\<not> ps_server (sl_state p)" "\<not> ps_serving (sl_state p)" "ps_orphans (sl_state p) = 0"
    and np: "\<not> is_panic (sl_listen p)" "\<not> is_panic (sl_dial p)" "\<not> is_panic (sl_register p)" "\<not> is_panic (sl_remove p)"
    using assms(1) by (auto simp: fresh_slot_def slot_ok_def)
  define p1 where "p1 = p\<lparr>sl_state := (initialize (sl_state p))\<lparr>ps_serving := True\<rparr>\<rparr>"
  have ok: "slot_ok p1" using np new by (simp add: p1_def slot_ok_def initialize_def)
  obtain r2 st2 where stop: "Stop (sl_remove p) (sl_state p1) = (r2, st2)" "\<not> is_panic r2" "slot_ok (p\<lparr>sl_state := st2\<rparr>)"
    using Stop_ok [OF ok] by (auto simp: p1_def)
  show ?thesis
  proof (cases "isl (sl_listen p) \<or> isl (sl_dial p)")
    case True
    then show ?thesis using np new assms(2)
      by (cases "sl_listen p"; cases "sl_dial p")
        (auto simp: Start_def Serve_def cleanup_def initialize_def slot_ok_def undialled_def)
  next
    case False
    then have "Serve (sl_listen p) (sl_dial p) (initialize (sl_state p)) = (Inr (), sl_state p1)"
      by (cases "sl_listen p"; cases "sl_dial p") (auto simp: Serve_def p1_def)
    then show ?thesis
      using np ok stop by (cases "sl_register p"; cases r2) (auto simp: Start_def p1_def is_panic_def split: go_error.splits)
  qed
qed

lemma start_slots_ok:
  "list_all fresh_slot ps \<Longrightarrow> \<exists>r ps'. start_slots ps = (r, ps') \<and> \<not> is_panic r \<and> list_all slot_ok ps'
     \<and> map undialled ps' = map undialled ps"
proof (induction ps)
  case (Cons p ps)
  obtain r ps' where ps': "start_slots ps = (r, ps')" "\<not> is_panic r" "list_all slot_ok ps'" "map undialled ps' = map undialled ps"
    using Cons by auto
  have old: "slot_ok p" "list_all slot_ok ps" using Cons.prems by (auto simp: fresh_slot_def list_all_iff)
  show ?case
  proof (cases "sl_devices p = 0")
    case True
    then show ?thesis using ps' old by simp
  next
    case False
    obtain rp st where "Start (sl_listen p) (sl_dial p) (sl_register p) (sl_remove p) (sl_state p) = (rp, st)" "\<not> is_panic rp"
      "slot_ok (p\<lparr>sl_state := st\<rparr>)"
      using Start_ok [OF _ False] Cons.prems by fastforce
    then show ?thesis using ps' old False by (cases rp) auto
  qed
qed simp

lemma slot_orphans_undialled: "list_all slot_ok ps \<Longrightarrow> slot_orphans ps \<le> length (filter id (map undialled ps))"
proof (induction ps)
  case (Cons p ps)
  then show ?case by (cases "undialled p") (auto simp: slot_orphans_def slot_ok_def)
qed (simp add: slot_orphans_def)

definition outcome_ok :: "daemon_outcome \<Rightarrow> bool" where
  "outcome_ok out = (case out of
     Running d \<Rightarrow> list_all slot_ok (dn_plugins d)
   | Exited ps n \<Rightarrow> list_all slot_ok ps \<and> list_all stopped ps
   | Failed e \<Rightarrow> \<not> is_panic (Inl e :: unit result))"

text \<open>The servers that serve without a plugin that could stop them.\<close>

definition orphans :: "daemon_outcome \<Rightarrow> nat" where
  "orphans out = (case out of
     Running d \<Rightarrow> dn_orphans d + slot_orphans (dn_plugins d)
   | Exited ps n \<Rightarrow> n + slot_orphans ps
   | Failed e \<Rightarrow> 0)"

definition found_ok :: "plugin_slot list result \<times> daemon_event \<Rightarrow> bool" where
  "found_ok e \<longleftrightarrow> \<not> is_panic (fst e) \<and> (\<forall>ps. fst e = Inr ps \<longrightarrow> list_all fresh_slot ps)"

lemma start_run_ok:
  assumes "found_ok (found, ev)"
  shows "outcome_ok (start_run found timer n) \<and> orphans (start_run found timer n) \<le> n + dial_failures found"
proof (cases found)
  case (Inl e)
  then show ?thesis
    using assms by (cases e) (simp_all add: start_run_def startPlugins_def outcome_ok_def orphans_def found_ok_def)
next
  case (Inr ps)
  obtain r ps' where s: "start_slots ps = (r, ps')" "\<not> is_panic r" "list_all slot_ok ps'" "map undialled ps' = map undialled ps"
    using start_slots_ok [of ps] assms Inr by (simp add: found_ok_def) blast
  have "slot_orphans ps' \<le> length (filter undialled ps)"
    using slot_orphans_undialled [OF s(3)] s(4) by (simp add: filter_map comp_def)
  then show ?thesis
    using Inr s by (cases r)
      (auto simp: start_run_def startPlugins_def outcome_ok_def orphans_def dial_failures_def is_panic_def split: go_error.splits)
qed

lemma daemon_turn_ok:
  assumes "outcome_ok (Running d)" and "found_ok (found, ev)"
  shows "outcome_ok (daemon_turn found ev d) \<and> orphans (daemon_turn found ev d) \<le> orphans (Running d) + dial_failures found"
proof -
  have sl: "list_all slot_ok (dn_plugins d)" using assms(1) by (simp add: outcome_ok_def)
  obtain ps' where stop: "stopPlugins (dn_plugins d) = Inr ps'" "list_all slot_ok ps'" "list_all stopped ps'"
    "slot_orphans ps' = slot_orphans (dn_plugins d)"
    using stopPlugins_ok [OF sl] by blast
  have restart: "outcome_ok (restart_run found timer d) \<and> orphans (restart_run found timer d) \<le> orphans (Running d) + dial_failures found"
    for timer
    using start_run_ok [OF assms(2)] stop by (simp add: restart_run_def orphans_def)
  show ?thesis
    using restart assms(1) stop
    by (cases ev) (auto simp: daemon_turn_def outcome_ok_def orphans_def split: if_splits)
qed

interpretation nvidia_loop: metered_loop "\<lambda>(found, ev). daemon_turn found ev" Running found_ok outcome_ok orphans "\<lambda>e. dial_failures (fst e)"
  using daemon_turn_ok by unfold_locales auto

text \<open>The slots of plugins that were just retrieved are fresh.\<close>

lemma new_slot_fresh:
  "\<not> is_panic listen \<Longrightarrow> \<not> is_panic dial \<Longrightarrow> \<not> is_panic register \<Longrightarrow> \<not> is_panic remove \<Longrightarrow>
     fresh_slot (new_slot r listen dial register remove)"
  by (simp add: fresh_slot_def slot_ok_def new_slot_def)

text \<open>C24: the loop of the plugin process on every sequence of events, whatever file events, signals and time-outs come in, and
  whichever plugins fail to start.  The process never panics by closing a channel twice.  When a signal ends it,
  no plugin serves its socket any more, and every stop channel is closed except where a socket could not be removed.
  At every time the servers that serve without a plugin to stop them are at most as many as the starts whose
  socket could be opened but not dialled; without such a failure there is none.\<close>
theorem daemon_stops_plugins:
  assumes "\<not> is_panic found0" and "\<forall>ps. found0 = Inr ps \<longrightarrow> list_all fresh_slot ps"
    and "\<forall>(found, ev)\<in>set evs. \<not> is_panic found \<and> (\<forall>ps. found = Inr ps \<longrightarrow> list_all fresh_slot ps)"
    and "daemon_run evs (start_run found0 False 0) out"
  shows "(\<forall>s. out \<noteq> Failed (GoPanic s))
     \<and> (\<forall>ps n. out = Exited ps n \<longrightarrow>
          (\<forall>p\<in>set ps. \<not> ps_serving (sl_state p) \<and> (ps_stop (sl_state p) \<noteq> None \<longrightarrow> isl (sl_remove p))))
     \<and> orphans out \<le> dial_failures found0 + sum_list (map (\<lambda>(found, ev). dial_failures found) evs)"
proof -
  have evs: "list_all found_ok evs" using assms(3) by (auto simp: list_all_iff found_ok_def)
  have "found_ok (found0, Signal_HUP)" using assms(1,2) by (simp add: found_ok_def)
  note start = start_run_ok [OF this, of False 0]
  note run = assms(4) [unfolded daemon_run_def]
  have "outcome_ok out" using nvidia_loop.run_good [OF run] start evs by simp
  moreover have "orphans out \<le> dial_failures found0 + sum_list (map (\<lambda>(found, ev). dial_failures found) evs)"
    using nvidia_loop.run_meter [OF run] start evs by (simp add: case_prod_beta')
  ultimately show ?thesis by (auto simp: outcome_ok_def list_all_iff stopped_def)
qed

definition example_slot :: "unit result \<Rightarrow> unit result \<Rightarrow> plugin_slot" where
  "example_slot dial register = \<lparr>sl_devices = 1, sl_listen = Inr (), sl_dial = dial, sl_register = register, sl_remove = Inr (),
     sl_state = \<lparr>ps_server = False, ps_serving = False, ps_orphans = 0, ps_stop = None\<rparr>\<rparr>"

text \<open>
  At first the plugin cannot dial its socket, then the registration fails; the timer restarts the plugin each time, and a
  signal ends the process.  One server is left behind.
\<close>

theorem daemon_stops_plugins_witness:
  "\<exists>ps n. daemon_run [(Inr [example_slot (Inr ()) (Inl (Errorf ''no kubelet''))], RestartTimeout),
         (Inr [example_slot (Inr ()) (Inr ())], RestartTimeout), (Inr [], Signal_other)]
       (start_run (Inr [example_slot (Inl (Errorf ''timeout'')) (Inr ())]) False 0) (Exited ps n)
     \<and> (\<forall>p\<in>set ps. \<not> ps_serving (sl_state p)) \<and> n = 1 \<and> n + slot_orphans ps \<le> 1"
proof -
  let ?p0 = "example_slot (Inl (Errorf ''timeout'')) (Inr ())" and ?p1 = "example_slot (Inr ()) (Inl (Errorf ''no kubelet''))"
    and ?p2 = "example_slot (Inr ()) (Inr ())"
  let ?evs = "[(Inr [?p1], RestartTimeout), (Inr [?p2], RestartTimeout), (Inr [], Signal_other)] :: (plugin_slot list result \<times> daemon_event) list"
  let ?found = "Inr [?p0] :: plugin_slot list result"
  have fresh: "fresh_slot ?p0" "fresh_slot ?p1" "fresh_slot ?p2"
    by (simp_all add: fresh_slot_def slot_ok_def example_slot_def)
  let ?d0 = "\<lparr>dn_plugins = [?p0\<lparr>sl_state := \<lparr>ps_server = False, ps_serving = False, ps_orphans = 1, ps_stop = None\<rparr>\<rparr>],
     dn_timer = True, dn_orphans = 0\<rparr>"
  let ?d1 = "\<lparr>dn_plugins = [?p1], dn_timer = True, dn_orphans = 1\<rparr>"
  let ?d2 = "\<lparr>dn_plugins = [?p2\<lparr>sl_state := \<lparr>ps_server = True, ps_serving = True, ps_orphans = 0, ps_stop = Some False\<rparr>\<rparr>],
     dn_timer = False, dn_orphans = 1\<rparr>"
  note defs = Start_def Serve_def initialize_def Stop_def cleanup_def example_slot_def start_run_def startPlugins_def slot_orphans_def
  have s0: "start_run ?found False 0 = Running ?d0" by (simp add: defs)
  have s1: "daemon_turn (Inr [?p1]) RestartTimeout ?d0 = Running ?d1" by (simp add: daemon_turn_def restart_run_def defs)
  have s2: "daemon_turn (Inr [?p2]) RestartTimeout ?d1 = Running ?d2" by (simp add: daemon_turn_def restart_run_def defs)
  have s3: "daemon_turn (Inr []) Signal_other ?d2 = Exited [?p2] 1" by (simp add: daemon_turn_def defs)
  let ?turn = "\<lambda>(found, ev). daemon_turn found ev"
  have r3: "loop_run ?turn Running [(Inr [], Signal_other)] (Running ?d2) (Exited [?p2] 1)"
    by (rule loop_next) (simp add: s3 loop_done del: One_nat_def)
  have r2: "loop_run ?turn Running [(Inr [?p2], RestartTimeout), (Inr [], Signal_other)] (Running ?d1) (Exited [?p2] 1)"
    by (rule loop_next) (use r3 s2 in \<open>simp del: One_nat_def\<close>)
  have "loop_run ?turn Running ?evs (Running ?d0) (Exited [?p2] 1)"
    by (rule loop_next) (use r2 s1 in \<open>simp del: One_nat_def\<close>)
  then have run: "daemon_run ?evs (start_run ?found False 0) (Exited [?p2] 1)" unfolding s0 daemon_run_def .
  have found: "\<not> is_panic ?found" "\<forall>ps. ?found = Inr ps \<longrightarrow> list_all fresh_slot ps" using fresh by simp_all
  have evs: "\<forall>(found, ev)\<in>set ?evs. \<not> is_panic found \<and> (\<forall>ps. found = Inr ps \<longrightarrow> list_all fresh_slot ps)"
    using fresh by simp
  have "(\<forall>p\<in>set [?p2]. \<not> ps_serving (sl_state p)) \<and> orphans (Exited [?p2] 1) \<le> 1"
    using daemon_stops_plugins [OF found evs run] by (simp add: dial_failures_def undialled_def example_slot_def)
  then have "(\<forall>p\<in>set [?p2]. \<not> ps_serving (sl_state p)) \<and> (1::nat) = 1 \<and> 1 + slot_orphans [?p2] \<le> 1" by (simp add: orphans_def)
  then show ?thesis using run by (intro exI [of _ "[?p2]"] exI [of _ 1]) simp
qed

end
