(* ===== verification/Mlu_Allocator.thy ===== *)
theory Mlu_Allocator
  imports Types
begin

text \<open>
  The topology-aware allocators of the Cambricon device plugin (\<open>pkg/device-plugin/mlu/allocator\<close>:
  \<open>allocator.go\<close>, \<open>default.go\<close>, \<open>spider.go\<close>, \<open>board.go\<close>).  An allocator chooses \<open>sz\<close> cards among the
  available slots, preferring a set that the external tool \<open>cntopo\<close> reports as a ring with many
  non-conflicting rings.  The tool's answer is the parameter \<open>get_rings\<close>; the order that
  \<open>sort.Slice\<close> and Go's map iteration produce is a parameter too, known only to sort.  The locale
  \<open>device_allocator\<close> is the interface \<open>Allocator\<close>; it is interpreted on the three implementations.
\<close>

section \<open>Data\<close>

text \<open>\<open>cndev.Device\<close> (the PCIe address apart) and \<open>cntopo.Ring\<close>.\<close>

record mlu_device =
  md_Slot :: nat
  md_UUID :: string
  md_SN :: string
  md_Path :: string
  md_MotherBoard :: string

record ring =
  rg_Ordinals :: "nat list"
  rg_NonConflictRingNum :: int

type_synonym mlu_devices = "(string, mlu_device) gomap"
type_synonym ring_finder = "nat list \<Rightarrow> int \<Rightarrow> ring list result"

definition BestEffort :: string where "BestEffort = ''best-effort''"
definition Restricted :: string where "Restricted = ''restricted''"
definition Guaranteed :: string where "Guaranteed = ''guaranteed''"

lemmas policy_names = BestEffort_def Restricted_def Guaranteed_def

text \<open>What \<open>cntopo\<close> documents: a ring of the asked sz within the white list.\<close>

definition rings_within :: "ring_finder \<Rightarrow> bool" where
  "rings_within get_rings \<longleftrightarrow>
     (\<forall>available sz rings. get_rings available sz = Inr rings \<longrightarrow>
        (\<forall>r\<in>set rings. distinct (rg_Ordinals r) \<and> set (rg_Ordinals r) \<subseteq> set available
           \<and> int (length (rg_Ordinals r)) = sz))"

definition ring_Less :: "ring \<Rightarrow> ring \<Rightarrow> bool" where
  "ring_Less a b \<longleftrightarrow> rg_NonConflictRingNum a > rg_NonConflictRingNum b"

definition shorter :: "nat list \<Rightarrow> nat list \<Rightarrow> bool" where
  "shorter a b \<longleftrightarrow> length a < length b"

section \<open>Helpers\<close>

definition contains :: "nat list \<Rightarrow> nat \<Rightarrow> bool" where
  "contains st dev \<longleftrightarrow> dev \<in> set st"

definition containsAll :: "nat list \<Rightarrow> nat list \<Rightarrow> bool" where
  "containsAll st devs \<longleftrightarrow> list_all (contains st) devs"

text \<open>The available slots by the key \<open>board_of\<close> of their card, as the map of slices Go builds.\<close>

definition group_slots :: "(mlu_device \<Rightarrow> string) \<Rightarrow> nat list \<Rightarrow> mlu_devices \<Rightarrow> (string, nat list) gomap" where
  "group_slots board_of available devs =
     fold (\<lambda>(_, dev) boards.
             if \<not> contains available (md_Slot dev) then boards
             else mset_to boards (board_of dev) (mget_default [] boards (board_of dev) @ [md_Slot dev])) devs []"

definition splitByMotherBoards ::
  "(nat list list \<Rightarrow> nat list list) \<Rightarrow> nat list \<Rightarrow> mlu_devices \<Rightarrow> nat list list" where
  "splitByMotherBoards srt available devs = srt (map snd (group_slots md_MotherBoard available devs))"

definition splitByBoards :: "(nat list list \<Rightarrow> nat list list) \<Rightarrow> nat list \<Rightarrow> mlu_devices \<Rightarrow> nat list list" where
  "splitByBoards srt available devs = srt (map snd (group_slots md_SN available devs))"

text \<open>
  The closure \<open>allocateRemainingFrom\<close> with the variables \<open>needed\<close> and \<open>allocated\<close> it captures, and
  the loops that call it on one list of devices after another until it reports that enough are
  allocated.
\<close>

fun allocateRemainingFrom :: "nat list \<Rightarrow> int \<times> nat list \<Rightarrow> bool \<times> int \<times> nat list" where
  "allocateRemainingFrom [] s = (False, s)"
| "allocateRemainingFrom (d # devices) (needed, allocated) =
     (if contains allocated d then allocateRemainingFrom devices (needed, allocated)
      else if needed - 1 = 0 then (True, needed - 1, allocated @ [d])
      else allocateRemainingFrom devices (needed - 1, allocated @ [d]))"

fun allocate_in_turn :: "nat list list \<Rightarrow> int \<times> nat list \<Rightarrow> nat list option" where
  "allocate_in_turn [] s = None"
| "allocate_in_turn (devices # rest) s =
     (case allocateRemainingFrom devices s of
        (True, _, allocated) \<Rightarrow> Some allocated
      | (False, s') \<Rightarrow> allocate_in_turn rest s')"

text \<open>The best rings of a sorted list, and the first of them that lies within one of the groups.\<close>

definition best_candidates :: "ring list \<Rightarrow> ring list" where
  "best_candidates rings = takeWhile (\<lambda>r. \<not> rg_NonConflictRingNum r < rg_NonConflictRingNum (hd rings)) rings"

definition choose_ring :: "nat list list \<Rightarrow> ring list \<Rightarrow> nat list" where
  "choose_ring groups candidates =
     (case [c. g \<leftarrow> groups, c \<leftarrow> candidates, containsAll g (rg_Ordinals c)] of
        c # _ \<Rightarrow> rg_Ordinals c
      | [] \<Rightarrow> rg_Ordinals (hd candidates))"

section \<open>The default allocator\<close>

text \<open>The sign of Go's remainder is that of the dividend.\<close>

definition go_rem :: "int \<Rightarrow> int \<Rightarrow> int" where
  "go_rem a b = a - b * go_div a b"

definition default_sizeAlwaysFailsToFormRing :: "int \<Rightarrow> bool" where
  "default_sizeAlwaysFailsToFormRing sz \<longleftrightarrow> go_rem sz 2 = 1"

text \<open>
  \<open>xs[0:n]\<close> of a slice of capacity \<open>c\<close>: the bound may exceed the length up to the capacity, and the
  elements beyond the length are the zeroes of the backing array.
\<close>

definition reslice :: "nat \<Rightarrow> nat list \<Rightarrow> int \<Rightarrow> nat list result" where
  "reslice c xs n =
     (if n < 0 \<or> int (max c (length xs)) < n then Inl (GoPanic ''slice bounds out of range'')
      else Inr (take (nat n) (xs @ replicate (c - length xs) 0)))"

definition default_Allocate ::
  "ring_finder \<Rightarrow> (ring list \<Rightarrow> ring list) \<Rightarrow> nat \<Rightarrow> string \<Rightarrow> nat list \<Rightarrow> nat list \<Rightarrow> int \<Rightarrow> nat list result" where
  "default_Allocate get_rings ring_sort c policy available required sz =
     bind_result (get_rings available sz) (\<lambda>unsorted.
       case ring_sort unsorted of
         [] \<Rightarrow>
           if policy \<noteq> BestEffort \<and> \<not> default_sizeAlwaysFailsToFormRing sz
           then Inl (Errorf ''found no rings'')
           else reslice c available sz
       | r # _ \<Rightarrow> Inr (rg_Ordinals r))"

section \<open>The spider allocator\<close>

definition spider_sizeAlwaysFailsToFormRing :: "int \<Rightarrow> bool" where
  "spider_sizeAlwaysFailsToFormRing sz \<longleftrightarrow> sz \<le> 1 \<or> sz > 8"

definition spider_Allocate ::
  "ring_finder \<Rightarrow> (ring list \<Rightarrow> ring list) \<Rightarrow> (nat list list \<Rightarrow> nat list list) \<Rightarrow> string \<Rightarrow> mlu_devices \<Rightarrow>
   nat list \<Rightarrow> nat list \<Rightarrow> int \<Rightarrow> nat list result" where
  "spider_Allocate get_rings ring_sort board_sort policy devs available required sz =
     bind_result (get_rings available sz) (\<lambda>unsorted.
       let rings = ring_sort unsorted;
           mbs = splitByMotherBoards board_sort available devs
       in if rings = [] then
            (if policy \<noteq> BestEffort \<and> \<not> spider_sizeAlwaysFailsToFormRing sz
             then Inl (Errorf ''found no rings'')
             else case allocate_in_turn mbs (sz, []) of
                    Some allocated \<Rightarrow> Inr allocated
                  | None \<Rightarrow> Inl (Errorf ''finished allocateRemainingFrom, should not be here''))
          else if policy = Restricted \<and> sz = 4 \<and> rg_NonConflictRingNum (hd rings) < 4
          then Inl (Errorf ''max non-conflict ring num'')
          else if policy = Restricted \<and> sz = 2 \<and> rg_NonConflictRingNum (hd rings) < 2
          then Inl (Errorf ''max non-conflict ring num'')
          else Inr (choose_ring mbs (best_candidates rings)))"

section \<open>The board allocator\<close>

definition board_sizeAlwaysFailsToFormRing :: "int \<Rightarrow> bool" where
  "board_sizeAlwaysFailsToFormRing sz \<longleftrightarrow> sz > 8 \<or> sz \<le> 1 \<or> go_rem sz 2 = 1"

text \<open>Groups of another shape than two times eight are not used.\<close>

definition getCPUGroups :: "nat list list result \<Rightarrow> nat list list" where
  "getCPUGroups GetMLULinkGroups =
     (case GetMLULinkGroups of
        Inl _ \<Rightarrow> []
      | Inr groups \<Rightarrow> if length groups \<noteq> 2 \<or> length (hd groups) \<noteq> 8 then [] else groups)"

fun split_groups :: "nat list \<Rightarrow> nat list \<Rightarrow> nat list \<Rightarrow> nat list \<times> nat list \<Rightarrow> (nat list \<times> nat list) result" where
  "split_groups g0 g1 [] acc = Inr acc"
| "split_groups g0 g1 (dev # devs) (group0, group1) =
     (if contains g0 dev then split_groups g0 g1 devs (group0 @ [dev], group1)
      else if contains g1 dev then split_groups g0 g1 devs (group0, group1 @ [dev])
      else Inl (Errorf ''dev not in groups''))"

definition filterAvaliableDevsByGroup :: "nat list list \<Rightarrow> nat list \<Rightarrow> nat list list result" where
  "filterAvaliableDevsByGroup groups available =
     (case groups of
        [g0, g1] \<Rightarrow>
          bind_result (split_groups g0 g1 available ([], [])) (\<lambda>(group0, group1).
            Inr (if length group0 > length group1 then [group1, group0] else [group0, group1]))
      | _ \<Rightarrow> Inl (Errorf ''allocator groups''))"

definition board_Allocate ::
  "ring_finder \<Rightarrow> (ring list \<Rightarrow> ring list) \<Rightarrow> (nat list list \<Rightarrow> nat list list) \<Rightarrow> string \<Rightarrow> mlu_devices \<Rightarrow> nat list list \<Rightarrow>
   nat list \<Rightarrow> nat list \<Rightarrow> int \<Rightarrow> nat list result" where
  "board_Allocate get_rings ring_sort board_sort policy devs cpu_groups available required sz =
     bind_result (get_rings available sz) (\<lambda>unsorted.
       let rings = ring_sort unsorted;
           boards = splitByBoards board_sort available devs;
           filtered = filterAvaliableDevsByGroup cpu_groups available;
           groups = (case filtered of Inl _ \<Rightarrow> [] | Inr gs \<Rightarrow> gs)
       in if rings = [] then
            (if policy \<noteq> BestEffort \<and> \<not> board_sizeAlwaysFailsToFormRing sz
             then Inl (Errorf ''found no rings for size'')
             else case allocate_in_turn
                         ((case filtered of Inl _ \<Rightarrow> boards | Inr _ \<Rightarrow> [])
                          @ [board. grp \<leftarrow> groups, board \<leftarrow> boards, containsAll grp board]
                          @ [available]) (sz, []) of
                    Some allocated \<Rightarrow> Inr allocated
                  | None \<Rightarrow> Inl (Errorf ''allocated from all available devices, should not be here''))
          else if policy = Restricted \<and> sz = 2 \<and> rg_NonConflictRingNum (hd rings) < 2
          then Inl (Errorf ''max non-conflict ring num'')
          else Inr (choose_ring groups (best_candidates rings)))"

section \<open>The choice of the allocator\<close>

datatype allocator_kind = SpiderAllocator | BoardAllocator | DefaultAllocator

definition New :: "string \<Rightarrow> allocator_kind" where
  "New model =
     (if Contains model ''MLU290'' \<or> model = ''MLU370-M8'' then SpiderAllocator
      else if model = ''MLU370-X8'' then BoardAllocator
      else DefaultAllocator)"

section \<open>Lemmas\<close>

interpretation ring_order: strict_weak_order ring_Less
  by unfold_locales (auto simp: ring_Less_def)

interpretation board_order: strict_weak_order shorter
  by unfold_locales (auto simp: shorter_def)

lemma containsAll_iff: "containsAll g ds \<longleftrightarrow> set ds \<subseteq> set g"
  by (auto simp: containsAll_def contains_def list_all_iff)

text \<open>The closure keeps what is allocated, adds fresh devices of its list, and stops at the exact number.\<close>

lemma allocateRemainingFrom_sound:
  "allocateRemainingFrom ds (needed, al) = (b, needed', al') \<Longrightarrow> distinct al \<Longrightarrow> 0 < needed \<Longrightarrow>
     distinct al' \<and> set al \<subseteq> set al' \<and> set al' \<subseteq> set al \<union> set ds
     \<and> int (length al') + needed' = int (length al) + needed
     \<and> (b \<longleftrightarrow> needed' = 0) \<and> 0 \<le> needed' \<and> (\<not> b \<longrightarrow> set ds \<subseteq> set al')"
proof (induction ds arbitrary: needed al)
  case (Cons d ds)
  consider (old) "d \<in> set al" | (last) "d \<notin> set al" "needed = 1" | (more) "d \<notin> set al" "1 < needed"
    using Cons.prems(3) by linarith
  then show ?case
  proof cases
    case old
    then show ?thesis using Cons.prems Cons.IH [of needed al] by (auto simp: contains_def)
  next
    case last
    then show ?thesis using Cons.prems by (auto simp: contains_def)
  next
    case more
    then have "allocateRemainingFrom ds (needed - 1, al @ [d]) = (b, needed', al')"
      using Cons.prems(1) by (simp add: contains_def)
    from Cons.IH [OF this] show ?thesis using Cons.prems more by auto
  qed
qed auto

lemma allocate_in_turn_sound:
  "allocate_in_turn dss (needed, al) = Some al' \<Longrightarrow> distinct al \<Longrightarrow> 0 < needed \<Longrightarrow>
     distinct al' \<and> set al' \<subseteq> set al \<union> \<Union> (set ` set dss) \<and> int (length al') = int (length al) + needed"
proof (induction dss arbitrary: needed al)
  case (Cons ds dss)
  obtain b needed1 al1 where a: "allocateRemainingFrom ds (needed, al) = (b, needed1, al1)"
    by (metis prod_cases3)
  note s = allocateRemainingFrom_sound [OF a Cons.prems(2,3)]
  show ?case
  proof (cases b)
    case True
    then show ?thesis using Cons.prems(1) a s by auto
  next
    case False
    then show ?thesis using Cons.prems(1) Cons.IH [of needed1 al1] a s by (fastforce simp: less_le)
  qed
qed simp

text \<open>It runs out of lists only when all of their devices together are too few.\<close>

lemma allocate_in_turn_None:
  "allocate_in_turn dss (needed, al) = None \<Longrightarrow> distinct al \<Longrightarrow> 0 < needed \<Longrightarrow>
     \<exists>al'. distinct al' \<and> \<Union> (set ` set dss) \<subseteq> set al' \<and> set al \<subseteq> set al'
       \<and> int (length al') < int (length al) + needed"
proof (induction dss arbitrary: needed al)
  case (Cons ds dss)
  obtain b needed1 al1 where a: "allocateRemainingFrom ds (needed, al) = (b, needed1, al1)"
    by (metis prod_cases3)
  note s = allocateRemainingFrom_sound [OF a Cons.prems(2,3)]
  have nb: "\<not> b" using Cons.prems(1) a by (cases b) auto
  then obtain al' where "distinct al'" "\<Union> (set ` set dss) \<subseteq> set al'" "set al1 \<subseteq> set al'"
    "int (length al') < int (length al1) + needed1"
    using Cons.IH [of needed1 al1] Cons.prems(1) a s by (auto simp: less_le)
  then show ?case using s nb by (intro exI [of _ al']) auto
qed auto

lemma allocate_in_turn_enough:
  assumes "sz \<le> int (card (\<Union> (set ` set dss)))" and "0 < sz"
  shows "\<exists>al. allocate_in_turn dss (sz, []) = Some al"
proof (rule ccontr)
  assume "\<not> ?thesis"
  then obtain al' where al': "distinct al'" "\<Union> (set ` set dss) \<subseteq> set al'" "int (length al') < sz"
    using allocate_in_turn_None [of dss sz "[]"] assms(2) by auto
  have "card (\<Union> (set ` set dss)) \<le> card (set al')" by (rule card_mono) (simp_all add: al')
  then show False using assms(1) al' by (simp add: distinct_card)
qed

text \<open>The slots in the groups are the available ones that have a card.\<close>

lemma group_slots_fold:
  "\<Union> (set ` snd ` set (fold (\<lambda>(_, dev) boards.
             if \<not> contains available (md_Slot dev) then boards
             else mset_to boards (key dev) (mget_default [] boards (key dev) @ [md_Slot dev])) devs m))
   = \<Union> (set ` snd ` set m) \<union> (md_Slot ` snd ` set devs \<inter> set available)"
  if "map_ok m" for m
  using that
proof (induction devs arbitrary: m)
  case (Cons kd devs)
  obtain k d where kd: "kd = (k, d)" by (cases kd)
  have step: "\<Union> (set ` snd ` set (mset_to m b (mget_default [] m b @ [x]))) = insert x (\<Union> (set ` snd ` set m))" for b x
    using Cons.prems
  proof (induction m)
    case (Cons e m)
    obtain b' l where e: "e = (b', l)" by (cases e)
    show ?case using Cons e by (auto simp: mget_default_def)
  qed (simp add: mget_default_def)
  show ?case
    using Cons.IH [of "mset_to m (key d) (mget_default [] m (key d) @ [md_Slot d])"] Cons.IH [of m] Cons.prems
      step [of "key d" "md_Slot d"] kd
    by (auto simp: contains_def)
qed simp

lemma group_slots_union:
  "\<Union> (set ` snd ` set (group_slots key available devs)) = md_Slot ` snd ` set devs \<inter> set available"
  unfolding group_slots_def using group_slots_fold [of "[]"] by simp

lemma split_union:
  assumes "sorts_by shorter srt"
  shows "\<Union> (set ` set (splitByMotherBoards srt available devs)) = md_Slot ` snd ` set devs \<inter> set available"
    "\<Union> (set ` set (splitByBoards srt available devs)) = md_Slot ` snd ` set devs \<inter> set available"
  unfolding splitByMotherBoards_def splitByBoards_def sorts_by_set [OF assms] set_map
  by (rule group_slots_union)+

text \<open>The chosen ring is one of the best.\<close>

lemma best_candidates_sorted:
  assumes "sorts_by ring_Less srt" and "srt rs \<noteq> []"
  shows "best_candidates (srt rs) \<noteq> [] \<and> set (best_candidates (srt rs)) \<subseteq> set rs
     \<and> (\<forall>c\<in>set (best_candidates (srt rs)). \<forall>r\<in>set rs. rg_NonConflictRingNum r \<le> rg_NonConflictRingNum c)"
proof -
  have hd_max: "rg_NonConflictRingNum r \<le> rg_NonConflictRingNum (hd (srt rs))" if "r \<in> set rs" for r
    using ring_order.hd_minimal [OF assms(1) that] by (simp add: ring_Less_def)
  have "best_candidates (srt rs) \<noteq> []"
    using assms(2) by (cases "srt rs") (simp_all add: best_candidates_def)
  moreover have "c \<in> set (srt rs) \<and> \<not> rg_NonConflictRingNum c < rg_NonConflictRingNum (hd (srt rs))"
    if "c \<in> set (best_candidates (srt rs))" for c
    using that unfolding best_candidates_def by (auto dest: set_takeWhileD)
  ultimately show ?thesis
    using hd_max sorts_by_set [OF assms(1)] by force
qed

lemma choose_ring_mem:
  assumes "candidates \<noteq> []"
  shows "\<exists>c\<in>set candidates. choose_ring groups candidates = rg_Ordinals c"
proof (cases "[c. g \<leftarrow> groups, c \<leftarrow> candidates, containsAll g (rg_Ordinals c)]")
  case Nil
  then show ?thesis unfolding choose_ring_def Nil using assms by (intro bexI [of _ "hd candidates"]) auto
next
  case (Cons c cs)
  then have "c \<in> set [c. g \<leftarrow> groups, c \<leftarrow> candidates, containsAll g (rg_Ordinals c)]" by simp
  then have "c \<in> set candidates" by (auto split: if_splits)
  then show ?thesis unfolding choose_ring_def Cons by auto
qed

section \<open>The interface\<close>

text \<open>What the server relies on when it calls \<open>m.allocator.Allocate\<close>.\<close>

locale device_allocator =
  fixes alloc :: "nat list \<Rightarrow> nat list \<Rightarrow> int \<Rightarrow> nat list result"
    and ready :: "nat list \<Rightarrow> int \<Rightarrow> bool"
  assumes alloc_sound:
    "ready available sz \<Longrightarrow> alloc available required sz = Inr devs \<Longrightarrow>
       distinct devs \<and> set devs \<subseteq> set available \<and> int (length devs) = sz"
begin

lemma alloc_all:
  assumes "ready available sz" and "alloc available required sz = Inr devs" and "sz = int (length available)"
    and "distinct available"
  shows "mset devs = mset available"
proof -
  have "card (set devs) = card (set available)"
    using alloc_sound [OF assms(1,2)] assms(3,4) by (simp add: distinct_card)
  then have "set devs = set available"
    using alloc_sound [OF assms(1,2)] by (intro card_subset_eq) auto
  then show ?thesis
    using alloc_sound [OF assms(1,2)] assms(4) by (simp add: set_eq_iff_mset_eq_distinct)
qed

end

text \<open>The external parts of an allocator: the tool, the sorts, the capacity of the slice, the CPU groups.\<close>

record topology_env =
  te_rings :: ring_finder
  te_ring_sort :: "ring list \<Rightarrow> ring list"
  te_board_sort :: "nat list list \<Rightarrow> nat list list"
  te_cap :: nat
  te_groups :: "nat list list result"

definition topology_ok :: "topology_env \<Rightarrow> bool" where
  "topology_ok env \<longleftrightarrow>
     rings_within (te_rings env) \<and> sorts_by ring_Less (te_ring_sort env) \<and> sorts_by shorter (te_board_sort env)"

text \<open>The dynamic call of the interface's method.\<close>

definition Allocator_Allocate ::
  "allocator_kind \<Rightarrow> topology_env \<Rightarrow> string \<Rightarrow> mlu_devices \<Rightarrow> nat list \<Rightarrow> nat list \<Rightarrow> int \<Rightarrow> nat list result" where
  "Allocator_Allocate kind env policy devs =
     (case kind of
        SpiderAllocator \<Rightarrow> spider_Allocate (te_rings env) (te_ring_sort env) (te_board_sort env) policy devs
      | BoardAllocator \<Rightarrow>
          board_Allocate (te_rings env) (te_ring_sort env) (te_board_sort env) policy devs (getCPUGroups (te_groups env))
      | DefaultAllocator \<Rightarrow> default_Allocate (te_rings env) (te_ring_sort env) (te_cap env) policy)"

text \<open>The rings: what is chosen from a non-empty list is one of the largest.\<close>

lemma ring_within:
  assumes "topology_ok env" and "te_rings env available sz = Inr rings" and "r \<in> set rings"
  shows "distinct (rg_Ordinals r) \<and> set (rg_Ordinals r) \<subseteq> set available \<and> int (length (rg_Ordinals r)) = sz"
  using assms unfolding topology_ok_def rings_within_def by blast

lemma chosen_ring:
  assumes "topology_ok env" and "te_rings env available sz = Inr rings" and "te_ring_sort env rings \<noteq> []"
  shows "\<exists>r\<in>set rings. choose_ring groups (best_candidates (te_ring_sort env rings)) = rg_Ordinals r
     \<and> (\<forall>r'\<in>set rings. rg_NonConflictRingNum r' \<le> rg_NonConflictRingNum r)"
proof -
  have "sorts_by ring_Less (te_ring_sort env)" using assms(1) by (simp add: topology_ok_def)
  note best = best_candidates_sorted [OF this assms(3)]
  then show ?thesis
    using choose_ring_mem [of "best_candidates (te_ring_sort env rings)" groups] by blast
qed

lemma first_ring:
  assumes "topology_ok env" and "te_ring_sort env rings = r # rs"
  shows "r \<in> set rings \<and> (\<forall>r'\<in>set rings. rg_NonConflictRingNum r' \<le> rg_NonConflictRingNum r)"
proof -
  have srt: "sorts_by ring_Less (te_ring_sort env)" using assms(1) by (simp add: topology_ok_def)
  show ?thesis
    using ring_order.hd_minimal [OF srt, of _ rings] sorts_by_set [OF srt, of rings] assms(2)
    by (auto simp: ring_Less_def not_less)
qed

lemma sorted_empty: "topology_ok env \<Longrightarrow> te_ring_sort env rings = [] \<longleftrightarrow> rings = []"
  by (metis length_0_conv sorts_by_length topology_ok_def)

text \<open>The lists a board allocator draws from lie within the available slots.\<close>

lemma spider_lists:
  "topology_ok env \<Longrightarrow>
     \<Union> (set ` set (splitByMotherBoards (te_board_sort env) available devs)) = md_Slot ` snd ` set devs \<inter> set available"
  by (rule split_union) (simp add: topology_ok_def)

lemma board_lists:
  assumes "topology_ok env"
  shows "\<Union> (set ` set ((case filtered of Inl _ \<Rightarrow> splitByBoards (te_board_sort env) available devs | Inr _ \<Rightarrow> [])
      @ [board. grp \<leftarrow> groups, board \<leftarrow> splitByBoards (te_board_sort env) available devs, containsAll grp board]
      @ [available])) = set available"
proof -
  have sub: "set b \<subseteq> set available" if "b \<in> set (splitByBoards (te_board_sort env) available devs)" for b
    using split_union(2) [of "te_board_sort env" available devs] assms that by (auto simp: topology_ok_def)
  show ?thesis
    by (rule equalityI) (auto split: sum.splits if_splits dest: sub)
qed

lemma reslice_sound:
  assumes "reslice c xs n = Inr ys" and "distinct xs" and "0 < n" and "n \<le> int (length xs)"
  shows "distinct ys \<and> set ys \<subseteq> set xs \<and> int (length ys) = n"
  using assms by (auto simp: reslice_def distinct_take dest: in_set_takeD split: if_splits)

definition allocator_ready :: "allocator_kind \<Rightarrow> topology_env \<Rightarrow> nat list \<Rightarrow> int \<Rightarrow> bool" where
  "allocator_ready kind env available sz \<longleftrightarrow>
     topology_ok env \<and> 0 < sz \<and> (kind = DefaultAllocator \<longrightarrow> distinct available \<and> sz \<le> int (length available))"

lemma allocated_sound:
  assumes "allocate_in_turn dss (sz, []) = Some al" and "0 < sz" and "\<Union> (set ` set dss) \<subseteq> set available"
  shows "distinct al \<and> set al \<subseteq> set available \<and> int (length al) = sz"
  using allocate_in_turn_sound [OF assms(1)] assms(2,3) by auto

lemma chosen_sound:
  assumes "topology_ok env" and "te_rings env available sz = Inr rings" and "te_ring_sort env rings \<noteq> []"
    and "al = choose_ring groups (best_candidates (te_ring_sort env rings))"
  shows "distinct al \<and> set al \<subseteq> set available \<and> int (length al) = sz"
  using chosen_ring [OF assms(1-3)] ring_within [OF assms(1,2)] assms(4) by metis

lemma spider_sound:
  assumes ok: "topology_ok env" and pos: "0 < sz"
    and alloc: "Allocator_Allocate SpiderAllocator env policy devs available required sz = Inr al"
  shows "distinct al \<and> set al \<subseteq> set available \<and> int (length al) = sz"
proof -
  obtain rings where rings: "te_rings env available sz = Inr rings"
    using alloc by (auto simp: Allocator_Allocate_def spider_Allocate_def bind_result_Inr_iff)
  let ?mbs = "splitByMotherBoards (te_board_sort env) available devs"
  consider "te_ring_sort env rings = []" "allocate_in_turn ?mbs (sz, []) = Some al"
    | "te_ring_sort env rings \<noteq> []" "al = choose_ring ?mbs (best_candidates (te_ring_sort env rings))"
    using alloc rings
    by (auto simp: Allocator_Allocate_def spider_Allocate_def Let_def split: if_splits option.splits)
  then show ?thesis
  proof cases
    case 1
    show ?thesis by (rule allocated_sound [OF 1(2) pos]) (simp only: spider_lists [OF ok], blast)
  next
    case 2
    then show ?thesis by (rule chosen_sound [OF ok rings])
  qed
qed

lemma board_sound:
  assumes ok: "topology_ok env" and pos: "0 < sz"
    and alloc: "Allocator_Allocate BoardAllocator env policy devs available required sz = Inr al"
  shows "distinct al \<and> set al \<subseteq> set available \<and> int (length al) = sz"
proof -
  obtain rings where rings: "te_rings env available sz = Inr rings"
    using alloc by (auto simp: Allocator_Allocate_def board_Allocate_def bind_result_Inr_iff)
  define filtered where "filtered = filterAvaliableDevsByGroup (getCPUGroups (te_groups env)) available"
  define groups where "groups = (case filtered of Inl _ \<Rightarrow> [] | Inr gs \<Rightarrow> gs)"
  let ?boards = "splitByBoards (te_board_sort env) available devs"
  consider "te_ring_sort env rings = []"
      "allocate_in_turn ((case filtered of Inl _ \<Rightarrow> ?boards | Inr _ \<Rightarrow> [])
         @ [board. grp \<leftarrow> groups, board \<leftarrow> ?boards, containsAll grp board] @ [available]) (sz, []) = Some al"
    | "te_ring_sort env rings \<noteq> []" "al = choose_ring groups (best_candidates (te_ring_sort env rings))"
    using alloc rings unfolding groups_def filtered_def
    by (auto simp: Allocator_Allocate_def board_Allocate_def Let_def split: if_splits option.splits)
  then show ?thesis
  proof cases
    case 1
    show ?thesis by (rule allocated_sound [OF 1(2) pos]) (simp only: board_lists [OF ok] subset_refl)
  next
    case 2
    then show ?thesis by (rule chosen_sound [OF ok rings])
  qed
qed

lemma default_sound:
  assumes "topology_ok env" and "0 < sz" and "distinct available" and "sz \<le> int (length available)"
    and alloc: "Allocator_Allocate DefaultAllocator env policy devs available required sz = Inr al"
  shows "distinct al \<and> set al \<subseteq> set available \<and> int (length al) = sz"
proof -
  obtain rings where rings: "te_rings env available sz = Inr rings"
    using alloc by (auto simp: Allocator_Allocate_def default_Allocate_def bind_result_Inr_iff)
  show ?thesis
  proof (cases "te_ring_sort env rings")
    case Nil
    then have "reslice (te_cap env) available sz = Inr al"
      using alloc rings by (auto simp: Allocator_Allocate_def default_Allocate_def split: if_splits)
    then show ?thesis by (rule reslice_sound [OF _ assms(3,2,4)])
  next
    case (Cons r rs)
    then have "al = rg_Ordinals r"
      using alloc rings by (simp add: Allocator_Allocate_def default_Allocate_def)
    then show ?thesis
      using ring_within [OF assms(1) rings] first_ring [OF assms(1) Cons] by blast
  qed
qed

lemma Allocator_sound:
  assumes "allocator_ready kind env available sz"
    and "Allocator_Allocate kind env policy devs available required sz = Inr al"
  shows "distinct al \<and> set al \<subseteq> set available \<and> int (length al) = sz"
proof (cases kind)
  case SpiderAllocator
  show ?thesis by (rule spider_sound) (use assms SpiderAllocator in \<open>auto simp: allocator_ready_def\<close>)
next
  case BoardAllocator
  show ?thesis by (rule board_sound) (use assms BoardAllocator in \<open>auto simp: allocator_ready_def\<close>)
next
  case DefaultAllocator
  show ?thesis by (rule default_sound) (use assms DefaultAllocator in \<open>auto simp: allocator_ready_def\<close>)
qed

interpretation mlu_allocator: device_allocator "Allocator_Allocate kind env policy devs" "allocator_ready kind env"
  for kind env policy devs
  by unfold_locales (rule Allocator_sound)

section \<open>Properties of the allocators\<close>

lemma spider_best_effort:
  assumes ok: "topology_ok env" and rings: "te_rings env available sz = Inr rings" and pos: "0 < sz"
    and cards: "set available \<subseteq> md_Slot ` snd ` set devs" and "sz \<le> int (card (set available))"
  shows "\<exists>al. Allocator_Allocate SpiderAllocator env BestEffort devs available required sz = Inr al"
proof -
  let ?mbs = "splitByMotherBoards (te_board_sort env) available devs"
  have "\<exists>al. allocate_in_turn ?mbs (sz, []) = Some al"
    by (rule allocate_in_turn_enough [OF _ pos])
      (simp only: spider_lists [OF ok] Int_absorb1 [OF cards] assms(5))
  then show ?thesis
    using rings by (auto simp: Allocator_Allocate_def spider_Allocate_def Let_def policy_names)
qed

lemma board_best_effort:
  assumes ok: "topology_ok env" and rings: "te_rings env available sz = Inr rings" and pos: "0 < sz"
    and "sz \<le> int (card (set available))"
  shows "\<exists>al. Allocator_Allocate BoardAllocator env BestEffort devs available required sz = Inr al"
proof -
  let ?boards = "splitByBoards (te_board_sort env) available devs"
  define filtered where "filtered = filterAvaliableDevsByGroup (getCPUGroups (te_groups env)) available"
  define groups where "groups = (case filtered of Inl _ \<Rightarrow> [] | Inr gs \<Rightarrow> gs)"
  have "\<exists>al. allocate_in_turn ((case filtered of Inl _ \<Rightarrow> ?boards | Inr _ \<Rightarrow> [])
         @ [board. grp \<leftarrow> groups, board \<leftarrow> ?boards, containsAll grp board] @ [available]) (sz, []) = Some al"
    by (rule allocate_in_turn_enough [OF _ pos]) (simp only: board_lists [OF ok] assms(4))
  then show ?thesis
    using rings unfolding groups_def filtered_def
    by (auto simp: Allocator_Allocate_def board_Allocate_def Let_def policy_names)
qed

lemma best_effort_succeeds:
  assumes "topology_ok env" and "te_rings env available sz = Inr rings" and "0 < sz" and "distinct available"
    and "set available \<subseteq> md_Slot ` snd ` set devs" and "sz \<le> int (length available)"
  shows "\<exists>al. Allocator_Allocate kind env BestEffort devs available required sz = Inr al"
proof (cases kind)
  case DefaultAllocator
  then show ?thesis
    using assms by (auto simp: Allocator_Allocate_def default_Allocate_def reslice_def split: list.splits)
next
  case SpiderAllocator
  then show ?thesis using spider_best_effort [OF assms(1-3,5)] assms(4,6) by (simp add: distinct_card)
next
  case BoardAllocator
  then show ?thesis using board_best_effort [OF assms(1-3)] assms(4,6) by (simp add: distinct_card)
qed

lemma ring_preferred:
  assumes "topology_ok env" and "te_rings env available sz = Inr rings" and "rings \<noteq> []"
    and "Allocator_Allocate kind env policy devs available required sz = Inr al"
  shows "\<exists>r\<in>set rings. al = rg_Ordinals r \<and> (\<forall>r'\<in>set rings. rg_NonConflictRingNum r' \<le> rg_NonConflictRingNum r)"
proof -
  have ne: "te_ring_sort env rings \<noteq> []" using assms(1,3) by (simp add: sorted_empty)
  note ring = chosen_ring [OF assms(1,2) ne]
  show ?thesis
  proof (cases kind)
    case SpiderAllocator
    then have "al = choose_ring (splitByMotherBoards (te_board_sort env) available devs)
        (best_candidates (te_ring_sort env rings))"
      using assms(2,4) ne by (auto simp: Allocator_Allocate_def spider_Allocate_def Let_def split: if_splits)
    then show ?thesis using ring by metis
  next
    case BoardAllocator
    then have "\<exists>groups. al = choose_ring groups (best_candidates (te_ring_sort env rings))"
      using assms(2,4) ne by (auto simp: Allocator_Allocate_def board_Allocate_def Let_def split: if_splits)
    then show ?thesis using ring by metis
  next
    case DefaultAllocator
    then obtain r rs where "te_ring_sort env rings = r # rs" "al = rg_Ordinals r"
      using assms(2,4) ne by (auto simp: Allocator_Allocate_def default_Allocate_def split: list.splits)
    then show ?thesis using first_ring [OF assms(1)] by metis
  qed
qed

text \<open>Under the best-effort policy every allocator serves a request that the free cards can serve:
  it returns exactly as many distinct slots as asked for, all of them available, and when the
  topology tool found rings the slots form one with the largest number of non-conflicting rings.\<close>
lemma mlu_allocation_best_effort:
  assumes "topology_ok env" and "te_rings env available sz = Inr rings" and "0 < sz" and "distinct available"
    and "set available \<subseteq> md_Slot ` snd ` set devs" and "sz \<le> int (length available)"
  shows "\<exists>al. Allocator_Allocate kind env BestEffort devs available required sz = Inr al
     \<and> distinct al \<and> set al \<subseteq> set available \<and> int (length al) = sz
     \<and> (rings \<noteq> [] \<longrightarrow> (\<exists>r\<in>set rings. al = rg_Ordinals r
          \<and> (\<forall>r'\<in>set rings. rg_NonConflictRingNum r' \<le> rg_NonConflictRingNum r)))"
proof -
  obtain al where al: "Allocator_Allocate kind env BestEffort devs available required sz = Inr al"
    using best_effort_succeeds [OF assms] by blast
  have "allocator_ready kind env available sz" using assms by (simp add: allocator_ready_def)
  from mlu_allocator.alloc_sound [OF this al] show ?thesis
    using al ring_preferred [OF assms(1,2) _ al] by blast
qed

definition example_mlu :: "nat \<Rightarrow> string \<Rightarrow> string \<times> mlu_device" where
  "example_mlu slot board =
     (let uid = ''MLU-'' @ nat_str slot
      in (uid, \<lparr>md_Slot = slot, md_UUID = uid, md_SN = board, md_Path = ''/dev/cambricon_dev'' @ nat_str slot,
               md_MotherBoard = board\<rparr>))"

definition example_mlus :: mlu_devices where
  "example_mlus = [example_mlu 0 ''a'', example_mlu 1 ''a'', example_mlu 5 ''b'']"

definition no_rings :: topology_env where
  "no_rings = \<lparr>te_rings = (\<lambda>_ _. Inr []), te_ring_sort = insertionSort ring_Less, te_board_sort = insertionSort shorter,
     te_cap = 0, te_groups = Inl (Errorf ''none'')\<rparr>"

lemma no_rings_ok: "topology_ok no_rings"
  by (simp add: topology_ok_def no_rings_def rings_within_def ring_order.sorts_by_insertionSort
      board_order.sorts_by_insertionSort)

lemma mlu_allocation_best_effort_example:
  "\<exists>al. Allocator_Allocate SpiderAllocator no_rings BestEffort example_mlus [0, 1, 5] [] 1 = Inr al
     \<and> set al \<subseteq> set [0, 1, 5] \<and> int (length al) = 1"
proof -
  have "te_rings no_rings [0, 1, 5] 1 = Inr []" by (simp add: no_rings_def)
  moreover have "distinct [0::nat, 1, 5]" by simp
  moreover have "set [0, 1, 5] \<subseteq> md_Slot ` snd ` set example_mlus"
    by (simp add: example_mlus_def example_mlu_def Let_def)
  ultimately show ?thesis
    using mlu_allocation_best_effort [OF no_rings_ok, of "[0, 1, 5]" 1 "[]" example_mlus SpiderAllocator "[]"] by auto
qed

end
