(* ===== verification/Mlu_Devices.thy ===== *)
theory Mlu_Devices
  imports Codec Rm_Devices Mlu_Allocator
begin

text \<open>
  The devices of the Cambricon plugin: \<open>pkg/device-plugin/mlu/cndev\<close> (\<open>cndev.go\<close> and the link groups
  of \<open>bindings.go\<close>), \<open>cambricon.go\<close> (device lists, fake devices, health), \<open>cache.go\<close> and
  \<open>register.go\<close>.  The CNDEV library's answers are parameters.
\<close>

section \<open>PCIe addresses and virtual functions\<close>

record pcie =
  pcie_domain :: int
  pcie_bus :: int
  pcie_device :: int
  pcie_function :: int

text \<open>\<open>strconv.FormatInt(n, 16)\<close>.\<close>

fun hex_digits :: "nat \<Rightarrow> string" where
  "hex_digits n = (if n < 16 then [''0123456789abcdef'' ! n] else hex_digits (n div 16) @ [''0123456789abcdef'' ! (n mod 16)])"

declare hex_digits.simps [simp del]

definition hex_str :: "int \<Rightarrow> string" where
  "hex_str n = (if n < 0 then CHR ''-'' # hex_digits (nat (- n)) else hex_digits (nat n))"

text \<open>\<open>strings.Repeat\<close> panics on a negative count.\<close>

definition GetPCIeID :: "pcie option \<Rightarrow> string result" where
  "GetPCIeID p =
     (case p of
        None \<Rightarrow> Inl (Errorf ''device has no PCIe info'')
      | Some a \<Rightarrow>
          let domain = hex_str (pcie_domain a);
              bus = (if pcie_bus a < 16 then ''0'' else []) @ hex_str (pcie_bus a);
              dev = (if pcie_device a < 16 then ''0'' else []) @ hex_str (pcie_device a)
          in if length domain > 4 then Inl (GoPanic ''strings: negative Repeat count'')
             else Inr (replicate (4 - length domain) CHR ''0'' @ domain @ '':'' @ bus @ '':'' @ dev @ ''.'' @ hex_str (pcie_function a)))"

text \<open>The files of sysfs, and what the kernel makes of a write.\<close>

type_synonym sysfs = "(string, string) gomap"
type_synonym sysfs_write = "string \<Rightarrow> string \<Rightarrow> sysfs \<Rightarrow> sysfs result"

definition trim_newlines :: "string \<Rightarrow> string" where
  "trim_newlines s = rev (dropWhile (\<lambda>c. c = CHR 0x0A) (rev (dropWhile (\<lambda>c. c = CHR 0x0A) s)))"

definition getNumFromFile :: "sysfs \<Rightarrow> string \<Rightarrow> int \<times> bool" where
  "getNumFromFile fs path =
     (case mget fs path of None \<Rightarrow> (0, False) | Some output \<Rightarrow> ParseInt 64 (trim_newlines output))"

definition setSriovNum :: "sysfs_write \<Rightarrow> string \<Rightarrow> int \<Rightarrow> sysfs \<Rightarrow> unit result \<times> sysfs" where
  "setSriovNum write pid num fs =
     (let path = ''/sys/bus/pci/devices/'' @ pid @ ''/sriov_numvfs''
      in case write path (Itoa num) fs of
           Inl _ \<Rightarrow> (Inl (Errorf ''echo to file''), fs)
         | Inr fs' \<Rightarrow>
             (case getNumFromFile fs' path of
                (got, ok) \<Rightarrow>
                  if \<not> ok \<or> got \<noteq> num then (Inl (Errorf ''the number of VFs is not expected''), fs')
                  else (Inr (), fs')))"

definition ValidateSriovNum :: "pcie option \<Rightarrow> int \<Rightarrow> sysfs \<Rightarrow> unit result" where
  "ValidateSriovNum p num fs =
     bind_result (GetPCIeID p) (\<lambda>pid.
       case getNumFromFile fs (''/sys/bus/pci/devices/'' @ pid @ ''/sriov_totalvfs'') of
         (mx, ok) \<Rightarrow>
           if \<not> ok then Inl (Errorf ''sriov_totalvfs'')
           else if num < 1 \<or> num > mx then Inl (Errorf ''invalid sriov number'')
           else Inr ())"

definition EnableSriov :: "sysfs_write \<Rightarrow> pcie option \<Rightarrow> int \<Rightarrow> sysfs \<Rightarrow> unit result \<times> sysfs" where
  "EnableSriov write p num fs =
     (case ValidateSriovNum p num fs of
        Inl e \<Rightarrow> (Inl e, fs)
      | Inr _ \<Rightarrow>
          (case GetPCIeID p of
             Inl e \<Rightarrow> (Inl e, fs)
           | Inr pid \<Rightarrow>
               (case getNumFromFile fs (''/sys/bus/pci/devices/'' @ pid @ ''/sriov_numvfs'') of
                  (vf, ok) \<Rightarrow>
                    if \<not> ok then (Inl (Errorf ''sriov_numvfs''), fs)
                    else if vf = num then (Inr (), fs)
                    else if vf \<noteq> 0 then
                      (case setSriovNum write pid 0 fs of
                         (Inl _, fs1) \<Rightarrow> (Inl (Errorf ''failed to set sriov num to 0''), fs1)
                       | (Inr _, fs1) \<Rightarrow> setSriovNum write pid num fs1)
                    else setSriovNum write pid num fs)))"

section \<open>Link groups\<close>

text \<open>
  \<open>GetMLULinkGroups\<close>: a breadth-first search from slot 0 over the active links.  A slot is marked
  visited when it leaves the queue, not when it enters, so the queue may hold it several times.
\<close>

definition link_slots :: "(string, nat) gomap \<Rightarrow> (string, int) gomap \<Rightarrow> nat list" where
  "link_slots slots devs = List.map_filter (\<lambda>(dev, _). mget slots dev) devs"

function link_bfs ::
  "(nat \<Rightarrow> (string, int) gomap result) \<Rightarrow> (string, nat) gomap \<Rightarrow> nat list \<Rightarrow> nat list \<Rightarrow> nat list result" where
  "link_bfs linkDevs slots [] visited = Inr visited"
| "link_bfs linkDevs slots (slot # queue) visited =
     (case linkDevs slot of
        Inl e \<Rightarrow> Inl e
      | Inr devs \<Rightarrow>
          let visited' = List.insert slot visited
          in link_bfs linkDevs slots (queue @ filter (\<lambda>s. s \<notin> set visited') (link_slots slots devs)) visited')"
  by pat_completeness auto

definition unvisited :: "(string, nat) gomap \<Rightarrow> nat list \<Rightarrow> nat list \<Rightarrow> nat" where
  "unvisited slots queue visited = card ((snd ` set slots \<union> set queue) - set visited)"

lemma link_slots_subset: "set (link_slots slots devs) \<subseteq> snd ` set slots"
  unfolding link_slots_def by (induction devs) (auto simp: List.map_filter_simps dest!: mget_SomeD split: option.splits, force)

termination link_bfs
proof (relation "inv_image (less_than <*lex*> less_than)
    (\<lambda>(_, slots, queue, visited). (unvisited slots queue visited, length (filter (\<lambda>s. s \<in> set visited) queue)))")
  fix linkDevs :: "nat \<Rightarrow> (string, int) gomap result" and slots devs and slot :: nat and queue visited visited' :: "nat list"
  assume v: "visited' = List.insert slot visited"
  let ?new = "filter (\<lambda>s. s \<notin> set visited') (link_slots slots devs)"
  have sub: "snd ` set slots \<union> set (queue @ ?new) - set visited'
      \<subseteq> snd ` set slots \<union> set (slot # queue) - set visited"
    using link_slots_subset v by auto
  have fin: "finite (snd ` set slots \<union> set (slot # queue) - set visited)" by simp
  show "((linkDevs, slots, queue @ ?new, visited'), linkDevs, slots, slot # queue, visited)
      \<in> inv_image (less_than <*lex*> less_than)
        (\<lambda>(_, slots, queue, visited). (unvisited slots queue visited, length (filter (\<lambda>s. s \<in> set visited) queue)))"
  proof (cases "slot \<in> set visited")
    case True
    then have "visited' = visited" using v by (simp add: List.insert_def)
    then show ?thesis
      using True card_mono [OF fin sub] by (auto simp: unvisited_def le_less)
  next
    case False
    then have "slot \<in> snd ` set slots \<union> set (slot # queue) - set visited"
      "slot \<notin> snd ` set slots \<union> set (queue @ ?new) - set visited'"
      using v by auto
    then have "unvisited slots (queue @ ?new) visited' < unvisited slots (slot # queue) visited"
      unfolding unvisited_def using sub fin by (intro psubset_card_mono) auto
    then show ?thesis by simp
  qed
qed (intro wf_inv_image wf_lex_prod wf_less_than)

definition slot_map :: "string list \<Rightarrow> (string, nat) gomap" where
  "slot_map uuids = fold (\<lambda>(i, u) m. mset_to m u i) (enumerate 0 uuids) []"

text \<open>
  \<open>uuids\<close> are the identifiers that \<open>getDeviceInfo\<close> answers for the cards (or the first error); the
  order of the first group is that of a Go map.
\<close>

definition GetMLULinkGroups ::
  "(nat list \<Rightarrow> nat list) \<Rightarrow> string list result \<Rightarrow> (nat \<Rightarrow> (string, int) gomap result) \<Rightarrow> nat list list result" where
  "GetMLULinkGroups order uuids linkDevs =
     bind_result uuids (\<lambda>us.
     bind_result (link_bfs linkDevs (slot_map us) [0] []) (\<lambda>visited.
       let group2 = filter (\<lambda>slot. slot \<notin> set visited) [0..<length us]
       in Inr (if group2 \<noteq> [] then [order visited, group2] else [order visited])))"

section \<open>Device lists\<close>

record mlu_device_list =
  hasCtrlDev :: bool
  hasMsgqDev :: bool
  hasRPCDev :: bool
  hasCmsgDev :: bool
  hasIpcmDev :: bool
  hasCommuDev :: bool
  hasUARTConsoleDev :: bool
  hasSplitDev :: bool

definition mluMonitorDeviceName :: string where "mluMonitorDeviceName = ''/dev/cambricon_ctl''"
definition mluDeviceName :: string where "mluDeviceName = ''/dev/cambricon_dev''"
definition mluMsgqDeviceName :: string where "mluMsgqDeviceName = ''/dev/cambr-msgq''"
definition mluRPCDeviceName :: string where "mluRPCDeviceName = ''/dev/cambr-rpc''"
definition mluCmsgDeviceName :: string where "mluCmsgDeviceName = ''/dev/cmsg_ctrl''"
definition mluIpcmDeviceName :: string where "mluIpcmDeviceName = ''/dev/cambricon_ipcm''"
definition mluCommuDeviceName :: string where "mluCommuDeviceName = ''/dev/commu''"
definition mluUARTConsoleDeviceName :: string where "mluUARTConsoleDeviceName = ''/dev/ttyMS''"
definition mluSplitDeviceName :: string where "mluSplitDeviceName = ''/dev/cambricon-split''"

definition hostDeviceExistsWithPrefix :: "(string \<Rightarrow> string list result) \<Rightarrow> string \<Rightarrow> bool" where
  "hostDeviceExistsWithPrefix glob pfx = (case glob (pfx @ ''*'') of Inl _ \<Rightarrow> False | Inr ms \<Rightarrow> ms \<noteq> [])"

definition newDeviceList :: "(string \<Rightarrow> string list result) \<Rightarrow> mlu_device_list" where
  "newDeviceList glob =
     \<lparr>hasCtrlDev = hostDeviceExistsWithPrefix glob mluMonitorDeviceName,
      hasMsgqDev = hostDeviceExistsWithPrefix glob mluMsgqDeviceName,
      hasRPCDev = hostDeviceExistsWithPrefix glob mluRPCDeviceName,
      hasCmsgDev = hostDeviceExistsWithPrefix glob mluCmsgDeviceName,
      hasIpcmDev = hostDeviceExistsWithPrefix glob mluIpcmDeviceName,
      hasCommuDev = hostDeviceExistsWithPrefix glob mluCommuDeviceName,
      hasUARTConsoleDev = hostDeviceExistsWithPrefix glob mluUARTConsoleDeviceName,
      hasSplitDev = hostDeviceExistsWithPrefix glob mluSplitDeviceName\<rparr>"

definition mode_sriov :: string where "mode_sriov = ''sriov''"
definition mode_envShare :: string where "mode_envShare = ''env-share''"
definition mode_topologyAware :: string where "mode_topologyAware = ''topology-aware''"
definition mode_mluShare :: string where "mode_mluShare = ''mlu-share''"

lemmas mode_names = mode_sriov_def mode_envShare_def mode_topologyAware_def mode_mluShare_def

text \<open>A plugin device is its id and its health.\<close>

type_synonym plugin_device = "string \<times> string"

definition fake_uuid :: "mlu_device \<Rightarrow> bool \<Rightarrow> nat \<Rightarrow> string" where
  "fake_uuid origin sriovEnabled i = md_UUID origin @ (if sriovEnabled then ''--fake--'' else ''-_-'') @ nat_str (Suc i)"

definition generateFakeDevs :: "mlu_device \<Rightarrow> int \<Rightarrow> bool \<Rightarrow> plugin_device list \<times> mlu_devices" where
  "generateFakeDevs origin num sriovEnabled =
     (map (\<lambda>i. (fake_uuid origin sriovEnabled i, Healthy)) [0..<nat num],
      fold (\<lambda>i m. mset_to m (fake_uuid origin sriovEnabled i)
              \<lparr>md_Slot = md_Slot origin, md_UUID = fake_uuid origin sriovEnabled i, md_SN = [],
               md_Path = (if sriovEnabled then md_Path origin @ ''vf'' @ nat_str (Suc i) else md_Path origin),
               md_MotherBoard = []\<rparr>) [0..<nat num] [])"

text \<open>The CNDEV library.\<close>

record mlu_library =
  ml_count :: "nat result"
  ml_info :: "nat \<Rightarrow> (string \<times> string \<times> string \<times> string) result"
  ml_pcie :: "nat \<Rightarrow> pcie result"
  ml_memory :: "nat \<Rightarrow> nat \<times> bool"
  ml_model :: "nat \<Rightarrow> string"
  ml_write :: sysfs_write

definition NewDeviceLite :: "mlu_library \<Rightarrow> nat \<Rightarrow> bool \<Rightarrow> (mlu_device \<times> pcie option) result" where
  "NewDeviceLite lib idx pcieAware =
     bind_result (ml_info lib idx) (\<lambda>(uuid, sn, motherBoard, path).
     bind_result (if pcieAware then bind_result (ml_pcie lib idx) (\<lambda>p. Inr (Some p)) else Inr None) (\<lambda>p.
       Inr (\<lparr>md_Slot = idx, md_UUID = uuid, md_SN = sn, md_Path = path, md_MotherBoard = motherBoard\<rparr>, p)))"

text \<open>\<open>check\<close> turns every error into a panic.\<close>

definition check :: "'a result \<Rightarrow> 'a result" where
  "check r = (case r of Inl _ \<Rightarrow> Inl (GoPanic ''Fatal'') | Inr x \<Rightarrow> Inr x)"

definition merge_fakes ::
  "plugin_device list \<times> mlu_devices \<Rightarrow> plugin_device list \<times> mlu_devices \<Rightarrow> plugin_device list \<times> mlu_devices" where
  "merge_fakes acc fakes = (fst acc @ fst fakes, maps_Copy (snd acc) (snd fakes))"

definition device_entries ::
  "mlu_library \<Rightarrow> string \<Rightarrow> int \<Rightarrow> nat \<Rightarrow> sysfs \<Rightarrow> plugin_device list \<times> mlu_devices \<Rightarrow>
   (sysfs \<times> plugin_device list \<times> mlu_devices) result" where
  "device_entries lib mode fakeNum i fs acc =
     bind_result (check (NewDeviceLite lib i (mode = mode_sriov))) (\<lambda>(d, p).
       if mode = mode_envShare then
         (if fakeNum < 1 then Inl (GoPanic ''Fatal'')
          else case merge_fakes acc (generateFakeDevs d fakeNum False) of
                 (devs, info) \<Rightarrow> Inr (fs, devs, mset_to info (md_UUID d) d))
       else if mode = mode_sriov then
         (case EnableSriov (ml_write lib) p fakeNum fs of
            (Inl _, _) \<Rightarrow> Inl (GoPanic ''Fatal'')
          | (Inr _, fs') \<Rightarrow> Inr (fs', merge_fakes acc (generateFakeDevs d fakeNum True)))
       else if mode = mode_mluShare then
         (case ml_memory lib i of
            (mem, ok) \<Rightarrow>
              if \<not> ok then Inl (GoPanic ''Fatal'')
              else Inr (fs, merge_fakes acc (generateFakeDevs d (int (mem div 1024)) False)))
       else Inr (fs, fst acc @ [(md_UUID d, Healthy)], mset_to (snd acc) (md_UUID d) d))"

fun get_devices_from ::
  "mlu_library \<Rightarrow> string \<Rightarrow> int \<Rightarrow> nat list \<Rightarrow> sysfs \<Rightarrow> plugin_device list \<times> mlu_devices \<Rightarrow>
   (sysfs \<times> plugin_device list \<times> mlu_devices) result" where
  "get_devices_from lib mode fakeNum [] fs acc = Inr (fs, acc)"
| "get_devices_from lib mode fakeNum (i # is) fs acc =
     bind_result (device_entries lib mode fakeNum i fs acc) (\<lambda>(fs', acc'). get_devices_from lib mode fakeNum is fs' acc')"

definition getDevices ::
  "mlu_library \<Rightarrow> string \<Rightarrow> int \<Rightarrow> sysfs \<Rightarrow> (sysfs \<times> plugin_device list \<times> mlu_devices) result" where
  "getDevices lib mode fakeNum fs =
     bind_result (check (ml_count lib)) (\<lambda>num. get_devices_from lib mode fakeNum [0..<num] fs ([], []))"

definition deviceExists :: "plugin_device list \<Rightarrow> string \<Rightarrow> bool" where
  "deviceExists devs uid \<longleftrightarrow> list_ex (\<lambda>(u, _). u = uid) devs"

section \<open>Health\<close>

text \<open>
  One round of \<open>watchUnhealthy\<close> (and of its twin \<open>WatchUnhealthy\<close>) over the devices: \<open>state_of\<close> is what
  CNDEV answers (0 is a broken card, an error counts as 0), \<open>bad\<close> the map of cards known to be
  unhealthy, and the events are what is sent on the health channel.
\<close>

definition watch_step ::
  "(mlu_device \<Rightarrow> int result) \<Rightarrow> mlu_device \<Rightarrow> string list \<times> plugin_device list \<Rightarrow> string list \<times> plugin_device list" where
  "watch_step state_of dm acc =
     (case acc of
        (bad, events) \<Rightarrow>
          let ret = (case state_of dm of Inl _ \<Rightarrow> 0 | Inr r \<Rightarrow> r)
          in if ret = 0 \<and> md_UUID dm \<notin> set bad then (md_UUID dm # bad, events @ [(md_UUID dm, Unhealthy)])
             else if md_UUID dm \<in> set bad then (removeAll (md_UUID dm) bad, events @ [(md_UUID dm, Healthy)])
             else (bad, events))"

definition watch_round ::
  "mlu_device list \<Rightarrow> (mlu_device \<Rightarrow> int result) \<Rightarrow> string list \<times> plugin_device list \<Rightarrow> string list \<times> plugin_device list" where
  "watch_round devsInfo state_of acc = fold (watch_step state_of) devsInfo acc"

definition watchUnhealthy :: "mlu_device list \<Rightarrow> (mlu_device \<Rightarrow> int result) list \<Rightarrow> plugin_device list" where
  "watchUnhealthy devsInfo rounds = snd (fold (watch_round devsInfo) rounds ([], []))"

text \<open>What \<open>ListAndWatch\<close> makes of an event: the first device with that id takes the health.\<close>

fun set_health :: "plugin_device \<Rightarrow> plugin_device list \<Rightarrow> plugin_device list" where
  "set_health ev [] = []"
| "set_health ev (d # ds) = (if fst d = fst ev then (fst d, snd ev) # ds else d # set_health ev ds)"

text \<open>The lists that are sent: one at the beginning and one after every event.\<close>

definition mlu_ListAndWatch :: "plugin_device list \<Rightarrow> plugin_device list \<Rightarrow> plugin_device list list" where
  "mlu_ListAndWatch devs events = map (\<lambda>n. fold set_health (take n events) devs) [0..<Suc (length events)]"

section \<open>The device cache and the registration\<close>

record device_cache =
  dc_cache :: "(plugin_device \<times> mlu_device) list"
  dc_notifyCh :: "(string, plugin_device list) gomap"

definition AddNotifyChannel :: "string \<Rightarrow> device_cache \<Rightarrow> device_cache" where
  "AddNotifyChannel name d = d\<lparr>dc_notifyCh := mset_to (dc_notifyCh d) name []\<rparr>"

definition RemoveNotifyChannel :: "string \<Rightarrow> device_cache \<Rightarrow> device_cache" where
  "RemoveNotifyChannel name d = d\<lparr>dc_notifyCh := mdel (dc_notifyCh d) name\<rparr>"

fun cache_devices_from :: "mlu_library \<Rightarrow> nat list \<Rightarrow> (plugin_device \<times> mlu_device) list result" where
  "cache_devices_from lib [] = Inr []"
| "cache_devices_from lib (i # is) =
     bind_result (check (NewDeviceLite lib i False)) (\<lambda>(d, _).
     bind_result (cache_devices_from lib is) (\<lambda>ds. Inr (((md_UUID d, []), d) # ds)))"

text \<open>The health of a cached device is not set: it is the empty string.\<close>

definition cache_Devices :: "mlu_library \<Rightarrow> (plugin_device \<times> mlu_device) list result" where
  "cache_Devices lib = bind_result (check (ml_count lib)) (\<lambda>n. cache_devices_from lib [0..<min n 100])"

definition mlu_apiDevices :: "mlu_library \<Rightarrow> int \<Rightarrow> (plugin_device \<times> mlu_device) list \<Rightarrow> api_device_info list" where
  "mlu_apiDevices lib splitCount devs =
     map (\<lambda>(i, (dev, _)).
            \<lparr>ad_Index = 0, ad_Id = fst dev, ad_Count = i32 splitCount, ad_Devmem = i32 (int (fst (ml_memory lib i))),
             ad_Devcore = 0, ad_Type = ''MLU-'' @ ml_model lib i, ad_Numa = 0, ad_Health = (snd dev = ''healthy'')\<rparr>)
       (enumerate 0 devs)"

definition mlu_RegistrInAnnotation ::
  "mlu_library \<Rightarrow> int \<Rightarrow> (plugin_device \<times> mlu_device) list \<Rightarrow> annotations result \<Rightarrow>
   (annotations \<Rightarrow> annotations \<Rightarrow> annotations result) \<Rightarrow> string \<Rightarrow> annotations result" where
  "mlu_RegistrInAnnotation lib splitCount devs node api_patch now =
     bind_result node (\<lambda>annos.
       api_patch annos
         (mset_to (mset_to [] ''4pd.io/node-handshake-mlu'' (''Reported '' @ now))
            ''4pd.io/node-mlu-register'' (EncodeNodeDevices (mlu_apiDevices lib splitCount devs))))"

section \<open>Lemmas on the link search\<close>

definition links :: "(nat \<Rightarrow> (string, int) gomap result) \<Rightarrow> (string, nat) gomap \<Rightarrow> (nat \<times> nat) set" where
  "links linkDevs slots = {(s, t). \<exists>devs. linkDevs s = Inr devs \<and> t \<in> set (link_slots slots devs)}"

lemma link_bfs_total:
  "(\<And>s. \<exists>devs. linkDevs s = Inr devs) \<Longrightarrow> \<exists>res. link_bfs linkDevs slots queue visited = Inr res"
proof (induction linkDevs slots queue visited rule: link_bfs.induct)
  case (2 linkDevs slots slot queue visited)
  obtain devs where devs: "linkDevs slot = Inr devs" using "2.prems" by blast
  show ?case using "2.IH" [OF devs refl "2.prems"] devs by (simp add: Let_def)
qed simp

lemma link_bfs_distinct:
  "link_bfs linkDevs slots queue visited = Inr res \<Longrightarrow> distinct visited \<Longrightarrow> distinct res"
  by (induction linkDevs slots queue visited rule: link_bfs.induct) (auto simp: Let_def split: sum.splits)

text \<open>The search visits the queue and what it reaches, and nothing else.\<close>

lemma link_bfs_covers:
  "link_bfs linkDevs slots queue visited = Inr res \<Longrightarrow>
     links linkDevs slots `` set visited \<subseteq> set visited \<union> set queue \<Longrightarrow>
     set visited \<union> set queue \<subseteq> set res \<and> links linkDevs slots `` set res \<subseteq> set res"
proof (induction linkDevs slots queue visited rule: link_bfs.induct)
  case (2 linkDevs slots slot queue visited)
  obtain devs where devs: "linkDevs slot = Inr devs" using "2.prems"(1) by (auto split: sum.splits)
  let ?visited = "List.insert slot visited"
  let ?new = "filter (\<lambda>s. s \<notin> set ?visited) (link_slots slots devs)"
  have "link_bfs linkDevs slots (queue @ ?new) ?visited = Inr res"
    using "2.prems"(1) devs by (simp add: Let_def)
  moreover have "links linkDevs slots `` set ?visited \<subseteq> set ?visited \<union> set (queue @ ?new)"
    using "2.prems"(2) devs by (auto simp: links_def)
  ultimately show ?case using "2.IH" [OF devs refl] by auto
qed simp

lemma reached_step:
  assumes "res \<subseteq> V' \<union> QN" and "QN \<subseteq> Q \<union> N" and "V' \<subseteq> {s} \<union> V" and "N \<subseteq> S" and "s \<in> S" and "S \<union> Q \<subseteq> SQ"
  shows "res \<subseteq> V \<union> SQ"
  using assms by blast

lemma link_bfs_reaches:
  "link_bfs linkDevs slots queue visited = Inr res \<Longrightarrow>
     set res \<subseteq> set visited \<union> (links linkDevs slots)\<^sup>* `` set queue"
proof (induction linkDevs slots queue visited rule: link_bfs.induct)
  case (2 linkDevs slots slot queue visited)
  obtain devs where devs: "linkDevs slot = Inr devs" using "2.prems" by (auto split: sum.splits)
  let ?visited = "List.insert slot visited"
  let ?new = "filter (\<lambda>s. s \<notin> set ?visited) (link_slots slots devs)"
  have "link_bfs linkDevs slots (queue @ ?new) ?visited = Inr res"
    using "2.prems" devs by (simp add: Let_def)
  then have res: "set res \<subseteq> set ?visited \<union> (links linkDevs slots)\<^sup>* `` set (queue @ ?new)"
    using "2.IH" [OF devs refl] by simp
  have "(slot, s) \<in> links linkDevs slots" if "s \<in> set ?new" for s
    using that devs by (auto simp: links_def)
  then have "(links linkDevs slots)\<^sup>* `` set ?new \<subseteq> (links linkDevs slots)\<^sup>* `` {slot}"
    by (auto intro: converse_rtrancl_into_rtrancl)
  then show ?case
    by (intro reached_step [OF res, where Q = "(links linkDevs slots)\<^sup>* `` set queue" and s = slot]) auto
qed auto

lemma link_bfs_reachable:
  assumes "link_bfs linkDevs slots [s0] [] = Inr res"
  shows "distinct res \<and> set res = (links linkDevs slots)\<^sup>* `` {s0}"
proof -
  have cov: "s0 \<in> set res" "links linkDevs slots `` set res \<subseteq> set res"
    using link_bfs_covers [OF assms] by auto
  then have "(links linkDevs slots)\<^sup>* `` {s0} \<subseteq> set res"
    using cov(1) Image_closed_trancl [OF cov(2)] by blast
  then show ?thesis
    using link_bfs_reaches [OF assms] link_bfs_distinct [OF assms] by auto
qed

section \<open>Properties of the devices\<close>

text \<open>C27: the search for the link groups always ends, although the queue may hold a slot several times,
  and its first group is exactly the set of slots reachable from slot 0 over active links, each once;
  the remaining slots, if any, form the second group.\<close>
theorem GetMLULinkGroups_reachable:
  assumes "\<And>s. \<exists>devs. linkDevs s = Inr devs" and "\<And>xs. mset (order xs) = mset xs"
  shows "\<exists>group1 group2. GetMLULinkGroups order (Inr us) linkDevs = Inr (if group2 \<noteq> [] then [group1, group2] else [group1])
     \<and> distinct group1 \<and> set group1 = (links linkDevs (slot_map us))\<^sup>* `` {0}
     \<and> distinct group2 \<and> set group2 = {0..<length us} - set group1"
proof -
  obtain res where res: "link_bfs linkDevs (slot_map us) [0] [] = Inr res"
    using link_bfs_total [of linkDevs, OF assms(1)] by blast
  have ord: "set (order res) = set res" "distinct (order res) = distinct res"
    using assms(2) [of res] by (metis set_mset_mset, metis mset_eq_imp_distinct_iff)
  let ?rest = "filter (\<lambda>slot. slot \<notin> set res) [0..<length us]"
  have "GetMLULinkGroups order (Inr us) linkDevs = Inr (if ?rest \<noteq> [] then [order res, ?rest] else [order res])"
    using res by (simp add: GetMLULinkGroups_def Let_def)
  moreover have "set ?rest = {0..<length us} - set (order res)" unfolding ord by auto
  moreover have "distinct ?rest" by simp
  ultimately show ?thesis
    using ord link_bfs_reachable [OF res] by blast
qed

theorem GetMLULinkGroups_reachable_witness:
  "\<exists>g1 g2. GetMLULinkGroups (\<lambda>xs. xs) (Inr [''MLU-a'', ''MLU-b'', ''MLU-c''])
       (\<lambda>s. Inr (if s = 0 then [(''MLU-b'', 1)] else if s = 1 then [(''MLU-a'', 1)] else []))
     = Inr (if g2 \<noteq> [] then [g1, g2] else [g1]) \<and> set g2 = {0..<3} - set g1"
proof -
  let ?us = "[''MLU-a'', ''MLU-b'', ''MLU-c'']"
  let ?linkDevs = "\<lambda>s. Inr (if s = 0 then [(''MLU-b'', 1)] else if s = 1 then [(''MLU-a'', 1)] else [])"
  have "length ?us = 3" by simp
  moreover have "\<exists>devs. ?linkDevs s = Inr devs" for s :: nat by blast
  ultimately show ?thesis
    using GetMLULinkGroups_reachable [of ?linkDevs "\<lambda>xs. xs" ?us] by metis
qed

lemma watch_step_broken:
  assumes "state_of d = Inr 0"
  shows "watch_step state_of d (bad, events) =
     (if md_UUID d \<in> set bad then (removeAll (md_UUID d) bad, events @ [(md_UUID d, Healthy)])
      else (md_UUID d # bad, events @ [(md_UUID d, Unhealthy)]))"
  using assms by (simp add: watch_step_def)

lemma toggle_insert:
  assumes "x \<notin> A" and "B1 = (B - {x}) \<union> ({x} - B)" and "B' = (B1 - A) \<union> (A - B1)"
  shows "B' = (B - insert x A) \<union> (insert x A - B)"
  using assms by blast

lemma watch_round_broken:
  assumes "\<forall>d\<in>set ds. state_of d = Inr 0" and "distinct (map md_UUID ds)"
  shows "\<exists>bad'. watch_round ds state_of (bad, events) =
       (bad', events @ map (\<lambda>d. (md_UUID d, if md_UUID d \<in> set bad then Healthy else Unhealthy)) ds)
     \<and> set bad' = (set bad - md_UUID ` set ds) \<union> (md_UUID ` set ds - set bad)"
  using assms
proof (induction ds arbitrary: bad events)
  case (Cons d ds)
  obtain bad1 ev where step: "watch_step state_of d (bad, events) = (bad1, events @ [(md_UUID d, ev)])"
    and ev: "ev = (if md_UUID d \<in> set bad then Healthy else Unhealthy)"
    and bad1: "set bad1 = (set bad - {md_UUID d}) \<union> ({md_UUID d} - set bad)"
    using Cons.prems(1) by (cases "md_UUID d \<in> set bad") (force simp: watch_step_broken)+
  have same: "md_UUID x \<in> set bad1 \<longleftrightarrow> md_UUID x \<in> set bad" if "x \<in> set ds" for x
    using that Cons.prems(2) bad1 by (metis DiffE DiffI Un_iff distinct.simps(2) image_eqI list.set_map list.simps(9) singletonD)
  obtain bad' where b: "watch_round ds state_of (bad1, events @ [(md_UUID d, ev)]) =
       (bad', (events @ [(md_UUID d, ev)]) @ map (\<lambda>d. (md_UUID d, if md_UUID d \<in> set bad1 then Healthy else Unhealthy)) ds)"
    "set bad' = (set bad1 - md_UUID ` set ds) \<union> (md_UUID ` set ds - set bad1)"
    using Cons.IH [of bad1 "events @ [(md_UUID d, ev)]"] Cons.prems by auto
  have "map (\<lambda>d. (md_UUID d, if md_UUID d \<in> set bad1 then Healthy else Unhealthy)) ds
      = map (\<lambda>d. (md_UUID d, if md_UUID d \<in> set bad then Healthy else Unhealthy)) ds"
    using same by simp
  then have "watch_round (d # ds) state_of (bad, events) =
      (bad', events @ map (\<lambda>d. (md_UUID d, if md_UUID d \<in> set bad then Healthy else Unhealthy)) (d # ds))"
    using b(1) step ev unfolding watch_round_def by (simp only: fold_simps list.map append_assoc append_Cons append_Nil o_apply)
  moreover have "md_UUID d \<notin> md_UUID ` set ds" using Cons.prems(2) by simp
  then have "set bad' = (set bad - md_UUID ` set (d # ds)) \<union> (md_UUID ` set (d # ds) - set bad)"
    using toggle_insert [OF _ bad1 b(2)] by simp
  ultimately show ?case by blast
qed (simp add: watch_round_def)

text \<open>A card that stays broken is reported healthy again in every second round: the watch sends
  \<open>Unhealthy\<close> in the rounds 0, 2, 4, ... and \<open>Healthy\<close> in the rounds 1, 3, 5, ..., because the second
  branch asks only whether the card is known to be bad and not whether it has recovered.\<close>
lemma watchUnhealthy_flaps:
  assumes "distinct (map md_UUID ds)" and "\<forall>state_of\<in>set rounds. \<forall>d\<in>set ds. state_of d = Inr 0"
  shows "watchUnhealthy ds rounds =
     concat (map (\<lambda>k. map (\<lambda>d. (md_UUID d, if even k then Unhealthy else Healthy)) ds) [0..<length rounds])"
proof -
  have "\<exists>bad. fold (watch_round ds) rounds ([], []) =
        (bad, concat (map (\<lambda>k. map (\<lambda>d. (md_UUID d, if even k then Unhealthy else Healthy)) ds) [0..<length rounds]))
      \<and> set bad = (if even (length rounds) then {} else md_UUID ` set ds)"
    using assms(2)
  proof (induction rounds rule: rev_induct)
    case (snoc r rs)
    then obtain bad where bad: "fold (watch_round ds) rs ([], []) =
        (bad, concat (map (\<lambda>k. map (\<lambda>d. (md_UUID d, if even k then Unhealthy else Healthy)) ds) [0..<length rs]))"
      "set bad = (if even (length rs) then {} else md_UUID ` set ds)" by auto
    have ev: "map (\<lambda>d. (md_UUID d, if md_UUID d \<in> set bad then Healthy else Unhealthy)) ds
        = map (\<lambda>d. (md_UUID d, if even (length rs) then Unhealthy else Healthy)) ds"
      using bad(2) by simp
    show ?case
      using watch_round_broken [of ds r bad] snoc.prems assms(1) bad ev by fastforce
  qed simp
  then show ?thesis by (auto simp: watchUnhealthy_def)
qed

lemma watchUnhealthy_flaps_example:
  "watchUnhealthy [snd (example_mlu 0 ''a'')] [\<lambda>_. Inr 0, \<lambda>_. Inr 0] = [(''MLU-0'', Unhealthy), (''MLU-0'', Healthy)]"
proof -
  have uid: "md_UUID (snd (example_mlu 0 ''a'')) = ''MLU-0''"
    by (simp add: example_mlu_def Let_def nat_str.simps digit_char_def char_of_def bit_0)
  show ?thesis
    using watchUnhealthy_flaps [of "[snd (example_mlu 0 ''a'')]" "[\<lambda>_. Inr 0, \<lambda>_. Inr 0]"] uid
    by (simp add: upt_rec)
qed

lemma cache_devices_health:
  "cache_devices_from lib is = Inr devs \<Longrightarrow> \<forall>(dev, d)\<in>set devs. snd dev = []"
  by (induction "is" arbitrary: devs) (fastforce simp: bind_result_Inr_iff split: prod.splits)+

text \<open>Every Cambricon card is registered as unhealthy: the cache never sets the health of its devices
  and the registration compares it with a spelling the plugin interface does not use.\<close>
lemma mlu_registered_unhealthy:
  assumes "cache_Devices lib = Inr devs"
  shows "\<forall>d\<in>set (mlu_apiDevices lib splitCount devs). \<not> ad_Health d"
proof -
  have empty: "\<forall>(dev, d)\<in>set devs. snd dev = []"
    using assms cache_devices_health [of lib _ devs] unfolding cache_Devices_def bind_result_Inr_iff by blast
  show ?thesis
  proof
    fix a assume "a \<in> set (mlu_apiDevices lib splitCount devs)"
    then obtain i dev d where "(dev, d) \<in> set devs" "ad_Health a = (snd dev = ''healthy'')"
      by (auto simp: mlu_apiDevices_def dest!: in_set_enumerate_eq [THEN iffD1] nth_mem)
    then show "\<not> ad_Health a" using empty by auto
  qed
qed

definition example_library :: mlu_library where
  "example_library = \<lparr>ml_count = Inr 1, ml_info = (\<lambda>i. Inr (''MLU-0'', ''1'', ''2'', ''/dev/cambricon_dev0'')),
     ml_pcie = (\<lambda>_. Inl (Errorf ''none'')), ml_memory = (\<lambda>_. (16384, True)), ml_model = (\<lambda>_. ''MLU370-X8''),
     ml_write = (\<lambda>_ _ fs. Inr fs)\<rparr>"

lemma mlu_registered_unhealthy_example:
  "\<exists>devs d. cache_Devices example_library = Inr devs \<and> mlu_apiDevices example_library 1 devs = [d] \<and> \<not> ad_Health d"
proof -
  obtain devs where devs: "cache_Devices example_library = Inr devs" "length devs = 1"
    by (simp add: cache_Devices_def example_library_def check_def NewDeviceLite_def)
  then have "length (mlu_apiDevices example_library 1 devs) = 1" by (simp add: mlu_apiDevices_def)
  then obtain d where "mlu_apiDevices example_library 1 devs = [d]" by (auto simp: length_Suc_conv)
  then show ?thesis using devs(1) mlu_registered_unhealthy [OF devs(1), of 1] by simp
qed

end
