(* ===== verification/Mlu_Plugin.thy ===== *)
theory Mlu_Plugin
  imports Handover Mlu_Devices
begin

text \<open>
  The Cambricon device plugin's server (\<open>pkg/device-plugin/mlu/server.go\<close>) and its view of the pods
  (\<open>podutils.go\<close>).  The API server is the one of the node lock; the library and the file system are
  parameters.
\<close>

section \<open>Options and the response\<close>

record mlu_options =
  mo_Mode :: string
  mo_MLULinkPolicy :: string
  mo_EnableConsole :: bool
  mo_EnableDeviceType :: bool
  mo_CnmonPath :: string

record mlu_response =
  mr_Envs :: "(string, string) gomap"
  mr_Mounts :: "(string \<times> string \<times> bool) list"
  mr_Devices :: "(string \<times> string) list"

text \<open>\<open>addDevice\<close>: host path, then container path.\<close>

definition addDevice :: "string \<Rightarrow> string \<Rightarrow> mlu_response \<Rightarrow> mlu_response" where
  "addDevice hostPath containerPath car = car\<lparr>mr_Devices := mr_Devices car @ [(hostPath, containerPath)]\<rparr>"

definition addDevice_if :: "bool \<Rightarrow> string \<Rightarrow> string \<Rightarrow> mlu_response \<Rightarrow> mlu_response" where
  "addDevice_if b hostPath containerPath car = (if b then addDevice hostPath containerPath car else car)"

text \<open>The path of an unknown card is a read through a nil pointer.\<close>

fun uuidToPath :: "mlu_devices \<Rightarrow> string list \<Rightarrow> string list result" where
  "uuidToPath devsInfo [] = Inr []"
| "uuidToPath devsInfo (u # us) =
     (case mget devsInfo u of
        None \<Rightarrow> Inl (GoPanic ''nil pointer dereference'')
      | Some dev \<Rightarrow> bind_result (uuidToPath devsInfo us) (\<lambda>ps. Inr (md_Path dev # ps)))"

fun getSlots :: "mlu_devices \<Rightarrow> string list \<Rightarrow> nat list result" where
  "getSlots devsInfo [] = Inr []"
| "getSlots devsInfo (u # us) =
     (case mget devsInfo u of
        None \<Rightarrow> Inl (GoPanic ''nil pointer dereference'')
      | Some mlu \<Rightarrow> bind_result (getSlots devsInfo us) (\<lambda>ss. Inr (md_Slot mlu # ss)))"

text \<open>\<open>fmt.Sscanf(devpath, mluDeviceName+"%d", &index)\<close>: the leading number after the prefix.\<close>

definition scan_int :: "string \<Rightarrow> int option" where
  "scan_int s =
     (let t = dropWhile is_space s;
          sign = takeWhile (\<lambda>c. c = CHR ''+'' \<or> c = CHR ''-'') (take 1 t);
          digits = takeWhile is_digit_char (drop (length sign) t)
      in case ParseInt 64 (sign @ digits) of (v, ok) \<Rightarrow> if ok then Some v else None)"

definition device_index :: "string \<Rightarrow> int option" where
  "device_index devpath = (if HasPrefix devpath mluDeviceName then scan_int (drop (length mluDeviceName) devpath) else None)"

text \<open>\<open>strings.Split(devpath, mluDeviceName)[1]\<close>.\<close>

definition vf_suffix :: "string \<Rightarrow> string result" where
  "vf_suffix devpath =
     (case cut mluDeviceName devpath of
        None \<Rightarrow> Inl (GoPanic ''index out of range'')
      | Some (_, rest) \<Rightarrow> (case cut mluDeviceName rest of None \<Rightarrow> Inr rest | Some (a, _) \<Rightarrow> Inr a))"

definition add_card :: "mlu_options \<Rightarrow> mlu_device_list \<Rightarrow> nat \<Rightarrow> string \<Rightarrow> mlu_response \<Rightarrow> mlu_response result" where
  "add_card opts dl n devpath resp =
     (if mo_Mode opts = mode_sriov then
        bind_result (vf_suffix devpath) (\<lambda>vfid.
          Inr (addDevice devpath (mluDeviceName @ nat_str n)
                (addDevice_if (hasCommuDev dl) (mluCommuDeviceName @ vfid) (mluCommuDeviceName @ nat_str n) resp)))
      else
        case device_index devpath of
          None \<Rightarrow> Inr resp
        | Some index \<Rightarrow>
            Inr ((addDevice devpath (mluDeviceName @ nat_str n)
                  \<circ> addDevice_if (hasUARTConsoleDev dl \<and> mo_EnableConsole opts)
                      (mluUARTConsoleDeviceName @ Itoa index) (mluUARTConsoleDeviceName @ nat_str n)
                  \<circ> addDevice_if (hasIpcmDev dl) (mluIpcmDeviceName @ Itoa index) (mluIpcmDeviceName @ nat_str n)
                  \<circ> addDevice_if (hasCommuDev dl) (mluCommuDeviceName @ Itoa index) (mluCommuDeviceName @ nat_str n)
                  \<circ> addDevice_if (hasCmsgDev dl) (mluCmsgDeviceName @ Itoa index) (mluCmsgDeviceName @ nat_str n)
                  \<circ> addDevice_if (hasRPCDev dl) (mluRPCDeviceName @ '':'' @ Itoa index) (mluRPCDeviceName @ '':'' @ nat_str n)
                  \<circ> addDevice_if (hasMsgqDev dl) (mluMsgqDeviceName @ '':'' @ Itoa index) (mluMsgqDeviceName @ '':'' @ nat_str n))
                 resp))"

fun add_cards :: "mlu_options \<Rightarrow> mlu_device_list \<Rightarrow> nat \<Rightarrow> string list \<Rightarrow> mlu_response \<Rightarrow> mlu_response result" where
  "add_cards opts dl n [] resp = Inr resp"
| "add_cards opts dl n (p # ps) resp = bind_result (add_card opts dl n p resp) (\<lambda>r. add_cards opts dl (Suc n) ps r)"

definition PrepareResponse ::
  "mlu_options \<Rightarrow> mlu_device_list \<Rightarrow> mlu_devices \<Rightarrow> string list \<Rightarrow> mlu_response result" where
  "PrepareResponse opts dl devsInfo uuids =
     (let resp0 = \<lparr>mr_Envs = [],
            mr_Mounts = (''/dev/cambricon/'', ''/dev/cambricon/'', False)
              # (if mo_CnmonPath opts \<noteq> [] then [(mo_CnmonPath opts, mo_CnmonPath opts, True)] else []),
            mr_Devices = []\<rparr>;
          resp1 = addDevice_if (hasSplitDev dl) mluSplitDeviceName mluSplitDeviceName resp0
      in bind_result (uuidToPath devsInfo uuids) (\<lambda>devpaths.
           add_cards opts dl 0 devpaths (addDevice_if (hasCtrlDev dl) mluMonitorDeviceName mluMonitorDeviceName resp1)))"

definition GetDeviceUUIDByIndex :: "mlu_devices \<Rightarrow> nat \<Rightarrow> string option" where
  "GetDeviceUUIDByIndex devsInfo index = map_option fst (find (\<lambda>(_, info). md_Slot info = index) devsInfo)"

definition GetDeviceIndexByUUID :: "mlu_devices \<Rightarrow> string \<Rightarrow> nat option" where
  "GetDeviceIndexByUUID devsInfo uuid = map_option md_Slot (mget devsInfo uuid)"

section \<open>Allocate\<close>

fun card_indices :: "mlu_devices \<Rightarrow> container_devices \<Rightarrow> string list option" where
  "card_indices devsInfo [] = Some []"
| "card_indices devsInfo (v # vs) =
     (case GetDeviceIndexByUUID devsInfo (cd_UUID v) of
        None \<Rightarrow> None
      | Some i \<Rightarrow> map_option (\<lambda>is. nat_str i # is) (card_indices devsInfo vs))"

definition split_envs :: "container_devices \<Rightarrow> string list \<Rightarrow> int \<Rightarrow> (string, string) gomap" where
  "split_envs devreq indices reqMem =
     [(''CAMBRICON_SPLIT_ENABLE'', ''1''), (''CAMBRICON_SPLIT_VISIBLE_DEVICES'', Join indices '',''),
      (''CAMBRICON_SPLIT_MEMS'', Itoa reqMem)]"

text \<open>
  One container request.  The assignment is erased before the response is prepared; \<open>hookPath\<close> is the
  environment variable \<open>HOOK_PATH\<close>.
\<close>

definition mlu_allocate_one ::
  "mlu_options \<Rightarrow> mlu_device_list \<Rightarrow> mlu_devices \<Rightarrow> string \<Rightarrow> patch_api \<Rightarrow> annotations \<Rightarrow> pod \<Rightarrow> string list \<Rightarrow> cluster_state \<Rightarrow>
   mlu_response result \<times> cluster_state" where
  "mlu_allocate_one opts dl devsInfo hookPath api_patch inreq current ids st =
     (case GetNextDeviceRequest inreq CambriconMLUDevice current of
        Inl e \<Rightarrow> (Inl e, if is_panic (Inl e :: unit result) then st else PodAllocationFailed api_patch st)
      | Inr (_, devreq) \<Rightarrow>
          if length devreq \<noteq> length ids
          then (Inl (Errorf ''device number not matched''), PodAllocationFailed api_patch st)
          else
            case EraseNextDeviceTypeFromAnnotation (\<lambda>_. api_patch (cl_annos st)) inreq CambriconMLUDevice current of
              Inl e \<Rightarrow> (Inl e, PodAllocationFailed api_patch st)
            | Inr erased \<Rightarrow>
                let st1 = st\<lparr>cl_annos := pod_Annotations erased\<rparr>
                in case devreq of
                     [] \<Rightarrow> (Inl (GoPanic ''index out of range''), st1)
                   | first # _ \<Rightarrow>
                       (case PrepareResponse opts dl devsInfo (map cd_UUID devreq) of
                          Inl e \<Rightarrow> (Inl e, st1)
                        | Inr resp \<Rightarrow>
                            (case card_indices devsInfo devreq of
                               None \<Rightarrow> (Inl (Errorf ''device uuid not found''), PodAllocationFailed api_patch st1)
                             | Some indices \<Rightarrow>
                                 let reqMem = go_div (cd_Usedmem first) 1024
                                 in (Inr (resp\<lparr>mr_Envs := split_envs devreq indices reqMem,
                                           mr_Mounts := mr_Mounts resp @
                                             (if reqMem > 0
                                              then [(''/usr/bin/smlu-containerd'', hookPath @ ''/smlu-containerd'', True)] else [])\<rparr>),
                                     st1))))"

fun mlu_allocate_all ::
  "mlu_options \<Rightarrow> mlu_device_list \<Rightarrow> mlu_devices \<Rightarrow> string \<Rightarrow> patch_api \<Rightarrow> annotations \<Rightarrow> pod \<Rightarrow> string list list \<Rightarrow> cluster_state \<Rightarrow>
   mlu_response list result \<times> cluster_state" where
  "mlu_allocate_all opts dl devsInfo hookPath api_patch inreq current [] st = (Inr [], st)"
| "mlu_allocate_all opts dl devsInfo hookPath api_patch inreq current (ids # reqs) st =
     (case mlu_allocate_one opts dl devsInfo hookPath api_patch inreq current ids st of
        (Inl e, st1) \<Rightarrow> (Inl e, st1)
      | (Inr r, st1) \<Rightarrow>
          (case mlu_allocate_all opts dl devsInfo hookPath api_patch inreq current reqs st1 of
             (Inl e, st2) \<Rightarrow> (Inl e, st2)
           | (Inr rs, st2) \<Rightarrow> (Inr (r # rs), st2)))"

definition allocateMLUShare ::
  "mlu_options \<Rightarrow> mlu_device_list \<Rightarrow> mlu_devices \<Rightarrow> string \<Rightarrow> patch_api \<Rightarrow> annotations \<Rightarrow> bool \<Rightarrow> pod list result \<Rightarrow> string \<Rightarrow>
   string list list \<Rightarrow> cluster_state \<Rightarrow> mlu_response list result \<times> cluster_state" where
  "allocateMLUShare opts dl devsInfo hookPath api_patch inreq get_ok podlist nodename reqs st =
     (case GetPendingPod podlist nodename of
        Inl e \<Rightarrow> (Inl e, st\<lparr>cl_lock := snd (ReleaseNodeLock (cl_lock st))\<rparr>)
      | Inr current \<Rightarrow>
          (case mlu_allocate_all opts dl devsInfo hookPath api_patch inreq current reqs st of
             (Inl e, st1) \<Rightarrow> (Inl e, st1)
           | (Inr rs, st1) \<Rightarrow> (Inr rs, PodAllocationTrySuccess api_patch get_ok st1)))"

section \<open>Preferred allocations\<close>

text \<open>
  The annotation that records an unsatisfied link policy; \<open>size = 0\<close> removes it.  \<open>stamp\<close> is the time
  of the call.
\<close>

definition mluLinkPolicyUnsatisfied :: string where
  "mluLinkPolicyUnsatisfied = ''mluLinkPolicyUnsatisfied''"

definition createAnnotationWithTimestamp ::
  "string \<Rightarrow> string \<Rightarrow> int \<Rightarrow> api_world \<Rightarrow> unit result \<times> api_world" where
  "createAnnotationWithTimestamp policy stamp sz w =
     (case api_Get w of
        (Inl e, w1) \<Rightarrow> (Inl (Errorf ''get node err''), w1)
      | (Inr node, w1) \<Rightarrow>
          let annos = (if sz = 0 then mdel (nc_Annotations node) mluLinkPolicyUnsatisfied
                       else mset_to (nc_Annotations node) mluLinkPolicyUnsatisfied (Itoa sz @ ''-'' @ policy @ ''-'' @ stamp))
          in case api_Update (node\<lparr>nc_Annotations := annos\<rparr>) w1 of
               (Inl _, w2) \<Rightarrow> (Inl (Errorf ''update node err''), w2)
             | (Inr _, w2) \<Rightarrow> (Inr (), w2))"

fun retry_annotation ::
  "nat \<Rightarrow> string \<Rightarrow> string \<Rightarrow> int \<Rightarrow> unit result \<times> api_world \<Rightarrow> unit result \<times> api_world" where
  "retry_annotation 0 policy stamp sz rw = rw"
| "retry_annotation (Suc i) policy stamp sz rw =
     (case rw of
        (Inr u, w) \<Rightarrow> (Inr u, w)
      | (Inl _, w) \<Rightarrow> retry_annotation i policy stamp sz (createAnnotationWithTimestamp policy stamp sz w))"

definition updateNodeMLULinkAnnotation :: "string \<Rightarrow> string \<Rightarrow> int \<Rightarrow> api_world \<Rightarrow> unit result \<times> api_world" where
  "updateNodeMLULinkAnnotation policy stamp sz w =
     retry_annotation 5 policy stamp sz (createAnnotationWithTimestamp policy stamp sz w)"

fun slot_uuids :: "mlu_devices \<Rightarrow> nat list \<Rightarrow> string list result" where
  "slot_uuids devsInfo [] = Inr []"
| "slot_uuids devsInfo (dev # devs) =
     (case GetDeviceUUIDByIndex devsInfo dev of
        None \<Rightarrow> Inl (Errorf ''uuid not found for dev'')
      | Some u \<Rightarrow> bind_result (slot_uuids devsInfo devs) (\<lambda>us. Inr (u # us)))"

text \<open>\<open>alloc\<close> is the allocator's method.  A refused allocation is recorded on the node.\<close>

definition GetPreferredAllocatedDeviceUUIDs ::
  "(nat list \<Rightarrow> nat list \<Rightarrow> int \<Rightarrow> nat list result) \<Rightarrow> string \<Rightarrow> string \<Rightarrow> mlu_devices \<Rightarrow> nat list \<Rightarrow> nat list \<Rightarrow> int \<Rightarrow> api_world \<Rightarrow>
   string list result \<times> api_world" where
  "GetPreferredAllocatedDeviceUUIDs alloc policy stamp devsInfo available required sz w =
     (case alloc available required sz of
        Inl e \<Rightarrow> (Inl e, if is_panic (Inl e :: unit result) then w else snd (updateNodeMLULinkAnnotation policy stamp sz w))
      | Inr devs \<Rightarrow> (slot_uuids devsInfo devs, w))"

fun mlu_GetPreferredAllocation ::
  "(nat list \<Rightarrow> nat list \<Rightarrow> int \<Rightarrow> nat list result) \<Rightarrow> string \<Rightarrow> string \<Rightarrow> mlu_devices \<Rightarrow>
   (string list \<times> string list \<times> int) list \<Rightarrow> api_world \<Rightarrow> string list list result \<times> api_world" where
  "mlu_GetPreferredAllocation alloc policy stamp devsInfo [] w = (Inr [], w)"
| "mlu_GetPreferredAllocation alloc policy stamp devsInfo ((availableIDs, mustIDs, sz) # reqs) w =
     (case (getSlots devsInfo availableIDs, getSlots devsInfo mustIDs) of
        (Inr available, Inr required) \<Rightarrow>
          (case GetPreferredAllocatedDeviceUUIDs alloc policy stamp devsInfo available required sz w of
             (Inl e, w1) \<Rightarrow> (Inl e, w1)
           | (Inr us, w1) \<Rightarrow>
               (case mlu_GetPreferredAllocation alloc policy stamp devsInfo reqs w1 of
                  (Inl e, w2) \<Rightarrow> (Inl e, w2)
                | (Inr uss, w2) \<Rightarrow> (Inr (us # uss), w2)))
      | (Inl e, _) \<Rightarrow> (Inl e, w)
      | (_, Inl e) \<Rightarrow> (Inl e, w))"

section \<open>Serving\<close>

definition mluMemLock :: string where "mluMemLock = ''cambricon.com/mlu-mem.lock''"
definition mluMemResourceName :: string where "mluMemResourceName = ''cambricon.com/mlumem''"

definition releaseNodeLock :: "api_world \<Rightarrow> unit result \<times> api_world" where
  "releaseNodeLock w =
     (case api_Get w of
        (Inl e, w1) \<Rightarrow> (Inl e, w1)
      | (Inr node, w1) \<Rightarrow>
          if nc_Annotations node \<noteq> [] \<and> mget (nc_Annotations node) mluMemLock = None then (Inr (), w1)
          else api_Update (node\<lparr>nc_Annotations := mdel (nc_Annotations node) mluMemLock\<rparr>) w1)"

definition mlu_resourceName :: "mlu_options \<Rightarrow> string \<Rightarrow> string result" where
  "mlu_resourceName opts model =
     (if mo_EnableDeviceType opts \<and> model = [] then Inl (Errorf ''device type enabled, but got empty device model from cndev'')
      else
        Inr (if mo_Mode opts = mode_mluShare then mluMemResourceName
             else if mo_EnableDeviceType opts then
               (if ToLower model = ToLower ''MLU270-X5K'' then ''cambricon.com/'' @ ToLower model
                else ''cambricon.com/'' @ hd (Split CHR ''-'' (ToLower model)))
             else ''cambricon.com/mlunum''))"

definition mluResourceCount :: string where
  "mluResourceCount = ''cambricon.com/mlunum''"

text \<open>\<open>patch\<close> sends annotations of the node to the API server.\<close>

definition patchMLUCount :: "(annotations \<Rightarrow> unit result) \<Rightarrow> int \<Rightarrow> unit result" where
  "patchMLUCount patch n = patch [(mluResourceCount, Itoa n)]"

text \<open>What \<open>Serve\<close> prepares on the node.\<close>

definition mlu_prepare_node ::
  "mlu_options \<Rightarrow> string \<Rightarrow> mlu_library \<Rightarrow> (annotations \<Rightarrow> unit result) \<Rightarrow> api_world \<Rightarrow> unit result \<times> api_world" where
  "mlu_prepare_node opts stamp lib patch w =
     (if mo_Mode opts = mode_topologyAware \<and> mo_MLULinkPolicy opts \<noteq> BestEffort
      then updateNodeMLULinkAnnotation (mo_MLULinkPolicy opts) stamp 0 w
      else if mo_Mode opts = mode_mluShare then
        (case bind_result (ml_count lib) (\<lambda>num. patchMLUCount patch (int num)) of
           Inl e \<Rightarrow> (Inl e, w)
         | Inr _ \<Rightarrow> releaseNodeLock w)
      else (Inr (), w))"

section \<open>Pods\<close>

definition requestsMLUMemory :: "pod \<Rightarrow> bool" where
  "requestsMLUMemory p \<longleftrightarrow> list_ex (\<lambda>c. mget (ctr_Limits c) mluMemResourceName \<noteq> None) (pod_Containers p)"

definition isMLUMemoryAssumedPod :: "pod \<Rightarrow> bool" where
  "isMLUMemoryAssumedPod p \<longleftrightarrow>
     requestsMLUMemory p \<and> mget (pod_Annotations p) ''CAMBRICON_MEM_ASSUME_TIME'' \<noteq> None
     \<and> mget (pod_Annotations p) ''CAMBRICON_MEM_ASSIGHED'' = Some ''false''"

definition getAssumeTimeFromPodAnnotation :: "pod \<Rightarrow> nat" where
  "getAssumeTimeFromPodAnnotation p =
     (case mget (pod_Annotations p) ''CAMBRICON_MEM_ASSUME_TIME'' of
        None \<Rightarrow> 0
      | Some s \<Rightarrow> (case ParseUint 64 s of (u, ok) \<Rightarrow> if ok then u else 0))"

definition getIndexFromAnnotation :: "pod \<Rightarrow> nat result" where
  "getIndexFromAnnotation p =
     (case mget (pod_Annotations p) ''CAMBRICON_SPLIT_VISIBLE_DEVICES'' of
        None \<Rightarrow> Inl (Errorf ''pod annotation not found'')
      | Some value \<Rightarrow>
          (case Atoi value of
             (index, ok) \<Rightarrow>
               if \<not> ok then Inl (Errorf ''strconv value'')
               else if index < 0 then Inl (Errorf ''index less than 0'')
               else Inr (nat index)))"

definition podContainerCountWithMlu :: "container list \<Rightarrow> pod \<Rightarrow> nat" where
  "podContainerCountWithMlu initContainers p =
     length (filter (\<lambda>c. mget (ctr_Limits c) mluMemResourceName \<noteq> None) (initContainers @ pod_Containers p))"

text \<open>\<open>getPendingPodsInNode\<close>: \<open>answers\<close> are the answers of the API server to successive calls.\<close>

fun first_answer :: "nat \<Rightarrow> pod list result list \<Rightarrow> pod list result" where
  "first_answer retries (Inr pods # answers) = Inr pods"
| "first_answer (Suc retries) (Inl e # answers) = first_answer retries answers"
| "first_answer retries answers = Inl (Errorf ''failed to get pending pods assigned to node'')"

fun dedup_uids :: "string list \<Rightarrow> pod list \<Rightarrow> pod list" where
  "dedup_uids seen [] = []"
| "dedup_uids seen (p # ps) =
     (if pod_UID p \<in> set seen then dedup_uids seen ps else p # dedup_uids (pod_UID p # seen) ps)"

definition getPendingPodsInNode :: "pod list result list \<Rightarrow> pod list result" where
  "getPendingPodsInNode answers = bind_result (first_answer 5 answers) (\<lambda>items. Inr (dedup_uids [] items))"

definition assumed_before :: "pod \<Rightarrow> pod \<Rightarrow> bool" where
  "assumed_before a b \<longleftrightarrow> getAssumeTimeFromPodAnnotation a < getAssumeTimeFromPodAnnotation b"

definition getCandidatePods :: "(pod list \<Rightarrow> pod list) \<Rightarrow> pod list result list \<Rightarrow> pod list result" where
  "getCandidatePods srt answers =
     bind_result (getPendingPodsInNode answers) (\<lambda>pods. Inr (srt (filter isMLUMemoryAssumedPod pods)))"

section \<open>Lemmas\<close>

definition slots_distinct :: "mlu_devices \<Rightarrow> bool" where
  "slots_distinct devsInfo \<longleftrightarrow> map_ok devsInfo \<and> inj_on md_Slot (snd ` set devsInfo) \<and> distinct (map snd devsInfo)"

lemma getSlots_Inr:
  "getSlots devsInfo ids = Inr ss \<Longrightarrow>
     length ss = length ids \<and> (\<forall>i<length ids. \<exists>d. mget devsInfo (ids ! i) = Some d \<and> ss ! i = md_Slot d)"
proof (induction ids arbitrary: ss)
  case (Cons u us)
  then obtain d ss' where "mget devsInfo u = Some d" "getSlots devsInfo us = Inr ss'" "ss = md_Slot d # ss'"
    by (auto simp: bind_result_Inr_iff split: option.splits)
  then show ?case using Cons.IH by (auto simp: less_Suc_eq_0_disj)
qed simp

lemma distinct_slots:
  assumes "slots_distinct devsInfo" and "(u, d) \<in> set devsInfo" and "(u', d') \<in> set devsInfo" and "md_Slot d = md_Slot d'"
  shows "u = u'"
proof -
  have "d = d'" using assms by (auto simp: slots_distinct_def inj_on_def)
  then have eq: "snd (u, d) = snd (u', d')" by simp
  have "inj_on snd (set devsInfo)" using assms(1) by (simp add: slots_distinct_def distinct_map)
  from inj_onD [OF this eq assms(2,3)] show ?thesis by simp
qed

lemma GetDeviceUUIDByIndex_slot:
  assumes "slots_distinct devsInfo" and "mget devsInfo u = Some d" and "md_Slot d = s"
  shows "GetDeviceUUIDByIndex devsInfo s = Some u"
proof -
  have mem: "(u, d) \<in> set devsInfo" using assms(2) by (rule mget_SomeD)
  then obtain u' d' where f: "find (\<lambda>(_, info). md_Slot info = s) devsInfo = Some (u', d')"
    using assms(3) by (cases "find (\<lambda>(_, info). md_Slot info = s) devsInfo") (auto simp: find_None_iff)
  then have "(u', d') \<in> set devsInfo" "md_Slot d' = s" by (auto simp: find_Some_iff in_set_conv_nth)
  then show ?thesis
    using distinct_slots [OF assms(1) mem] assms(3) f by (auto simp: GetDeviceUUIDByIndex_def)
qed

lemma slot_uuids_within:
  assumes "slots_distinct devsInfo" and "getSlots devsInfo ids = Inr available" and "set devs \<subseteq> set available" and "distinct devs"
  shows "\<exists>us. slot_uuids devsInfo devs = Inr us \<and> distinct us \<and> set us \<subseteq> set ids \<and> length us = length devs
     \<and> (\<forall>u\<in>set us. \<exists>d. mget devsInfo u = Some d \<and> md_Slot d \<in> set devs)"
  using assms(3,4)
proof (induction devs)
  case (Cons s devs)
  obtain i where i: "i < length ids" "available ! i = s"
    using Cons.prems(1) getSlots_Inr [OF assms(2)] by (auto simp: in_set_conv_nth)
  then obtain d where d: "mget devsInfo (ids ! i) = Some d" "md_Slot d = s"
    using getSlots_Inr [OF assms(2)] by auto
  note uid = GetDeviceUUIDByIndex_slot [OF assms(1) d]
  obtain us where us: "slot_uuids devsInfo devs = Inr us" "distinct us" "set us \<subseteq> set ids" "length us = length devs"
    "\<forall>u\<in>set us. \<exists>d. mget devsInfo u = Some d \<and> md_Slot d \<in> set devs"
    using Cons by auto
  have "ids ! i \<notin> set us" using us(5) d Cons.prems(2) by fastforce
  then show ?case using uid us d i by (auto intro!: exI [of _ "ids ! i # us"])
qed simp

text \<open>What the server gets from any allocator that keeps its contract.\<close>

context device_allocator
begin

lemma preferred_uuids:
  assumes "slots_distinct devsInfo" and "getSlots devsInfo ids = Inr available" and "ready available sz"
    and "GetPreferredAllocatedDeviceUUIDs alloc policy stamp devsInfo available required sz w = (r, w')"
    and "alloc available required sz = Inr devs"
  shows "\<exists>us. r = Inr us \<and> w' = w \<and> distinct us \<and> set us \<subseteq> set ids \<and> int (length us) = sz"
  using slot_uuids_within [OF assms(1,2), of devs] alloc_sound [OF assms(3,5)] assms(4,5)
  by (auto simp: GetPreferredAllocatedDeviceUUIDs_def)

end

section \<open>Properties of the plugin\<close>

text \<open>C28: the kubelet's question for preferred devices is answered soundly whatever the model of the cards:
  under the best-effort policy a request for no more cards than are available is answered with exactly
  that many distinct ids, all of them available, and the node is not touched.\<close>
theorem mlu_preferred_allocation:
  assumes "slots_distinct devsInfo" and "getSlots devsInfo ids = Inr available" and "getSlots devsInfo must = Inr required"
    and "distinct ids" and "topology_ok env" and "te_rings env available sz = Inr rings" and "0 < sz" and "sz \<le> int (length ids)"
  shows "\<exists>us. mlu_GetPreferredAllocation (Allocator_Allocate kind env BestEffort devsInfo) BestEffort stamp devsInfo
         [(ids, must, sz)] w = (Inr [us], w)
     \<and> distinct us \<and> set us \<subseteq> set ids \<and> int (length us) = sz"
proof -
  note slots = getSlots_Inr [OF assms(2)]
  have cards: "set available \<subseteq> md_Slot ` snd ` set devsInfo"
  proof
    fix s assume "s \<in> set available"
    then obtain i where "i < length ids" "available ! i = s" using slots by (auto simp: in_set_conv_nth)
    then obtain d where d: "mget devsInfo (ids ! i) = Some d" "md_Slot d = s" using slots by auto
    show "s \<in> md_Slot ` snd ` set devsInfo" using mget_SomeD [OF d(1)] d(2) by force
  qed
  have dist: "distinct available"
    unfolding distinct_conv_nth
  proof (intro allI impI)
    fix i j assume ij: "i < length available" "j < length available" "i \<noteq> j"
    then obtain d d' where d: "mget devsInfo (ids ! i) = Some d" "available ! i = md_Slot d"
      "mget devsInfo (ids ! j) = Some d'" "available ! j = md_Slot d'" using slots by metis
    have "ids ! i \<noteq> ids ! j" using ij slots assms(4) by (simp add: nth_eq_iff_index_eq)
    then show "available ! i \<noteq> available ! j"
      using distinct_slots [OF assms(1) mget_SomeD [OF d(1)] mget_SomeD [OF d(3)]] d by auto
  qed
  have le: "sz \<le> int (length available)" using assms(8) slots by simp
  obtain devs where devs: "Allocator_Allocate kind env BestEffort devsInfo available required sz = Inr devs"
    using best_effort_succeeds [OF assms(5-7) dist cards le] by blast
  have ready: "allocator_ready kind env available sz" using assms(5,7) dist le by (simp add: allocator_ready_def)
  obtain r w' where g: "GetPreferredAllocatedDeviceUUIDs (Allocator_Allocate kind env BestEffort devsInfo) BestEffort stamp
      devsInfo available required sz w = (r, w')" by fastforce
  show ?thesis
    using mlu_allocator.preferred_uuids [OF assms(1,2) ready g devs] g assms(2,3) by auto
qed

lemma example_mlus_slots:
  "getSlots example_mlus (map fst example_mlus) = Inr [0, 1, 5]" "slots_distinct example_mlus" "distinct (map fst example_mlus)"
  by (simp_all add: example_mlus_def example_mlu_def slots_distinct_def Let_def)

theorem mlu_preferred_allocation_witness:
  "\<exists>us. mlu_GetPreferredAllocation (Allocator_Allocate SpiderAllocator no_rings BestEffort example_mlus) BestEffort ''0'' example_mlus
         [(map fst example_mlus, [], 2)] (example_world [] []) = (Inr [us], example_world [] [])
     \<and> set us \<subseteq> set (map fst example_mlus) \<and> int (length us) = 2"
proof -
  have rings: "te_rings no_rings [0, 1, 5] 2 = Inr []" by (simp add: no_rings_def)
  have le: "(2::int) \<le> int (length (map fst example_mlus))" by (simp add: example_mlus_def)
  have must: "getSlots example_mlus [] = Inr []" by simp
  have pos: "(0::int) < 2" by simp
  show ?thesis
    using mlu_preferred_allocation [OF example_mlus_slots(2,1) must example_mlus_slots(3) no_rings_ok rings pos le,
        of SpiderAllocator "''0''" "example_world [] []"]
    by (elim exE conjE) (intro exI conjI)
qed

text \<open>The Cambricon plugin can never start a container: the program registers an annotation name for
  NVIDIA only, so no pod ever carries an assignment of MLU cards and every call of \<open>Allocate\<close> that has a
  container request ends in an error.\<close>
lemma mlu_Allocate_never_succeeds:
  assumes "reqs \<noteq> []"
  shows "\<exists>e. fst (allocateMLUShare opts dl devsInfo hookPath api_patch InRequestDevices get_ok podlist nodename reqs st) = Inl e"
proof -
  have "CambriconMLUDevice \<notin> fst ` set InRequestDevices"
    by (simp add: InRequestDevices_def device_names)
  then have none: "GetNextDeviceRequest InRequestDevices CambriconMLUDevice p = Inl (Errorf ''device request not found'')" for p
    by (rule GetNextDeviceRequest_unlisted)
  obtain ids reqs' where "reqs = ids # reqs'" using assms by (cases reqs) auto
  then show ?thesis
    using none by (cases "GetPendingPod podlist nodename") (auto simp: allocateMLUShare_def mlu_allocate_one_def)
qed

lemma mlu_Allocate_never_succeeds_example:
  "\<exists>e. fst (allocateMLUShare \<lparr>mo_Mode = mode_envShare, mo_MLULinkPolicy = BestEffort, mo_EnableConsole = False,
        mo_EnableDeviceType = False, mo_CnmonPath = []\<rparr> (newDeviceList (\<lambda>_. Inr [])) example_mlus [] patch_always
        InRequestDevices True (Inr [example_allocating [[example_assignment]]]) ''n1'' [[''MLU-0'']]
        \<lparr>cl_annos = [], cl_lock = example_world [] []\<rparr>) = Inl e"
  by (rule mlu_Allocate_never_succeeds) simp

end
