(* ===== verification/Mlu_Main.thy ===== *)
theory Mlu_Main
  imports Mlu_Plugin Event_Loop
begin

text \<open>
  The life of the Cambricon plugin process: starting, registering and stopping the server
  (\<open>pkg/device-plugin/mlu/server.go\<close>) and the loop of \<open>cmd/device-plugin/mlu/main.go\<close>.  The outcomes of system and library
  calls are gathered in one record per incarnation of the plugin.  The world counts the gRPC servers that
  serve the socket and the health checks that run, which are goroutines of the process: that of the device
  cache, that of the present incarnation, and those of earlier incarnations that are held up for ever.
\<close>

section \<open>The plugin object\<close>

text \<open>
  \<open>mi_stuck\<close> says that the health check of the incarnation does not see that it is stopped: it is handing a report
  to \<open>ListAndWatch\<close> (\<open>m.health <- dev\<close>), or its watcher is handing one to it, and nobody receives it any more.
\<close>

datatype remove_outcome = Removed | NotExist | RemoveFailed string

record mlu_io =
  mi_devices :: "(plugin_device list \<times> mlu_devices) result"
  mi_library :: mlu_library
  mi_stamp :: string
  mi_patch :: "annotations \<Rightarrow> unit result"
  mi_remove_start :: remove_outcome
  mi_listen :: "unit result"
  mi_dial :: "unit result"
  mi_dial_kubelet :: "unit result"
  mi_register :: "register_request \<Rightarrow> unit result"
  mi_remove_stop :: remove_outcome
  mi_stuck :: bool

record mlu_instance =
  in_server :: bool
  in_stop :: bool
  in_watching :: bool

record mlu_world =
  mw_api :: api_world
  mw_servers :: nat
  mw_checks :: nat
  mw_stuck :: nat

definition serverSock :: string where
  "serverSock = DevicePluginPath @ ''cambricon.sock''"

definition NewCambriconDevicePlugin :: "mlu_io \<Rightarrow> mlu_instance result" where
  "NewCambriconDevicePlugin io = bind_result (mi_devices io) (\<lambda>_. Inr \<lparr>in_server = False, in_stop = False, in_watching = False\<rparr>)"

definition mlu_cleanup :: "remove_outcome \<Rightarrow> unit result" where
  "mlu_cleanup r = (case r of RemoveFailed e \<Rightarrow> Inl (Errorf e) | _ \<Rightarrow> Inr ())"

definition mlu_Start :: "bool \<Rightarrow> mlu_io \<Rightarrow> mlu_instance \<Rightarrow> mlu_world \<Rightarrow> unit result \<times> mlu_instance \<times> mlu_world" where
  "mlu_Start DisableHealthCheck io m w =
     (case bind_result (mlu_cleanup (mi_remove_start io)) (\<lambda>_. mi_listen io) of
        Inl e \<Rightarrow> (Inl e, m, w)
      | Inr _ \<Rightarrow>
          let m1 = m\<lparr>in_server := True\<rparr>; w1 = w\<lparr>mw_servers := mw_servers w + 1\<rparr>
          in case mi_dial io of
               Inl e \<Rightarrow> (Inl e, m1, w1)
             | Inr _ \<Rightarrow>
                 if \<not> DisableHealthCheck then (Inr (), m1\<lparr>in_watching := True\<rparr>, w1\<lparr>mw_checks := mw_checks w1 + 1\<rparr>)
                 else (Inr (), m1, w1))"

text \<open>Closing the channel \<open>stop\<close> ends the health check, unless it is stuck.\<close>

definition mlu_Stop :: "remove_outcome \<Rightarrow> bool \<Rightarrow> mlu_instance \<Rightarrow> mlu_world \<Rightarrow> unit result \<times> mlu_instance \<times> mlu_world" where
  "mlu_Stop rm stuck m w =
     (if \<not> in_server m then (Inr (), m, w)
      else if in_stop m then (Inl (GoPanic ''close of closed channel''), m\<lparr>in_server := False\<rparr>, w\<lparr>mw_servers := mw_servers w - 1\<rparr>)
      else (mlu_cleanup rm, m\<lparr>in_server := False, in_stop := True, in_watching := False\<rparr>,
            w\<lparr>mw_servers := mw_servers w - 1,
              mw_checks := (if in_watching m \<and> \<not> stuck then mw_checks w - 1 else mw_checks w),
              mw_stuck := (if in_watching m \<and> stuck then mw_stuck w + 1 else mw_stuck w)\<rparr>))"

definition mlu_GetDevicePluginOptions :: "mlu_options \<Rightarrow> bool" where
  "mlu_GetDevicePluginOptions opts = (mo_Mode opts = mode_topologyAware)"

text \<open>The health check forwards the cards that \<open>watchUnhealthy\<close> reports, until the plugin is stopped.\<close>

datatype health_message = StopClosed | HealthReport plugin_device

fun mlu_healthcheck :: "health_message list \<Rightarrow> plugin_device list" where
  "mlu_healthcheck [] = []"
| "mlu_healthcheck (HealthReport dev # ms) = dev # mlu_healthcheck ms"
| "mlu_healthcheck (StopClosed # ms) = []"

definition mlu_Register :: "mlu_options \<Rightarrow> mlu_io \<Rightarrow> string \<Rightarrow> unit result" where
  "mlu_Register opts io resourceName =
     bind_result (mi_dial_kubelet io) (\<lambda>_.
       mi_register io \<lparr>rr_Version = ''v1beta1'', rr_Endpoint = Base serverSock, rr_ResourceName = resourceName,
         rr_PreferredAllocation = mlu_GetDevicePluginOptions opts\<rparr>)"

text \<open>The steps of \<open>Serve\<close> after the server has started; every error stops it again, and the error of \<open>Stop\<close> is dropped.\<close>

definition stop_with :: "string \<Rightarrow> mlu_io \<Rightarrow> mlu_instance \<Rightarrow> mlu_world \<Rightarrow> 'a result \<times> mlu_instance \<times> mlu_world" where
  "stop_with msg io m w =
     (case mlu_Stop (mi_remove_stop io) (mi_stuck io) m w of
        (Inl (GoPanic s), m', w') \<Rightarrow> (Inl (GoPanic s), m', w')
      | (_, m', w') \<Rightarrow> (Inl (Errorf msg), m', w'))"

definition serve_started :: "mlu_options \<Rightarrow> mlu_io \<Rightarrow> mlu_instance \<Rightarrow> mlu_world \<Rightarrow> string result \<times> mlu_instance \<times> mlu_world" where
  "serve_started opts io m w =
     (case mlu_resourceName opts (ml_model (mi_library io) 0) of
        Inl e \<Rightarrow> stop_with ''device type enabled, but got empty device model from cndev'' io m w
      | Inr resourceName \<Rightarrow>
          (case mlu_Register opts io resourceName of
             Inl e \<Rightarrow> stop_with (''register resource '' @ resourceName @ '' err'') io m w
           | Inr _ \<Rightarrow> (Inr resourceName, m, w)))"

definition mlu_Serve ::
  "bool \<Rightarrow> mlu_options \<Rightarrow> mlu_io \<Rightarrow> mlu_instance \<Rightarrow> mlu_world \<Rightarrow> string result \<times> mlu_instance \<times> mlu_world" where
  "mlu_Serve DisableHealthCheck opts io m w =
     (if mo_CnmonPath opts \<noteq> [] \<and> \<not> HasPrefix (mo_CnmonPath opts) ''/'' then (Inl (GoPanic ''invalid cnmon path''), m, w)
      else
        case mlu_prepare_node opts (mi_stamp io) (mi_library io) (mi_patch io) (mw_api w) of
          (Inl e, api) \<Rightarrow> (Inl e, m, w\<lparr>mw_api := api\<rparr>)
        | (Inr _, api) \<Rightarrow>
            (case mlu_Start DisableHealthCheck io m (w\<lparr>mw_api := api\<rparr>) of
               (Inl (GoPanic s), m1, w1) \<Rightarrow> (Inl (GoPanic s), m1, w1)
             | (Inl (Errorf e), m1, w1) \<Rightarrow> (Inl (Errorf (''start device plugin err: '' @ e)), m1, w1)
             | (Inr _, m1, w1) \<Rightarrow> serve_started opts io m1 w1))"

section \<open>The loop of the process\<close>

text \<open>
  What \<open>main\<close> does before the loop: without CNDEV or without a card it waits for ever, an unreadable number
  of cards is a panic, and a watcher that cannot be made ends the process.
\<close>

datatype mlu_boot = WaitsForever | BootPanic | ExitsWith int | EntersLoop

definition mlu_main_boot :: "unit result \<Rightarrow> nat result \<Rightarrow> unit result \<Rightarrow> mlu_boot" where
  "mlu_main_boot init num watcher =
     (if isl init then WaitsForever
      else case num of
             Inl _ \<Rightarrow> BootPanic
           | Inr n \<Rightarrow> if n = 0 then WaitsForever else if isl watcher then ExitsWith 1 else EntersLoop)"

datatype mlu_event = StartErrClosed | FileEvent string bool | WatcherError | HangUp | OtherSignal

record mlu_daemon =
  md_plugin :: mlu_instance
  md_io :: mlu_io
  md_startErr :: bool
  md_world :: mlu_world

datatype mlu_outcome = MluRunning mlu_daemon | MluExited mlu_world | MluPanic string

definition mlu_begin :: "bool \<Rightarrow> mlu_options \<Rightarrow> mlu_io \<Rightarrow> mlu_world \<Rightarrow> mlu_outcome" where
  "mlu_begin DisableHealthCheck opts io w =
     (case NewCambriconDevicePlugin io of
        Inl e \<Rightarrow> MluPanic ''check''
      | Inr m \<Rightarrow>
          (case mlu_Serve DisableHealthCheck opts io m w of
             (Inl (GoPanic s), _) \<Rightarrow> MluPanic s
           | (Inl (Errorf e), m', w') \<Rightarrow> MluRunning \<lparr>md_plugin = m', md_io = io, md_startErr = True, md_world = w'\<rparr>
           | (Inr _, m', w') \<Rightarrow> MluRunning \<lparr>md_plugin = m', md_io = io, md_startErr = False, md_world = w'\<rparr>))"

text \<open>
  Before the loop \<open>main\<close> starts the device cache.  \<open>cached\<close> is the outcome of reading its devices; its health
  check runs with a context that is never cancelled.
\<close>

definition mlu_cache_Start :: "mlu_world \<Rightarrow> mlu_world" where
  "mlu_cache_Start w = w\<lparr>mw_checks := mw_checks w + 1\<rparr>"

definition mlu_main_start :: "bool \<Rightarrow> mlu_options \<Rightarrow> unit result \<Rightarrow> mlu_io \<Rightarrow> mlu_world \<Rightarrow> mlu_outcome" where
  "mlu_main_start DisableHealthCheck opts cached io w =
     (if isl cached then MluPanic ''check'' else mlu_begin DisableHealthCheck opts io (mlu_cache_Start w))"

definition mlu_restart :: "bool \<Rightarrow> mlu_options \<Rightarrow> mlu_io \<Rightarrow> mlu_daemon \<Rightarrow> mlu_outcome" where
  "mlu_restart DisableHealthCheck opts io d =
     (case mlu_Stop (mi_remove_stop (md_io d)) (mi_stuck (md_io d)) (md_plugin d) (md_world d) of
        (Inl (GoPanic s), _) \<Rightarrow> MluPanic s
      | (_, _, w) \<Rightarrow> mlu_begin DisableHealthCheck opts io w)"

text \<open>One turn: an event and, should it restart the plugin, the outcomes of the new incarnation.\<close>

definition mlu_turn :: "bool \<Rightarrow> mlu_options \<Rightarrow> mlu_event \<times> mlu_io \<Rightarrow> mlu_daemon \<Rightarrow> mlu_outcome" where
  "mlu_turn DisableHealthCheck opts = (\<lambda>(ev, io) d.
     case ev of
       StartErrClosed \<Rightarrow> if md_startErr d then mlu_restart DisableHealthCheck opts io d else MluRunning d
     | FileEvent name created \<Rightarrow>
         if name = KubeletSocket \<and> created then mlu_restart DisableHealthCheck opts io d else MluRunning d
     | WatcherError \<Rightarrow> MluRunning d
     | HangUp \<Rightarrow> mlu_restart DisableHealthCheck opts io d
     | OtherSignal \<Rightarrow>
         (case mlu_Stop (mi_remove_stop (md_io d)) (mi_stuck (md_io d)) (md_plugin d) (md_world d) of
            (Inl (GoPanic s), _) \<Rightarrow> MluPanic s
          | (_, _, w) \<Rightarrow> MluExited w))"

section \<open>The command line\<close>

text \<open>
  \<open>ParseFlags\<close>: the first argument that begins with a single-dash \<open>mode\<close> gets a second dash, and an environment
  variable switches the health check off; the parser is a library, whose failure ends the process.
\<close>

fun fix_mode :: "string list \<Rightarrow> string list" where
  "fix_mode [] = []"
| "fix_mode (arg # args) = (if HasPrefix arg ''-mode'' then (''--mode'' @ drop 5 arg) # args else arg # fix_mode args)"

definition fix_args :: "string option \<Rightarrow> string list \<Rightarrow> string list" where
  "fix_args disable args = (let as = fix_mode args in if disable = Some ''all'' then as @ [''--disable-health-check''] else as)"

text \<open>
  The parser yields the options of the plugin, the virtualization number and the socket path; the last two
  are also stored in the variables \<open>DeviceSplitCount\<close> and \<open>RuntimeSocketFlag\<close> of package \<open>util\<close>.
\<close>

record 'o parsed_flags =
  pa_options :: 'o
  pa_VirtualizationNum :: nat
  pa_SocketPath :: string

record util_flags =
  ut_DeviceSplitCount :: "nat option"
  ut_RuntimeSocketFlag :: string

definition ParseFlags ::
  "(string list \<Rightarrow> bool + 'o parsed_flags) \<Rightarrow> string option \<Rightarrow> string list \<Rightarrow> util_flags \<Rightarrow> int + 'o parsed_flags \<times> util_flags" where
  "ParseFlags parse disable args u =
     (case parse (fix_args disable args) of
        Inl help \<Rightarrow> Inl (if help then 0 else 1)
      | Inr options \<Rightarrow> Inr (options,
          u\<lparr>ut_DeviceSplitCount := Some (pa_VirtualizationNum options), ut_RuntimeSocketFlag := pa_SocketPath options\<rparr>))"

section \<open>One server at a time\<close>

text \<open>The servers of the process are those of the present incarnation; the health checks are its own, the cache's and the stuck ones.\<close>

definition instance_ok :: "mlu_instance \<Rightarrow> mlu_world \<Rightarrow> bool" where
  "instance_ok m w \<longleftrightarrow> (in_server m \<longrightarrow> \<not> in_stop m) \<and> (in_watching m \<longrightarrow> in_server m)
     \<and> mw_servers w = of_bool (in_server m) \<and> mw_checks w = 1 + mw_stuck w + of_bool (in_watching m)"

lemma mlu_cleanup_np [simp]: "mlu_cleanup r \<noteq> Inl (GoPanic s)"
  by (cases r) (simp_all add: mlu_cleanup_def)

lemma mlu_Stop_ok:
  assumes "instance_ok m w"
  shows "\<exists>r m' w'. mlu_Stop rm stuck m w = (r, m', w') \<and> \<not> is_panic r \<and> instance_ok m' w' \<and> \<not> in_server m'
     \<and> \<not> in_watching m' \<and> mw_stuck w' = mw_stuck w + of_bool (in_watching m \<and> stuck)"
  using assms by (cases rm; cases "in_server m") (auto simp: mlu_Stop_def instance_ok_def mlu_cleanup_def)

text \<open>The stuck health checks when the present one is counted as soon as it runs.\<close>

definition stuck_bound :: "mlu_io \<Rightarrow> mlu_instance \<Rightarrow> mlu_world \<Rightarrow> nat" where
  "stuck_bound io m w = mw_stuck w + of_bool (in_watching m \<and> mi_stuck io)"

lemma stop_with_ok:
  assumes "instance_ok m w"
  shows "\<exists>m' w'. stop_with msg io m w = (Inl (Errorf msg), m', w') \<and> instance_ok m' w' \<and> stuck_bound io m' w' = stuck_bound io m w"
  using mlu_Stop_ok [OF assms, of "mi_remove_stop io" "mi_stuck io"]
  by (fastforce simp: stop_with_def is_panic_def stuck_bound_def split: sum.splits go_error.splits)

definition io_ok :: "mlu_io \<Rightarrow> bool" where
  "io_ok io \<longleftrightarrow> \<not> isl (mi_devices io) \<and> \<not> is_panic (mi_listen io) \<and> \<not> is_panic (mi_dial io)
     \<and> \<not> is_panic (ml_count (mi_library io)) \<and> (\<forall>n. \<not> is_panic (mi_patch io n))"

lemma mlu_Start_ok:
  assumes "instance_ok m w" and "\<not> in_server m" and "\<not> in_stop m" and "io_ok io"
  shows "\<exists>r m' w'. mlu_Start dis io m w = (r, m', w') \<and> \<not> is_panic r \<and> instance_ok m' w' \<and> (r = Inr () \<longrightarrow> in_server m')
     \<and> stuck_bound io m' w' \<le> mw_stuck w + of_bool (mi_stuck io)"
  using assms
  by (cases "mi_remove_start io"; cases "mi_listen io"; cases "mi_dial io"; cases dis)
    (auto simp: mlu_Start_def instance_ok_def mlu_cleanup_def Let_def io_ok_def stuck_bound_def)

lemma serve_started_ok:
  assumes "instance_ok m w" and "in_server m"
  shows "\<exists>r m' w'. serve_started opts io m w = (r, m', w') \<and> \<not> is_panic r \<and> instance_ok m' w' \<and> (\<not> isl r \<longrightarrow> in_server m')
     \<and> stuck_bound io m' w' = stuck_bound io m w"
proof (cases "mlu_resourceName opts (ml_model (mi_library io) 0)")
  case (Inl e)
  then show ?thesis using stop_with_ok [OF assms(1)] by (fastforce simp: serve_started_def)
next
  case name: (Inr resourceName)
  show ?thesis
  proof (cases "mlu_Register opts io resourceName")
    case (Inl e)
    then show ?thesis using name stop_with_ok [OF assms(1)] by (fastforce simp: serve_started_def)
  next
    case (Inr u)
    then show ?thesis using name assms by (simp add: serve_started_def)
  qed
qed

lemma api_np [simp]:
  "fst (api_Get w) \<noteq> Inl (GoPanic s)" "fst (api_Update n w) \<noteq> Inl (GoPanic s)"
  by (auto simp: api_Get_def api_Update_def Let_def split: prod.splits api_event.splits)

lemma createAnnotation_np: "fst (createAnnotationWithTimestamp policy stamp sz w) \<noteq> Inl (GoPanic s)"
  by (auto simp: createAnnotationWithTimestamp_def Let_def split: prod.splits sum.splits)

lemma retry_annotation_np: "fst rw \<noteq> Inl (GoPanic s) \<Longrightarrow> fst (retry_annotation i policy stamp sz rw) \<noteq> Inl (GoPanic s)"
  by (induction i arbitrary: rw) (auto simp: createAnnotation_np split: prod.splits sum.splits)

lemma releaseNodeLock_np: "fst (releaseNodeLock w) \<noteq> Inl (GoPanic s)"
proof (cases "api_Get w")
  case (Pair r w1)
  then have "r \<noteq> Inl (GoPanic s)" using api_np(1) [of w s] by simp
  then show ?thesis using Pair by (auto simp: releaseNodeLock_def split: sum.splits)
qed

lemma mlu_prepare_node_np:
  assumes "io_ok io"
  shows "\<not> is_panic (fst (mlu_prepare_node opts stamp (mi_library io) (mi_patch io) w))"
proof -
  have "fst (mlu_prepare_node opts stamp (mi_library io) (mi_patch io) w) \<noteq> Inl (GoPanic s)" for s
    using assms retry_annotation_np [of "createAnnotationWithTimestamp (mo_MLULinkPolicy opts) stamp 0 w" s, OF createAnnotation_np]
      releaseNodeLock_np [of w s]
    by (cases "ml_count (mi_library io)")
      (auto simp: mlu_prepare_node_def patchMLUCount_def updateNodeMLULinkAnnotation_def io_ok_def is_panic_def bind_result_def
        split: sum.splits go_error.splits)
  then show ?thesis by (auto simp: is_panic_def split: sum.splits go_error.splits)
qed

definition cnmon_ok :: "mlu_options \<Rightarrow> bool" where
  "cnmon_ok opts \<longleftrightarrow> mo_CnmonPath opts = [] \<or> HasPrefix (mo_CnmonPath opts) ''/''"

lemma mlu_Serve_ok:
  assumes "instance_ok m w" and "\<not> in_server m" and "\<not> in_stop m" and "io_ok io" and "cnmon_ok opts"
  shows "\<exists>r m' w'. mlu_Serve dis opts io m w = (r, m', w') \<and> \<not> is_panic r \<and> instance_ok m' w' \<and> (\<not> isl r \<longrightarrow> in_server m')
     \<and> stuck_bound io m' w' \<le> mw_stuck w + of_bool (mi_stuck io)"
proof -
  obtain pr api where prep: "mlu_prepare_node opts (mi_stamp io) (mi_library io) (mi_patch io) (mw_api w) = (pr, api)" by fastforce
  have np: "\<not> is_panic pr" using mlu_prepare_node_np [OF assms(4), of opts "mi_stamp io" "mw_api w"] prep by simp
  have path: "\<not> (mo_CnmonPath opts \<noteq> [] \<and> \<not> HasPrefix (mo_CnmonPath opts) ''/'')" using assms(5) by (auto simp: cnmon_ok_def)
  have ok: "instance_ok m (w\<lparr>mw_api := api\<rparr>)" using assms(1) by (simp add: instance_ok_def)
  obtain r m1 w1 where start: "mlu_Start dis io m (w\<lparr>mw_api := api\<rparr>) = (r, m1, w1)" "\<not> is_panic r" "instance_ok m1 w1"
    "r = Inr () \<longrightarrow> in_server m1" "stuck_bound io m1 w1 \<le> mw_stuck w + of_bool (mi_stuck io)"
    using mlu_Start_ok [OF ok assms(2-4), of dis] by (elim exE conjE) (simp add: that)
  have unfold: "mlu_Serve dis opts io m w =
      (case pr of Inl e \<Rightarrow> (Inl e, m, w\<lparr>mw_api := api\<rparr>)
       | Inr _ \<Rightarrow> (case r of Inl (GoPanic s) \<Rightarrow> (Inl (GoPanic s), m1, w1)
            | Inl (Errorf e) \<Rightarrow> (Inl (Errorf (''start device plugin err: '' @ e)), m1, w1)
            | Inr _ \<Rightarrow> serve_started opts io m1 w1))"
    unfolding mlu_Serve_def if_not_P [OF path] prep using start(1) by (simp split: sum.splits go_error.splits)
  show ?thesis
  proof (cases pr)
    case (Inl e)
    have "\<not> in_watching m" using assms(1,2) by (auto simp: instance_ok_def)
    with Inl show ?thesis using unfold np ok by (cases e) (simp_all add: stuck_bound_def)
  next
    case pr: (Inr u)
    show ?thesis
    proof (cases r)
      case (Inl e)
      then show ?thesis using unfold pr start by (cases e) simp_all
    next
      case (Inr u)
      then have "in_server m1" using start(4) by simp
      from serve_started_ok [OF start(3) this, of opts io] show ?thesis using unfold pr Inr start(5) by fastforce
    qed
  qed
qed

definition mlu_good :: "mlu_outcome \<Rightarrow> bool" where
  "mlu_good out = (case out of
     MluRunning d \<Rightarrow> instance_ok (md_plugin d) (md_world d) \<and> (\<not> md_startErr d \<longrightarrow> in_server (md_plugin d))
   | MluExited w \<Rightarrow> mw_servers w = 0 \<and> mw_checks w = 1 + mw_stuck w
   | MluPanic s \<Rightarrow> False)"

definition mlu_stuck :: "mlu_outcome \<Rightarrow> nat" where
  "mlu_stuck out = (case out of
     MluRunning d \<Rightarrow> stuck_bound (md_io d) (md_plugin d) (md_world d) | MluExited w \<Rightarrow> mw_stuck w | MluPanic s \<Rightarrow> 0)"

lemma mlu_begin_good:
  assumes "io_ok io" and "cnmon_ok opts" and "mw_servers w = 0" and "mw_checks w = 1 + mw_stuck w"
  shows "mlu_good (mlu_begin dis opts io w) \<and> mlu_stuck (mlu_begin dis opts io w) \<le> mw_stuck w + of_bool (mi_stuck io)"
proof -
  let ?m = "\<lparr>in_server = False, in_stop = False, in_watching = False\<rparr>"
  have new: "NewCambriconDevicePlugin io = Inr ?m"
    using assms(1) by (cases "mi_devices io") (simp_all add: io_ok_def NewCambriconDevicePlugin_def)
  have "instance_ok ?m w" using assms(3,4) by (simp add: instance_ok_def)
  then obtain r m' w' where "mlu_Serve dis opts io ?m w = (r, m', w')" "\<not> is_panic r" "instance_ok m' w'" "\<not> isl r \<longrightarrow> in_server m'"
    "stuck_bound io m' w' \<le> mw_stuck w + of_bool (mi_stuck io)"
    using mlu_Serve_ok [of ?m w] assms(1,2) by fastforce
  then show ?thesis using new
    by (cases r) (auto simp: mlu_begin_def mlu_good_def mlu_stuck_def is_panic_def split: go_error.splits)
qed

lemma mlu_turn_good:
  assumes "cnmon_ok opts" and "mlu_good (MluRunning d)" and "io_ok (snd e)"
  shows "mlu_good (mlu_turn dis opts e d) \<and> mlu_stuck (mlu_turn dis opts e d) \<le> mlu_stuck (MluRunning d) + of_bool (mi_stuck (snd e))"
proof -
  let ?stop = "mlu_Stop (mi_remove_stop (md_io d)) (mi_stuck (md_io d)) (md_plugin d) (md_world d)"
  have inst: "instance_ok (md_plugin d) (md_world d)" using assms(2) by (simp add: mlu_good_def)
  obtain r m' w' where stop: "?stop = (r, m', w')" "\<not> is_panic r" "instance_ok m' w'" "\<not> in_server m'" "\<not> in_watching m'"
    "mw_stuck w' = mlu_stuck (MluRunning d)"
    using mlu_Stop_ok [OF inst] by (fastforce simp: mlu_stuck_def stuck_bound_def)
  then have w': "mw_servers w' = 0" "mw_checks w' = 1 + mw_stuck w'" by (simp_all add: instance_ok_def)
  have restart: "mlu_restart dis opts (snd e) d = mlu_begin dis opts (snd e) w'"
    using stop(1,2) by (auto simp: mlu_restart_def is_panic_def split: sum.splits go_error.splits)
  have exit: "(case ?stop of (Inl (GoPanic s), _) \<Rightarrow> MluPanic s | (_, _, w) \<Rightarrow> MluExited w) = MluExited w'"
    using stop(1,2) by (auto simp: is_panic_def split: sum.splits go_error.splits)
  have "mlu_turn dis opts e d \<in> {MluRunning d, mlu_begin dis opts (snd e) w', MluExited w'}"
    using restart exit by (cases e; cases "fst e") (auto simp: mlu_turn_def)
  then show ?thesis
    using assms(2) mlu_begin_good [OF assms(3,1) w'] stop(6) w' by (auto simp: mlu_good_def mlu_stuck_def)
qed

text \<open>The kubelet is told the name of the very socket that the server listens on.\<close>

lemma mlu_registered_endpoint: "DevicePluginPath @ Base serverSock = serverSock"
  using Base_append [of "''cambricon.sock''" "''/var/lib/kubelet/device-plugins''"] by (simp add: serverSock_def DevicePluginPath_def)

text \<open>All reports up to the stop are forwarded, in their order, and none after it.\<close>

lemma mlu_healthcheck_forwards: "mlu_healthcheck (map HealthReport ds @ StopClosed # ms) = ds"
  by (induction ds) auto

text \<open>
  What the kubelet is told of the cards: after every report the list names each card once more, the reported
  one with its new health and all others as before.
\<close>

lemma map_of_set_health:
  "map_of (set_health ev ds) k = (if k = fst ev \<and> k \<in> fst ` set ds then Some (snd ev) else map_of ds k)"
  by (induction ds) (auto simp: rev_image_eqI)

lemma set_health_ids: "map fst (set_health ev ds) = map fst ds"
  by (induction ds) auto

lemma health_reaches_kubelet:
  assumes "mlu_healthcheck ms = reports @ [(uuid, health)]" and "uuid \<in> fst ` set devs"
  shows "map_of (last (mlu_ListAndWatch devs (mlu_healthcheck ms))) uuid = Some health"
    and "k \<noteq> uuid \<Longrightarrow> map_of (last (mlu_ListAndWatch devs (mlu_healthcheck ms))) k = map_of (last (mlu_ListAndWatch devs reports)) k"
proof -
  have sent: "last (mlu_ListAndWatch devs events) = fold set_health events devs" for events
    by (simp add: mlu_ListAndWatch_def)
  have "map fst (fold set_health reports devs) = map fst devs"
    by (induction reports arbitrary: devs) (simp_all add: set_health_ids)
  then have "uuid \<in> fst ` set (fold set_health reports devs)" using assms(2) by (metis list.set_map)
  then show "map_of (last (mlu_ListAndWatch devs (mlu_healthcheck ms))) uuid = Some health"
    and "k \<noteq> uuid \<Longrightarrow> map_of (last (mlu_ListAndWatch devs (mlu_healthcheck ms))) k = map_of (last (mlu_ListAndWatch devs reports)) k"
    using assms(1) by (simp_all add: sent map_of_set_health)
qed

lemma length_filter_sum: "length (filter P (map f xs)) = sum_list (map (\<lambda>x. of_bool (P (f x))) xs)"
  by (induction xs) simp_all

text \<open>
  A health check that reports a card while nobody listens, for instance because the kubelet refuses the registration, does not end
  with its incarnation; the retries add one after the other.
\<close>

lemma stuck_check_survives:
  assumes "instance_ok m w" and "in_watching m"
  shows "\<exists>r m' w'. mlu_Stop rm True m w = (r, m', w') \<and> mw_checks w' = mw_checks w \<and> mw_stuck w' = mw_stuck w + 1"
  using assms by (auto simp: mlu_Stop_def instance_ok_def)

interpretation mlu_loop: metered_loop "mlu_turn dis opts" MluRunning "\<lambda>e. cnmon_ok opts \<and> io_ok (snd e)" mlu_good
  mlu_stuck "\<lambda>e. of_bool (mi_stuck (snd e))" for dis opts
  using mlu_turn_good by unfold_locales auto

text \<open>C25: the Cambricon process runs one server at a time.  Whatever sequence of start errors, file events and
  signals comes in, and however listening, dialling, registering and removing the socket turn out, no channel is
  closed twice; while the process runs it has at most one gRPC server, exactly one when its last start
  succeeded, and none after a signal has ended the loop.  Its health checks are that of the device cache,
  which is never stopped, at most one of the present incarnation, none after the end, and those that were stuck handing
  over a report when their incarnation was stopped, at most one for each incarnation in which that happens.\<close>
theorem mlu_loop_one_server:
  assumes "cnmon_ok opts" and "io_ok io0" and "\<not> isl cached" and "mw_servers w0 = 0" and "mw_checks w0 = 0" and "mw_stuck w0 = 0"
    and "\<forall>e\<in>set evs. io_ok (snd e)"
    and "loop_run (mlu_turn dis opts) MluRunning evs (mlu_main_start dis opts cached io0 w0) out"
  shows "(\<forall>s. out \<noteq> MluPanic s)
     \<and> (\<forall>d. out = MluRunning d \<longrightarrow> mw_servers (md_world d) \<le> 1 \<and> (\<not> md_startErr d \<longrightarrow> mw_servers (md_world d) = 1)
          \<and> mw_checks (md_world d) = 1 + mw_stuck (md_world d) + of_bool (in_watching (md_plugin d))
          \<and> mw_stuck (md_world d) \<le> length (filter mi_stuck (io0 # map snd evs)))
     \<and> (\<forall>w. out = MluExited w \<longrightarrow> mw_servers w = 0 \<and> mw_checks w = 1 + mw_stuck w
          \<and> mw_stuck w \<le> length (filter mi_stuck (io0 # map snd evs)))"
proof -
  have start: "mlu_main_start dis opts cached io0 w0 = mlu_begin dis opts io0 (mlu_cache_Start w0)"
    using assms(3) by (simp add: mlu_main_start_def)
  have w0: "mw_servers (mlu_cache_Start w0) = 0" "mw_checks (mlu_cache_Start w0) = 1 + mw_stuck (mlu_cache_Start w0)"
    using assms(4-6) by (simp_all add: mlu_cache_Start_def)
  note first = mlu_begin_good [OF assms(2,1) w0, of dis]
  note run = assms(8) [unfolded start]
  have evs: "list_all (\<lambda>e. cnmon_ok opts \<and> io_ok (snd e)) evs" using assms(1,7) by (simp add: list_all_iff)
  have "mlu_good out" using mlu_loop.run_good [OF run] first evs by blast
  moreover have "mlu_stuck out \<le> of_bool (mi_stuck io0) + sum_list (map (\<lambda>e. of_bool (mi_stuck (snd e))) evs)"
    using mlu_loop.run_meter [OF run _ evs] first assms(6) by (simp add: mlu_cache_Start_def)
  then have "mlu_stuck out \<le> length (filter mi_stuck (io0 # map snd evs))"
    using length_filter_sum [of mi_stuck id "io0 # map snd evs"] by (simp add: comp_def)
  ultimately show ?thesis by (auto simp: mlu_good_def instance_ok_def mlu_stuck_def stuck_bound_def)
qed

definition example_io :: "unit result \<Rightarrow> mlu_io" where
  "example_io reg = \<lparr>mi_devices = Inr ([], []), mi_library = example_library, mi_stamp = [], mi_patch = (\<lambda>_. Inr ()),
     mi_remove_start = NotExist, mi_listen = Inr (), mi_dial = Inr (), mi_dial_kubelet = Inr (), mi_register = (\<lambda>_. reg),
     mi_remove_stop = Removed, mi_stuck = isl reg\<rparr>"

definition example_mlu_options :: mlu_options where
  "example_mlu_options = \<lparr>mo_Mode = ''default'', mo_MLULinkPolicy = BestEffort, mo_EnableConsole = False, mo_EnableDeviceType = False,
     mo_CnmonPath = []\<rparr>"

definition example_mlu_world :: mlu_world where
  "example_mlu_world = \<lparr>mw_api = \<lparr>aw_node = \<lparr>nc_Annotations = [], nc_Version = 0\<rparr>, aw_script = [], aw_calls = 0\<rparr>, mw_servers = 0, mw_checks = 0, mw_stuck = 0\<rparr>"

text \<open>
  The kubelet refuses the first registration while the health check reports a card; the process starts again, serves, and is told
  to end.  The first health check is left behind.
\<close>

theorem mlu_loop_one_server_witness:
  "\<exists>w. loop_run (mlu_turn False example_mlu_options) MluRunning [(StartErrClosed, example_io (Inr ())), (OtherSignal, example_io (Inr ()))]
       (mlu_main_start False example_mlu_options (Inr ()) (example_io (Inl (Errorf ''no kubelet''))) example_mlu_world) (MluExited w)
     \<and> mw_servers w = 0 \<and> mw_stuck w = 1 \<and> mw_checks w = 1 + mw_stuck w"
proof -
  let ?ok = "example_io (Inr ())" and ?bad = "example_io (Inl (Errorf ''no kubelet''))"
  note defs = mlu_main_start_def mlu_cache_Start_def mlu_begin_def NewCambriconDevicePlugin_def mlu_Serve_def mlu_prepare_node_def mlu_Start_def
    mlu_cleanup_def serve_started_def mlu_resourceName_def mlu_Register_def stop_with_def mlu_Stop_def Let_def
    mode_topologyAware_def mode_mluShare_def
  have ok: "cnmon_ok example_mlu_options" "io_ok ?bad" "\<not> isl (Inr () :: unit result)" "mw_servers example_mlu_world = 0"
    "mw_checks example_mlu_world = 0" "mw_stuck example_mlu_world = 0"
    "\<forall>e\<in>set [(StartErrClosed, ?ok), (OtherSignal, ?ok)]. io_ok (snd e)"
    by (simp_all add: cnmon_ok_def io_ok_def example_mlu_options_def example_io_def example_mlu_world_def example_library_def)
  define d0 where "d0 = \<lparr>md_plugin = \<lparr>in_server = False, in_stop = True, in_watching = False\<rparr>, md_io = ?bad, md_startErr = True,
    md_world = example_mlu_world\<lparr>mw_checks := 2, mw_stuck := 1\<rparr>\<rparr>"
  define d1 where "d1 = \<lparr>md_plugin = \<lparr>in_server = True, in_stop = False, in_watching = True\<rparr>, md_io = ?ok, md_startErr = False,
    md_world = example_mlu_world\<lparr>mw_servers := 1, mw_checks := 3, mw_stuck := 1\<rparr>\<rparr>"
  have s0: "mlu_main_start False example_mlu_options (Inr ()) ?bad example_mlu_world = MluRunning d0"
    by (simp add: defs example_io_def example_mlu_options_def d0_def example_mlu_world_def)
  have s1: "mlu_turn False example_mlu_options (StartErrClosed, ?ok) d0 = MluRunning d1"
    by (simp add: mlu_turn_def mlu_restart_def d0_def d1_def example_mlu_world_def defs example_io_def example_mlu_options_def)
  obtain w where w: "mlu_turn False example_mlu_options (OtherSignal, ?ok) d1 = MluExited w" "mw_stuck w = 1"
    by (simp add: mlu_turn_def d1_def mlu_Stop_def mlu_cleanup_def example_io_def)
  have run: "loop_run (mlu_turn False example_mlu_options) MluRunning [(StartErrClosed, ?ok), (OtherSignal, ?ok)]
      (mlu_main_start False example_mlu_options (Inr ()) ?bad example_mlu_world) (MluExited w)"
    unfolding s0 by (intro loop_next) (simp add: s1 w, intro loop_next, simp add: w loop_done)
  from mlu_loop_one_server [OF ok run] show ?thesis using run w(2) by blast
qed

end
