(* ===== verification/Mlu_Bindings.thy ===== *)
theory Mlu_Bindings
  imports Mlu_Devices
begin

text \<open>
  What the Cambricon plugin makes of its C library and of the tool \<open>cntopo\<close> (\<open>cndev/bindings.go\<close>, \<open>cndev/cndev_dl.go\<close>,
  \<open>cntopo/cntopo.go\<close>), and the goroutines of the device cache and of the registration (\<open>cache.go\<close>,
  \<open>register.go\<close>).  The C functions answer a value and a return code; the tool, files and JSON are arguments.
\<close>

section \<open>CNDEV\<close>

definition CNDEV_SUCCESS :: int where "CNDEV_SUCCESS = 0"
definition CNDEV_ERROR_UNKNOWN :: int where "CNDEV_ERROR_UNKNOWN = 7"
definition CNDEV_ERROR_UNINITIALIZED :: int where "CNDEV_ERROR_UNINITIALIZED = 4"
definition CNDEV_FEATURE_DISABLED :: int where "CNDEV_FEATURE_DISABLED = 0"
definition MLU100 :: int where "MLU100 = 0"

record cndev =
  cn_dlopen :: bool
  cn_dlclose :: "int list"
  cn_init :: int
  cn_release :: int
  cn_errorString :: "int \<Rightarrow> string"
  cn_count :: "nat \<times> int"
  cn_model :: "nat \<Rightarrow> string"
  cn_memory :: "nat \<Rightarrow> nat \<times> int"
  cn_ports :: "nat \<Rightarrow> int"
  cn_linkStatus :: "nat \<Rightarrow> nat \<Rightarrow> int \<times> int"
  cn_linkRemote :: "nat \<Rightarrow> nat \<Rightarrow> string \<times> int"
  cn_cardName :: "nat \<Rightarrow> int \<times> int"
  cn_cardSN :: "nat \<Rightarrow> (int \<times> int) \<times> int"
  cn_uuid :: "nat \<Rightarrow> string \<times> int"
  cn_health :: "nat \<Rightarrow> int \<times> int"
  cn_pcieInfo :: "nat \<Rightarrow> pcie \<times> int"

definition errorString :: "cndev \<Rightarrow> int \<Rightarrow> unit result" where
  "errorString c ret = (if ret = CNDEV_SUCCESS then Inr () else Inl (Errorf (''cndev: '' @ cn_errorString c ret)))"

definition dl_cndevInit :: "cndev \<Rightarrow> int" where
  "dl_cndevInit c = (if \<not> cn_dlopen c then CNDEV_ERROR_UNINITIALIZED else cn_init c)"

definition dl_cndevRelease :: "cndev \<Rightarrow> int" where
  "dl_cndevRelease c =
     (if cn_release c \<noteq> CNDEV_SUCCESS then cn_release c
      else if list_ex (\<lambda>err. err \<noteq> 0) (cn_dlclose c) then CNDEV_ERROR_UNKNOWN
      else CNDEV_SUCCESS)"

definition cndev_Init :: "cndev \<Rightarrow> unit result" where
  "cndev_Init c =
     (let r = dl_cndevInit c
      in if r = CNDEV_ERROR_UNINITIALIZED then Inl (Errorf ''could not load CNDEV library'') else errorString c r)"

definition cndev_Release :: "cndev \<Rightarrow> unit result" where
  "cndev_Release c = errorString c (dl_cndevRelease c)"

definition GetDeviceCount :: "cndev \<Rightarrow> nat result" where
  "GetDeviceCount c = bind_result (errorString c (snd (cn_count c))) (\<lambda>_. Inr (fst (cn_count c)))"

definition GetDeviceModel :: "cndev \<Rightarrow> nat \<Rightarrow> string" where
  "GetDeviceModel c idx = cn_model c idx"

text \<open>The value is returned beside the error, and a caller may use it.\<close>

definition GetDeviceMemory :: "cndev \<Rightarrow> nat \<Rightarrow> nat \<times> unit result" where
  "GetDeviceMemory c idx = (fst (cn_memory c idx), errorString c (snd (cn_memory c idx)))"

definition link_uuid :: "cndev \<Rightarrow> nat \<Rightarrow> nat \<Rightarrow> string" where
  "link_uuid c idx i = ''MLU-'' @ fst (cn_linkRemote c idx i)"

fun link_devs_from :: "cndev \<Rightarrow> nat \<Rightarrow> nat list \<Rightarrow> (string, int) gomap \<Rightarrow> (string, int) gomap result" where
  "link_devs_from c idx [] devs = Inr devs"
| "link_devs_from c idx (i # is) devs =
     bind_result (errorString c (snd (cn_linkStatus c idx i))) (\<lambda>_.
       if fst (cn_linkStatus c idx i) = CNDEV_FEATURE_DISABLED then link_devs_from c idx is devs
       else bind_result (errorString c (snd (cn_linkRemote c idx i))) (\<lambda>_.
         link_devs_from c idx is (mset_to devs (link_uuid c idx i) (mget_default 0 devs (link_uuid c idx i) + 1))))"

definition getDeviceMLULinkDevs :: "cndev \<Rightarrow> nat \<Rightarrow> (string, int) gomap result" where
  "getDeviceMLULinkDevs c idx = link_devs_from c idx [0..<nat (cn_ports c idx)] []"

definition getDeviceInfo :: "cndev \<Rightarrow> nat \<Rightarrow> (string \<times> string \<times> string \<times> string) result" where
  "getDeviceInfo c idx =
     bind_result (errorString c (snd (cn_cardName c idx))) (\<lambda>_.
       if fst (cn_cardName c idx) = MLU100 then Inl (GoPanic ''MLU100 detected, there is no way to be here.'')
       else
         bind_result (errorString c (snd (cn_cardSN c idx))) (\<lambda>_.
         bind_result (errorString c (snd (cn_uuid c idx))) (\<lambda>_.
           case fst (cn_cardSN c idx) of
             (sn, motherBoardSn) \<Rightarrow>
               Inr (''MLU-'' @ fst (cn_uuid c idx), hex_str sn, hex_str motherBoardSn, ''/dev/cambricon_dev'' @ nat_str idx))))"

definition getDeviceHealthState :: "cndev \<Rightarrow> nat \<Rightarrow> int \<times> unit result" where
  "getDeviceHealthState c idx = (fst (cn_health c idx), errorString c (snd (cn_health c idx)))"

definition GetGeviceHealthState :: "cndev \<Rightarrow> mlu_device \<Rightarrow> int result" where
  "GetGeviceHealthState c d = (case getDeviceHealthState c (md_Slot d) of (code, err) \<Rightarrow> bind_result err (\<lambda>_. Inr code))"

definition getDevicePCIeInfo :: "cndev \<Rightarrow> nat \<Rightarrow> pcie result" where
  "getDevicePCIeInfo c idx = bind_result (errorString c (snd (cn_pcieInfo c idx))) (\<lambda>_. Inr (fst (cn_pcieInfo c idx)))"

text \<open>The library as the rest of the plugin sees it.\<close>

definition library_of :: "sysfs_write \<Rightarrow> cndev \<Rightarrow> mlu_library" where
  "library_of write c = \<lparr>ml_count = GetDeviceCount c, ml_info = getDeviceInfo c, ml_pcie = getDevicePCIeInfo c,
     ml_memory = (\<lambda>i. (fst (GetDeviceMemory c i), \<not> isl (snd (GetDeviceMemory c i)))), ml_model = GetDeviceModel c, ml_write = write\<rparr>"

fun card_uuids :: "cndev \<Rightarrow> nat list \<Rightarrow> string list result" where
  "card_uuids c [] = Inr []"
| "card_uuids c (i # is) = bind_result (getDeviceInfo c i) (\<lambda>(uuid, _). bind_result (card_uuids c is) (\<lambda>us. Inr (uuid # us)))"

definition cndev_GetMLULinkGroups :: "(nat list \<Rightarrow> nat list) \<Rightarrow> cndev \<Rightarrow> nat list list result" where
  "cndev_GetMLULinkGroups order c =
     bind_result (GetDeviceCount c) (\<lambda>num. GetMLULinkGroups order (card_uuids c [0..<num]) (getDeviceMLULinkDevs c))"

section \<open>The tool cntopo\<close>

text \<open>The input file, the run of the tool and its output file; \<open>te_marshal\<close> and \<open>te_unmarshal\<close> are \<open>encoding/json\<close>.\<close>

record topo_env =
  te_marshal :: "int \<Rightarrow> nat list \<Rightarrow> string result"
  te_write :: "string \<Rightarrow> unit result"
  te_run :: "string \<Rightarrow> unit result"
  te_read :: "string \<Rightarrow> string result"
  te_unmarshal :: "string \<Rightarrow> (nat list \<times> int) list result"

definition GetRings :: "topo_env \<Rightarrow> nat list \<Rightarrow> int \<Rightarrow> ring list result" where
  "GetRings env available sz =
     bind_result (te_marshal env sz available) (\<lambda>b.
     bind_result (te_write env b) (\<lambda>_.
     bind_result (te_run env b) (\<lambda>_.
     bind_result (te_read env b) (\<lambda>j.
     bind_result (te_unmarshal env j) (\<lambda>output.
       Inr (map (\<lambda>(ordinals, num). \<lparr>rg_Ordinals = ordinals, rg_NonConflictRingNum = num\<rparr>) output))))))"

section \<open>Cache and registration\<close>

text \<open>
  The channels are unbuffered: a send waits for a receiver.  \<open>receivers\<close> tells how many values will
  be received from a channel.  The goroutine \<open>notify\<close> holds the mutex while it sends.
\<close>

record cache_state =
  cs_cache :: device_cache
  cs_receivers :: "string \<Rightarrow> nat"
  cs_locked :: bool

fun send_all :: "plugin_device \<Rightarrow> string list \<Rightarrow> cache_state \<Rightarrow> bool \<times> cache_state" where
  "send_all dev [] s = (True, s)"
| "send_all dev (ch # chs) s =
     (if cs_receivers s ch = 0 then (False, s)
      else send_all dev chs
        (s\<lparr>cs_receivers := (cs_receivers s)(ch := cs_receivers s ch - 1),
           cs_cache := (cs_cache s)\<lparr>dc_notifyCh := mset_to (dc_notifyCh (cs_cache s)) ch (mget_list (dc_notifyCh (cs_cache s)) ch @ [dev])\<rparr>\<rparr>))"

fun notify :: "plugin_device list \<Rightarrow> cache_state \<Rightarrow> cache_state" where
  "notify [] s = s"
| "notify (dev # devs) s =
     (case send_all (fst dev, Unhealthy) (map fst (dc_notifyCh (cs_cache s))) (s\<lparr>cs_locked := True\<rparr>) of
        (True, s') \<Rightarrow> notify devs (s'\<lparr>cs_locked := False\<rparr>)
      | (False, s') \<Rightarrow> s')"

definition NewDeviceCache :: device_cache where
  "NewDeviceCache = \<lparr>dc_cache = [], dc_notifyCh = []\<rparr>"

definition cache_Start :: "mlu_library \<Rightarrow> device_cache \<Rightarrow> device_cache result" where
  "cache_Start lib d = bind_result (cache_Devices lib) (\<lambda>ds. Inr (d\<lparr>dc_cache := ds\<rparr>))"

definition WatchUnhealthy :: "(plugin_device \<times> mlu_device) list \<Rightarrow> (mlu_device \<Rightarrow> int result) list \<Rightarrow> plugin_device list" where
  "WatchUnhealthy devsInfo rounds = watchUnhealthy (map snd devsInfo) rounds"

text \<open>\<open>Start\<close> of the registration adds its channel; no statement of the program receives from it.\<close>

definition register_Start :: "device_cache \<Rightarrow> device_cache" where
  "register_Start d = AddNotifyChannel ''register'' d"

text \<open>The seconds that \<open>WatchAndRegister\<close> sleeps after a registration.\<close>

definition mlu_register_round :: "annotations result \<Rightarrow> nat" where
  "mlu_register_round registered = (if isl registered then 5 else 30)"

section \<open>Links and health\<close>

definition active_ports :: "cndev \<Rightarrow> nat \<Rightarrow> string \<Rightarrow> nat set" where
  "active_ports c idx uuid =
     {i. i < nat (cn_ports c idx) \<and> fst (cn_linkStatus c idx i) \<noteq> CNDEV_FEATURE_DISABLED \<and> link_uuid c idx i = uuid}"

lemma link_devs_from_counts:
  "link_devs_from c idx is devs = Inr devs' \<Longrightarrow>
     mget_default 0 devs' u = mget_default 0 devs u
       + int (length (filter (\<lambda>i. fst (cn_linkStatus c idx i) \<noteq> CNDEV_FEATURE_DISABLED \<and> link_uuid c idx i = u) is))
   \<and> (mget devs' u \<noteq> None \<longleftrightarrow> mget devs u \<noteq> None
        \<or> (\<exists>i\<in>set is. fst (cn_linkStatus c idx i) \<noteq> CNDEV_FEATURE_DISABLED \<and> link_uuid c idx i = u))"
proof (induction "is" arbitrary: devs)
  case (Cons i "is")
  show ?case
  proof (cases "fst (cn_linkStatus c idx i) = CNDEV_FEATURE_DISABLED")
    case True
    then have "link_devs_from c idx is devs = Inr devs'" using Cons.prems by (auto simp: bind_result_Inr_iff)
    then show ?thesis using Cons.IH True by simp
  next
    case False
    then have "link_devs_from c idx is (mset_to devs (link_uuid c idx i) (mget_default 0 devs (link_uuid c idx i) + 1)) = Inr devs'"
      using Cons.prems by (auto simp: bind_result_Inr_iff)
    from Cons.IH [OF this] show ?thesis using False by (auto simp: mget_default_def)
  qed
qed simp

text \<open>The links of a card: for every remote card the number of active ports that lead to it.\<close>

lemma getDeviceMLULinkDevs_counts:
  assumes "getDeviceMLULinkDevs c idx = Inr devs"
  shows "mget_default 0 devs u = int (card (active_ports c idx u))" "mget devs u \<noteq> None \<longleftrightarrow> active_ports c idx u \<noteq> {}"
proof -
  let ?P = "\<lambda>i. fst (cn_linkStatus c idx i) \<noteq> CNDEV_FEATURE_DISABLED \<and> link_uuid c idx i = u"
  have set: "set (filter ?P [0..<nat (cn_ports c idx)]) = active_ports c idx u" by (auto simp: active_ports_def)
  have len: "length (filter ?P [0..<nat (cn_ports c idx)]) = card (active_ports c idx u)"
    using distinct_card [of "filter ?P [0..<nat (cn_ports c idx)]"] set by simp
  note counts = link_devs_from_counts [OF assms [unfolded getDeviceMLULinkDevs_def], of u]
  show "mget_default 0 devs u = int (card (active_ports c idx u))" using counts len by simp
  show "mget devs u \<noteq> None \<longleftrightarrow> active_ports c idx u \<noteq> {}" using counts by (auto simp: active_ports_def)
qed

text \<open>
  The channel of the registration is never received from, so the first broken card blocks the goroutine
  for good, with the mutex locked; nothing is delivered, whatever is reported later.
\<close>

lemma notify_blocks:
  assumes "dc_notifyCh (cs_cache s) = dc_notifyCh (register_Start NewDeviceCache)" and "cs_receivers s ''register'' = 0"
  shows "notify (dev # devs) s = s\<lparr>cs_locked := True\<rparr>"
  using assms by (simp add: register_Start_def NewDeviceCache_def AddNotifyChannel_def mset_to_def)

end
