(* ===== verification/Go_Scan.thy ===== *)
theory Go_Scan
  imports Go_Strings
begin

text \<open>
  \<open>fmt.Sscanf\<close> for the formats of the program, which use the verbs \<open>%d\<close> into an \<open>int\<close> and \<open>%s\<close> into a
  \<open>string\<close>.  The result holds the values stored before the scan ended and whether it ended without an
  error.  The rules for space are the ones of the package: in a format, newlines match newlines or the
  end of the input, a run of other space matches at least one space or the end of the input, and every
  verb skips leading space.  The lemmas read back what a tool prints in the same format.
\<close>

datatype scanned = ScannedInt int | ScannedString string

definition is_blank :: "char \<Rightarrow> bool" where
  "is_blank c \<longleftrightarrow> is_space c \<and> c \<noteq> CHR 0x0A"

text \<open>Each newline of the format: blanks, then a newline or the end of the input.\<close>

fun scan_newlines :: "nat \<Rightarrow> string \<Rightarrow> string option" where
  "scan_newlines 0 inp = Some inp"
| "scan_newlines (Suc n) inp =
     (case dropWhile is_blank inp of
        [] \<Rightarrow> scan_newlines n []
      | c # inp' \<Rightarrow> if c = CHR 0x0A then scan_newlines n inp' else None)"

text \<open>A run \<open>sp\<close> of space in the format.\<close>

definition scan_space :: "string \<Rightarrow> string \<Rightarrow> string option" where
  "scan_space sp inp =
     (let newlines = length (filter (\<lambda>c. c = CHR 0x0A) sp)
      in case scan_newlines newlines inp of
           None \<Rightarrow> None
         | Some inp1 \<Rightarrow>
             if last sp = CHR 0x0A then Some inp1
             else if newlines = 0 \<and> inp1 \<noteq> [] \<and> \<not> is_blank (hd inp1) then None
             else Some (dropWhile is_blank inp1))"

text \<open>A verb skips blanks; a newline or the end of the input there is an error.\<close>

definition scan_verb :: "char \<Rightarrow> string \<Rightarrow> (scanned \<times> string) option" where
  "scan_verb v inp =
     (let inp1 = dropWhile is_blank inp
      in if inp1 = [] \<or> hd inp1 = CHR 0x0A then None
         else if v = CHR ''s'' then
           Some (ScannedString (takeWhile (Not \<circ> is_space) inp1), dropWhile (Not \<circ> is_space) inp1)
         else if v = CHR ''d'' then
           let sgn = (if hd inp1 \<in> {CHR ''+'', CHR ''-''} then [hd inp1] else []);
               digits = takeWhile is_digit_char (drop (length sgn) inp1);
               (i, ok) = ParseInt 64 (sgn @ digits)
           in if ok then Some (ScannedInt i, drop (length sgn + length digits) inp1) else None
         else None)"

function Sscanf :: "string \<Rightarrow> string \<Rightarrow> scanned list \<times> bool" where
  "Sscanf inp [] = ([], True)"
| "Sscanf inp (c # fmt) =
     (if is_space c then
        (case scan_space (takeWhile is_space (c # fmt)) inp of
           None \<Rightarrow> ([], False)
         | Some inp' \<Rightarrow> Sscanf inp' (dropWhile is_space fmt))
      else if c = CHR ''%'' then
        (case fmt of
           [] \<Rightarrow> ([], False)
         | v # fmt' \<Rightarrow>
             (case scan_verb v inp of
                None \<Rightarrow> ([], False)
              | Some (x, inp') \<Rightarrow> let (xs, ok) = Sscanf inp' fmt' in (x # xs, ok)))
      else if inp \<noteq> [] \<and> hd inp = c then Sscanf (tl inp) fmt
      else ([], False))"
  by pat_completeness auto

termination
  by (relation "measure (\<lambda>(inp, fmt). length fmt)") (auto simp: less_Suc_eq_le length_dropWhile_le)

declare Sscanf.simps [simp del]

section \<open>Reading back what was printed\<close>

lemma Sscanf_literal:
  "list_all (\<lambda>c. \<not> is_space c \<and> c \<noteq> CHR ''%'') lit \<Longrightarrow> Sscanf (lit @ inp) (lit @ fmt) = Sscanf inp fmt"
  by (induction lit) (simp_all add: Sscanf.simps)

lemma Sscanf_space:
  assumes "sp \<noteq> []" and "list_all is_blank sp" and "inp = [] \<or> \<not> is_space (hd inp)" and "fmt = [] \<or> \<not> is_space (hd fmt)"
  shows "Sscanf (sp @ inp) (sp @ fmt) = Sscanf inp fmt"
proof -
  obtain c sp' where sp: "sp = c # sp'" using assms(1) by (cases sp) auto
  have blank: "\<And>c. c \<in> set sp \<Longrightarrow> is_blank c" using assms(2) by (simp add: list_all_iff)
  then have space: "\<And>c. c \<in> set sp \<Longrightarrow> is_space c" and nl: "\<And>c. c \<in> set sp \<Longrightarrow> c \<noteq> CHR 0x0A"
    by (auto simp: is_blank_def)
  have t: "takeWhile is_space (c # sp' @ fmt) = sp" and d: "dropWhile is_space (sp' @ fmt) = fmt"
    using space assms(4) sp by (cases fmt; auto simp: takeWhile_append dropWhile_append)+
  have i: "dropWhile is_blank (sp @ inp) = inp"
    using blank assms(3) by (cases inp) (auto simp: dropWhile_append is_blank_def)
  have "scan_space sp (sp @ inp) = Some inp"
    using i nl blank last_in_set [OF assms(1)] sp by (simp add: scan_space_def filter_empty_conv Let_def)
  then show ?thesis using sp space t d by (simp add: Sscanf.simps)
qed

lemma digit_not_space: "is_digit_char c \<Longrightarrow> \<not> is_space c"
  by (auto simp: is_digit_char_def is_space_def)

lemma Sscanf_int:
  assumes "0 \<le> i" and "i < 2 ^ 63" and "inp = [] \<or> \<not> is_digit_char (hd inp)"
  shows "Sscanf (Itoa i @ inp) (CHR ''%'' # CHR ''d'' # fmt) =
     (let (xs, ok) = Sscanf inp fmt in (ScannedInt i # xs, ok))"
proof -
  let ?s = "nat_str (nat i)"
  have it: "Itoa i = ?s" using assms(1) by (simp add: Itoa_def)
  obtain c t where ct: "?s = c # t" by (cases ?s) auto
  have dig: "\<And>d. d \<in> set ?s \<Longrightarrow> is_digit_char d" using nat_str_digits [of "nat i"] by (simp add: list_all_iff)
  have c: "is_digit_char c" using dig [of c] ct by simp
  have nb: "\<not> is_blank c" "c \<noteq> CHR 0x0A" "c \<notin> {CHR ''+'', CHR ''-''}"
    using c digit_not_space [OF c] by (auto simp: is_blank_def is_digit_char_def is_space_def)
  have tw: "takeWhile is_digit_char (?s @ inp) = ?s" "drop (length ?s) (?s @ inp) = inp"
    using dig assms(3) by (cases inp; auto simp: takeWhile_append)+
  have "ParseInt 64 ?s = (i, True)" using ParseInt_Itoa [of 64 i] assms(1,2) it by simp
  then have "scan_verb CHR ''d'' (?s @ inp) = Some (ScannedInt i, inp)"
    using nb ct tw by (simp add: scan_verb_def Let_def)
  then show ?thesis using it by (simp add: Sscanf.simps is_space_def)
qed

lemma Sscanf_string:
  assumes "s \<noteq> []" and "list_all (Not \<circ> is_space) s" and "inp = [] \<or> is_space (hd inp)"
  shows "Sscanf (s @ inp) (CHR ''%'' # CHR ''s'' # fmt) =
     (let (xs, ok) = Sscanf inp fmt in (ScannedString s # xs, ok))"
proof -
  obtain c t where ct: "s = c # t" using assms(1) by (cases s) auto
  have ns: "\<And>d. d \<in> set s \<Longrightarrow> \<not> is_space d" using assms(2) by (simp add: list_all_iff)
  have "is_space CHR 0x0A" by (simp add: is_space_def)
  then have nb: "\<not> is_blank c" "c \<noteq> CHR 0x0A" using ns [of c] ct by (auto simp: is_blank_def)
  have tw: "takeWhile (Not \<circ> is_space) (s @ inp) = s" "dropWhile (Not \<circ> is_space) (s @ inp) = inp"
    using ns assms(3) by (cases inp; force simp: takeWhile_append dropWhile_append)+
  have "scan_verb CHR ''s'' (s @ inp) = Some (ScannedString s, inp)"
    using nb ct tw by (simp add: scan_verb_def Let_def)
  then show ?thesis by (simp add: Sscanf.simps is_space_def)
qed

lemma Sscanf_end: "Sscanf inp [] = ([], True)" "Sscanf [] [CHR 0x0A] = ([], True)"
  by (simp_all add: Sscanf.simps scan_space_def is_space_def)

section \<open>Reading a file by lines\<close>

definition MaxScanTokenSize :: nat where
  "MaxScanTokenSize = 65536"

definition drop_cr :: "string \<Rightarrow> string" where
  "drop_cr l = (if l \<noteq> [] \<and> last l = CHR 0x0D then butlast l else l)"

text \<open>
  The lines a scanner with the given buffer size yields: it stops without a line at the first one that does
  not fit into the buffer, and an empty last line is none.
\<close>

definition file_lines :: "string \<Rightarrow> string list" where
  "file_lines contents = (let ls = Split CHR 0x0A contents in if last ls = [] then butlast ls else ls)"

definition scanner_lines :: "nat \<Rightarrow> string \<Rightarrow> string list" where
  "scanner_lines limit contents = map drop_cr (takeWhile (\<lambda>l. length l < limit) (file_lines contents))"

lemma file_lines_concat:
  "\<forall>l\<in>set ls. CHR 0x0A \<notin> set l \<Longrightarrow> file_lines (concat (map (\<lambda>l. l @ [CHR 0x0A]) ls)) = ls"
proof -
  assume no_nl: "\<forall>l\<in>set ls. CHR 0x0A \<notin> set l"
  have "Split CHR 0x0A (concat (map (\<lambda>l. l @ [CHR 0x0A]) ls)) = ls @ [[]]"
    using no_nl by (induction ls) (simp_all add: Split_append_sep)
  then show ?thesis by (simp add: file_lines_def)
qed

lemma nat_str_length: "n < 10 ^ Suc k \<Longrightarrow> length (nat_str n) \<le> Suc k"
proof (induction k arbitrary: n)
  case (Suc k)
  then show ?case by (subst nat_str.simps) (auto simp: less_mult_imp_div_less)
qed (simp add: nat_str.simps)

lemma scanner_lines_concat:
  assumes "\<forall>l\<in>set ls. CHR 0x0A \<notin> set l \<and> drop_cr l = l \<and> length l < limit"
  shows "scanner_lines limit (concat (map (\<lambda>l. l @ [CHR 0x0A]) ls)) = ls"
proof -
  have "file_lines (concat (map (\<lambda>l. l @ [CHR 0x0A]) ls)) = ls" using assms by (intro file_lines_concat) auto
  moreover have "takeWhile (\<lambda>l. length l < limit) ls = ls" using assms by auto
  ultimately have "scanner_lines limit (concat (map (\<lambda>l. l @ [CHR 0x0A]) ls)) = map drop_cr ls" by (simp only: scanner_lines_def)
  then show ?thesis using assms by (simp add: map_idI)
qed

end
