(* ===== verification/Mig_Caps.thy ===== *)
theory Mig_Caps
  imports Go_Scan
begin

text \<open>
  The files of a card and of a MIG device: package \<open>mig\<close> and \<open>rm/nvml_devices.go\<close>, \<open>rm/helper.go\<close>,
  \<open>rm/wsl_devices.go\<close>.  The driver lists its MIG capabilities, one per line with the minor number of a device
  node; \<open>GetMigCapabilityDevicePaths\<close> turns the list into a map from capability files to device nodes, and the
  paths of a MIG device are looked up in it.  Files and what NVML answers are arguments.
\<close>

section \<open>The capabilities\<close>

definition nvidiaCapabilitiesPath :: string where
  "nvidiaCapabilitiesPath = ''/proc/driver/nvidia/capabilities''"

definition nvcapsDevicePath :: string where
  "nvcapsDevicePath = ''/dev/nvidia-caps''"

definition gi_path :: "int \<Rightarrow> int \<Rightarrow> string" where
  "gi_path gpu gi = nvidiaCapabilitiesPath @ ''/gpu'' @ Itoa gpu @ ''/mig/gi'' @ Itoa gi"

definition processLine :: "string \<Rightarrow> (string \<times> int) result" where
  "processLine line =
     (case fst (Sscanf line ''gpu%d/gi%d/ci%d/access %d'') of
        [ScannedInt gpu, ScannedInt gi, ScannedInt ci, ScannedInt migMinor] \<Rightarrow>
          Inr (gi_path gpu gi @ ''/ci'' @ Itoa ci @ ''/access'', migMinor)
      | _ \<Rightarrow>
     (case fst (Sscanf line ''gpu%d/gi%d/access %d'') of
        [ScannedInt gpu, ScannedInt gi, ScannedInt migMinor] \<Rightarrow> Inr (gi_path gpu gi @ ''/access'', migMinor)
      | _ \<Rightarrow>
     (case fst (Sscanf line ''config %d'') of
        [ScannedInt migMinor] \<Rightarrow> Inr (nvidiaCapabilitiesPath @ ''/mig/config'', migMinor)
      | _ \<Rightarrow>
     (case fst (Sscanf line ''monitor %d'') of
        [ScannedInt migMinor] \<Rightarrow> Inr (nvidiaCapabilitiesPath @ ''/mig/monitor'', migMinor)
      | _ \<Rightarrow> Inl (Errorf (''unparsable line: '' @ line))))))"

definition cap_device :: "int \<Rightarrow> string" where
  "cap_device migMinor = nvcapsDevicePath @ ''/nvidia-cap'' @ Itoa migMinor"

definition add_cap :: "string \<Rightarrow> (string \<rightharpoonup> string) \<Rightarrow> (string \<rightharpoonup> string)" where
  "add_cap line caps =
     (case processLine line of Inl _ \<Rightarrow> caps | Inr (capPath, migMinor) \<Rightarrow> caps(capPath \<mapsto> cap_device migMinor))"

text \<open>What \<open>os.Open\<close> finds.\<close>

datatype minors_file = NoFile | OpenError string | Opened string

definition GetMigCapabilityDevicePaths :: "minors_file \<Rightarrow> (string \<rightharpoonup> string) option result" where
  "GetMigCapabilityDevicePaths file =
     (case file of
        NoFile \<Rightarrow> Inr None
      | OpenError e \<Rightarrow> Inl (Errorf (''error opening MIG minors file: '' @ e))
      | Opened contents \<Rightarrow> Inr (Some (fold add_cap (scanner_lines MaxScanTokenSize contents) Map.empty)))"

section \<open>Queries of a card\<close>

definition gpu_GetPaths :: "int result \<Rightarrow> string list result" where
  "gpu_GetPaths minor = bind_result (wrap_error ''error getting GPU device minor number'' minor) (\<lambda>m. Inr [''/dev/nvidia'' @ Itoa m])"

definition wsl_GetPaths :: "string list result" where
  "wsl_GetPaths = Inr [''/dev/dxg'']"

record mig_query =
  mq_minors :: minors_file
  mq_gi :: "int result"
  mq_ci :: "int result"
  mq_parent :: "int result result"

definition mig_GetPaths :: "mig_query \<Rightarrow> string list result" where
  "mig_GetPaths d =
     bind_result (wrap_error ''error getting MIG capability device paths'' (GetMigCapabilityDevicePaths (mq_minors d))) (\<lambda>found.
     bind_result (wrap_error ''error getting GPU Instance ID'' (mq_gi d)) (\<lambda>gi.
     bind_result (wrap_error ''error getting Compute Instance ID'' (mq_ci d)) (\<lambda>ci.
     bind_result (wrap_error ''error getting parent device'' (mq_parent d)) (\<lambda>parent.
     bind_result (wrap_error ''error getting GPU device minor number'' parent) (\<lambda>minor.
       let capDevicePaths = (case found of None \<Rightarrow> Map.empty | Some m \<Rightarrow> m);
           giCapPath = gi_path minor gi @ ''/access'';
           ciCapPath = gi_path minor gi @ ''/ci'' @ Itoa ci @ ''/access''
       in case capDevicePaths giCapPath of
            None \<Rightarrow> Inl (Errorf (''missing MIG GPU instance capability path: '' @ giCapPath))
          | Some gi_dev \<Rightarrow>
              (case capDevicePaths ciCapPath of
                 None \<Rightarrow> Inl (Errorf (''missing MIG GPU instance capability path: '' @ giCapPath))
               | Some ci_dev \<Rightarrow> Inr [''/dev/nvidia'' @ Itoa minor, gi_dev, ci_dev]))))))"

text \<open>The bus id is an array of signed bytes that ends at the first zero.\<close>

definition int8Slice_String :: "int list \<Rightarrow> string" where
  "int8Slice_String s = map (\<lambda>c. char_of (nat (c mod 256))) (takeWhile (\<lambda>c. c \<noteq> 0) s)"

text \<open>The file of the bus id may be missing; its contents may not be a number, or negative.\<close>

definition GetNumaNode :: "int list result \<Rightarrow> (string \<Rightarrow> string option) \<Rightarrow> (bool \<times> int) result" where
  "GetNumaNode BusId readFile =
     bind_result (wrap_error ''error getting PCI Bus Info of device'' BusId) (\<lambda>bus.
       let busID = ToLower (TrimPrefix (int8Slice_String bus) ''0000'')
       in case readFile (''/sys/bus/pci/devices/'' @ busID @ ''/numa_node'') of
            None \<Rightarrow> Inr (False, 0)
          | Some b \<Rightarrow>
              (case Atoi (TrimSpace b) of
                 (node, ok) \<Rightarrow>
                   if \<not> ok then Inl (Errorf ''eror parsing value for NUMA node'')
                   else if node < 0 then Inr (False, 0) else Inr (True, node)))"

definition mig_GetNumaNode :: "int list result result \<Rightarrow> (string \<Rightarrow> string option) \<Rightarrow> (bool \<times> int) result" where
  "mig_GetNumaNode parent readFile = bind_result (wrap_error ''error getting parent GPU device from MIG device'' parent) (\<lambda>BusId. GetNumaNode BusId readFile)"

section \<open>Reading back the list of the driver\<close>

text \<open>A capability as the driver documents it, its line in the list and its file.\<close>

datatype mig_capability = CiAccess int int int | GiAccess int int | MigConfig | MigMonitor

fun cap_ok :: "mig_capability \<Rightarrow> bool" where
  "cap_ok (CiAccess g i c) \<longleftrightarrow> g \<in> {0..<2^63} \<and> i \<in> {0..<2^63} \<and> c \<in> {0..<2^63}"
| "cap_ok (GiAccess g i) \<longleftrightarrow> g \<in> {0..<2^63} \<and> i \<in> {0..<2^63}"
| "cap_ok _ \<longleftrightarrow> True"

fun cap_name :: "mig_capability \<Rightarrow> string" where
  "cap_name (CiAccess g i c) = ''gpu'' @ Itoa g @ ''/gi'' @ Itoa i @ ''/ci'' @ Itoa c @ ''/access''"
| "cap_name (GiAccess g i) = ''gpu'' @ Itoa g @ ''/gi'' @ Itoa i @ ''/access''"
| "cap_name MigConfig = ''config''"
| "cap_name MigMonitor = ''monitor''"

definition cap_line :: "mig_capability \<times> int \<Rightarrow> string" where
  "cap_line c = cap_name (fst c) @ '' '' @ Itoa (snd c)"

fun cap_file :: "mig_capability \<Rightarrow> string" where
  "cap_file (CiAccess g i c) = gi_path g i @ ''/ci'' @ Itoa c @ ''/access''"
| "cap_file (GiAccess g i) = gi_path g i @ ''/access''"
| "cap_file MigConfig = nvidiaCapabilitiesPath @ ''/mig/config''"
| "cap_file MigMonitor = nvidiaCapabilitiesPath @ ''/mig/monitor''"

definition minors_contents :: "(mig_capability \<times> int) list \<Rightarrow> string" where
  "minors_contents caps = concat (map (\<lambda>c. cap_line c @ [CHR 0x0A]) caps)"


lemma Sscanf_char: "\<not> is_space c \<Longrightarrow> c \<noteq> CHR ''%'' \<Longrightarrow> Sscanf (c # inp) (c # fmt) = Sscanf inp fmt"
  by (simp add: Sscanf.simps)

lemma Sscanf_mismatch:
  "c \<noteq> CHR ''%'' \<Longrightarrow> \<not> is_space c \<Longrightarrow> inp = [] \<or> hd inp \<noteq> c \<Longrightarrow> Sscanf inp (c # fmt) = ([], False)"
  by (auto simp: Sscanf.simps)

lemma Sscanf_int_then:
  assumes "i \<in> {0..<2^63}" and "\<not> is_digit_char c"
  shows "fst (Sscanf (Itoa i @ c # inp) (CHR ''%'' # CHR ''d'' # fmt)) = ScannedInt i # fst (Sscanf (c # inp) fmt)"
  using Sscanf_int [of i "c # inp" fmt] assms by (simp add: case_prod_beta Let_def)

lemma Sscanf_int_last:
  "i \<in> {0..<2^63} \<Longrightarrow> fst (Sscanf (Itoa i) (CHR ''%'' # CHR ''d'' # [])) = [ScannedInt i]"
  using Sscanf_int [of i "[]" "[]"] by (simp add: Sscanf_end)

lemma no_space_number:
  "i \<in> {0..<2^63} \<Longrightarrow> Itoa i = [] \<or> \<not> is_space (hd (Itoa i))"
proof -
  assume "i \<in> {0..<2^63}"
  then have "Itoa i = nat_str (nat i)" by (simp add: Itoa_def)
  then show ?thesis
    using nat_str_digits [of "nat i"] digit_not_space by (cases "nat_str (nat i)") auto
qed

lemma scan_minor:
  assumes "migMinor \<in> {0..<2^63}"
  shows "fst (Sscanf (CHR '' '' # Itoa migMinor) '' %d'') = [ScannedInt migMinor]"
proof -
  have "Sscanf ('' '' @ Itoa migMinor) ('' '' @ ''%d'') = Sscanf (Itoa migMinor) ''%d''"
    by (rule Sscanf_space) (use no_space_number [OF assms] in \<open>simp_all add: is_blank_def is_space_def\<close>)
  then show ?thesis using Sscanf_int_last [OF assms] by simp
qed

lemma visible_chars [simp]:
  "\<not> is_space CHR ''/''" "\<not> is_space CHR ''a''" "\<not> is_space CHR ''c''" "\<not> is_space CHR ''e''" "\<not> is_space CHR ''f''"
  "\<not> is_space CHR ''g''" "\<not> is_space CHR ''i''" "\<not> is_space CHR ''m''" "\<not> is_space CHR ''n''" "\<not> is_space CHR ''o''"
  "\<not> is_space CHR ''p''" "\<not> is_space CHR ''r''" "\<not> is_space CHR ''s''" "\<not> is_space CHR ''t''" "\<not> is_space CHR ''u''"
  "\<not> is_digit_char CHR ''/''" "\<not> is_digit_char CHR '' ''"
  by (simp_all add: is_space_def is_digit_char_def)

lemmas scan_line = Sscanf_char Sscanf_mismatch Sscanf_int_then scan_minor

lemma processLine_cap_line:
  "cap_ok c \<Longrightarrow> migMinor \<in> {0..<2^63} \<Longrightarrow> processLine (cap_line (c, migMinor)) = Inr (cap_file c, migMinor)"
  by (cases c) (simp_all add: processLine_def cap_line_def scan_line gi_path_def)

lemma Itoa_length: "i \<in> {0..<2^63} \<Longrightarrow> length (Itoa i) \<le> 19"
  using nat_str_length [of "nat i" 18] by (simp add: Itoa_def nat_less_iff)

lemma Itoa_no_control: "i \<in> {0..<2^63} \<Longrightarrow> (of_char c :: nat) < 32 \<Longrightarrow> c \<notin> set (Itoa i)"
  by (rule Itoa_not_mem) (auto simp: is_digit_char_def)

lemma cap_line_plain:
  assumes "cap_ok c" and "migMinor \<in> {0..<2^63}"
  shows "CHR 0x0A \<notin> set (cap_line (c, migMinor))" "drop_cr (cap_line (c, migMinor)) = cap_line (c, migMinor)"
    "length (cap_line (c, migMinor)) < MaxScanTokenSize"
proof -
  note no = Itoa_no_control [of _ "CHR 0x0A"] Itoa_no_control [of _ "CHR 0x0D"]
  show "CHR 0x0A \<notin> set (cap_line (c, migMinor))"
    using assms no(1) by (cases c) (simp_all add: cap_line_def)
  have "CHR 0x0D \<notin> set (cap_line (c, migMinor))"
    using assms no(2) by (cases c) (simp_all add: cap_line_def)
  then show "drop_cr (cap_line (c, migMinor)) = cap_line (c, migMinor)"
    using last_in_set [of "cap_line (c, migMinor)"] by (metis drop_cr_def)
  show "length (cap_line (c, migMinor)) < MaxScanTokenSize"
  proof (cases c)
    case (CiAccess g i k)
    then show ?thesis using assms Itoa_length [of g] Itoa_length [of i] Itoa_length [of k] Itoa_length [of migMinor]
      by (simp add: cap_line_def MaxScanTokenSize_def)
  next
    case (GiAccess g i)
    then show ?thesis using assms Itoa_length [of g] Itoa_length [of i] Itoa_length [of migMinor]
      by (simp add: cap_line_def MaxScanTokenSize_def)
  qed (use assms Itoa_length [of migMinor] in \<open>simp_all add: cap_line_def MaxScanTokenSize_def\<close>)
qed

definition listed_ok :: "(mig_capability \<times> int) list \<Rightarrow> bool" where
  "listed_ok caps \<longleftrightarrow> list_all (\<lambda>(c, n). cap_ok c \<and> n \<in> {0..<2^63}) caps"

lemma scanner_lines_minors:
  assumes "listed_ok caps"
  shows "scanner_lines MaxScanTokenSize (minors_contents caps) = map cap_line caps"
proof -
  have plain: "CHR 0x0A \<notin> set (cap_line c)" "drop_cr (cap_line c) = cap_line c" "length (cap_line c) < MaxScanTokenSize"
    if "c \<in> set caps" for c
    using cap_line_plain [of "fst c" "snd c"] that assms by (auto simp: listed_ok_def list_all_iff)
  have "minors_contents caps = concat (map (\<lambda>l. l @ [CHR 0x0A]) (map cap_line caps))"
    by (simp add: minors_contents_def comp_def)
  then show ?thesis using scanner_lines_concat [of "map cap_line caps"] plain by simp
qed

lemma fold_add_cap:
  "listed_ok caps \<Longrightarrow> fold add_cap (map cap_line caps) m = m ++ map_of (rev (map (\<lambda>(c, n). (cap_file c, cap_device n)) caps))"
proof (induction caps arbitrary: m)
  case (Cons c caps)
  then show ?case
    using processLine_cap_line [of "fst c" "snd c"]
    by (auto simp: listed_ok_def add_cap_def map_add_def fun_eq_iff split: option.splits prod.splits)
qed simp

lemma GetMigCapabilityDevicePaths_listed:
  assumes "listed_ok caps"
  shows "GetMigCapabilityDevicePaths (Opened (minors_contents caps)) =
     Inr (Some (map_of (rev (map (\<lambda>(c, n). (cap_file c, cap_device n)) caps))))"
  using scanner_lines_minors [OF assms] fold_add_cap [OF assms, of Map.empty]
  by (simp add: GetMigCapabilityDevicePaths_def)

text \<open>Different capabilities have different files.\<close>

lemma cut_at: "c \<notin> set a \<Longrightarrow> c \<notin> set b \<Longrightarrow> a @ c # x = b @ c # y \<longleftrightarrow> a = b \<and> x = y"
proof (induction a arbitrary: b)
  case Nil
  then show ?case by (cases b) auto
next
  case (Cons d a)
  then show ?case by (cases b) auto
qed

lemma Itoa_no_slash: "CHR ''/'' \<notin> set (Itoa i)"
  by (rule Itoa_not_mem) (simp_all add: is_digit_char_def)

lemma cap_file_inject: "cap_file c = cap_file d \<longleftrightarrow> c = d"
  by (cases c; cases d) (auto simp: gi_path_def cut_at Itoa_no_slash)

lemma map_of_rev_distinct: "distinct (map fst xs) \<Longrightarrow> map_of (rev xs) = map_of xs"
proof (induction xs)
  case (Cons x xs)
  then have "map_of xs (fst x) = None" by (simp add: map_of_eq_None_iff)
  then show ?case using Cons by (cases x) (auto simp: map_add_def fun_eq_iff split: option.splits)
qed simp

lemma cap_map_lookup:
  assumes "distinct (map fst caps)"
  shows "map_of (rev (map (\<lambda>(c, n). (cap_file c, cap_device n)) caps)) (cap_file c) = map_option cap_device (map_of caps c)"
proof -
  have "distinct (map fst (map (\<lambda>(c, n). (cap_file c, cap_device n)) caps))"
    using distinct_map [of cap_file "map fst caps"] assms by (simp add: inj_on_def cap_file_inject comp_def case_prod_beta)
  then have "map_of (rev (map (\<lambda>(c, n). (cap_file c, cap_device n)) caps)) = map_of (map (\<lambda>(c, n). (cap_file c, cap_device n)) caps)"
    by (rule map_of_rev_distinct)
  moreover have "map_of (map (\<lambda>(c, n). (cap_file c, cap_device n)) caps) (cap_file c) = map_option cap_device (map_of caps c)"
    by (induction caps) (auto simp: cap_file_inject)
  ultimately show ?thesis by simp
qed

text \<open>The device nodes of a MIG device.  When the driver lists its capabilities in the documented format,
  each once, a MIG device gets exactly the node of its parent card and the nodes that the driver lists for
  its own GPU instance and compute instance; it gets none when one of the two is not listed.\<close>
lemma mig_GetPaths_listed:
  assumes "listed_ok caps" and "distinct (map fst caps)" and "mq_minors d = Opened (minors_contents caps)"
    and "mq_gi d = Inr gi" and "mq_ci d = Inr ci" and "mq_parent d = Inr (Inr minor)"
  shows "mig_GetPaths d = Inr ps \<longleftrightarrow>
     (\<exists>a b. map_of caps (GiAccess minor gi) = Some a \<and> map_of caps (CiAccess minor gi ci) = Some b
        \<and> ps = [''/dev/nvidia'' @ Itoa minor, cap_device a, cap_device b])"
proof -
  let ?m = "map_of (rev (map (\<lambda>(c, n). (cap_file c, cap_device n)) caps))"
  have "GetMigCapabilityDevicePaths (mq_minors d) = Inr (Some ?m)"
    using assms(3) GetMigCapabilityDevicePaths_listed [OF assms(1)] by simp
  moreover have "?m (gi_path minor gi @ ''/access'') = map_option cap_device (map_of caps (GiAccess minor gi))"
    and "?m (gi_path minor gi @ ''/ci'' @ Itoa ci @ ''/access'') = map_option cap_device (map_of caps (CiAccess minor gi ci))"
    using cap_map_lookup [OF assms(2)] by (metis cap_file.simps)+
  ultimately show ?thesis
    using assms(4-6) by (auto simp: mig_GetPaths_def Let_def split: option.splits)
qed

definition example_caps :: "(mig_capability \<times> int) list" where
  "example_caps = [(MigConfig, 1), (MigMonitor, 2), (GiAccess 0 1, 12), (CiAccess 0 1 0, 13)]"

lemma mig_GetPaths_listed_example:
  "mig_GetPaths \<lparr>mq_minors = Opened (minors_contents example_caps), mq_gi = Inr 1, mq_ci = Inr 0, mq_parent = Inr (Inr 0)\<rparr>
     = Inr [''/dev/nvidia'' @ Itoa 0, cap_device 12, cap_device 13]"
  using mig_GetPaths_listed [of example_caps "\<lparr>mq_minors = Opened (minors_contents example_caps), mq_gi = Inr 1, mq_ci = Inr 0,
      mq_parent = Inr (Inr 0)\<rparr>" 1 0 0 "[''/dev/nvidia'' @ Itoa 0, cap_device 12, cap_device 13]"]
  by (simp add: listed_ok_def example_caps_def)

end
