(* ===== verification/Dcu_Cores.thy ===== *)
theory Dcu_Cores
  imports Types
begin

text \<open>
  The compute-unit masks of the Hygon device plugin, \<open>pkg/device-plugin/hygon/dcu/corealloc.go\<close>.  A
  mask is a string of hexadecimal digits, one bit per compute unit, the most significant bit first.
  The functions work digit by digit on the string; the lemmas show what they do on the bits.
\<close>

unbundle bit_operations_syntax

section \<open>Hexadecimal and binary numerals\<close>

text \<open>\<open>fmt.Sprintf("%x", n)\<close> and \<open>fmt.Sprintf("%b", n)\<close>.\<close>

definition hex_char :: "nat \<Rightarrow> char" where
  "hex_char d = (if d < 10 then char_of (48 + d) else char_of (87 + d))"

fun hex_str :: "nat \<Rightarrow> string" where
  "hex_str n = (if n < 16 then [hex_char n] else hex_str (n div 16) @ [hex_char (n mod 16)])"

declare hex_str.simps [simp del]

fun bin_str :: "nat \<Rightarrow> string" where
  "bin_str n = (if n < 2 then [digit_char n] else bin_str (n div 2) @ [digit_char (n mod 2)])"

declare bin_str.simps [simp del]

text \<open>
  \<open>strconv.ParseInt(string(c), 16, 0)\<close> on one byte: the value of a hexadecimal digit, and 0 for every
  other byte, since the callers drop the error.
\<close>

definition hex_val :: "char \<Rightarrow> nat" where
  "hex_val c =
     (let n = (of_char c :: nat)
      in if 48 \<le> n \<and> n \<le> 57 then n - 48
         else if 97 \<le> n \<and> n \<le> 102 then n - 87
         else if 65 \<le> n \<and> n \<le> 70 then n - 55
         else 0)"

section \<open>The functions\<close>

definition initCoreUsage :: "int \<Rightarrow> string" where
  "initCoreUsage req = replicate (nat (go_div req 4)) CHR ''0''"

text \<open>
  Both loops stop at the end of the string or at a zero byte.  \<open>addCoreUsage\<close> indexes the second string
  by the position in the first and panics when it is shorter.
\<close>

fun addCoreUsage :: "string \<Rightarrow> string \<Rightarrow> string result" where
  "addCoreUsage [] c = Inr []"
| "addCoreUsage (t # tot) c =
     (if t = CHR 0x00 then Inr []
      else case c of
             [] \<Rightarrow> Inl (GoPanic ''index out of range'')
           | c1 # c' \<Rightarrow> bind_result (addCoreUsage tot c') (\<lambda>res. Inr (hex_str (hex_val t OR hex_val c1) @ res)))"

definition pad_bits :: "string \<Rightarrow> string" where
  "pad_bits s = replicate (4 - length s) CHR ''0'' @ s"

fun alloc_bits :: "string \<Rightarrow> nat \<Rightarrow> int \<Rightarrow> nat \<times> int" where
  "alloc_bits [] res remains = (res, remains)"
| "alloc_bits (c # cs) res remains =
     (if c = CHR ''0'' \<and> remains > 0 then alloc_bits cs (res * 2 + 1) (remains - 1)
      else alloc_bits cs (res * 2) remains)"

definition byteAlloc :: "nat \<Rightarrow> int \<Rightarrow> nat \<times> int" where
  "byteAlloc b req = (if req = 0 then (0, 0) else alloc_bits (pad_bits (bin_str b)) 0 req)"

fun allocCoreUsage :: "string \<Rightarrow> int \<Rightarrow> string" where
  "allocCoreUsage [] remains = []"
| "allocCoreUsage (t # tot) remains =
     (if t = CHR 0x00 then []
      else let (alloc, remains') = byteAlloc (hex_val t) remains
           in hex_str alloc @ allocCoreUsage tot remains')"

section \<open>Masks as lists of bits\<close>

definition bits4 :: "nat \<Rightarrow> bool list" where
  "bits4 n = [bit n 3, bit n 2, bit n 1, bit n 0]"

definition mask_bits :: "string \<Rightarrow> bool list" where
  "mask_bits s = concat (map (bits4 \<circ> hex_val) s)"

definition is_hex_char :: "char \<Rightarrow> bool" where
  "is_hex_char c \<longleftrightarrow> (\<exists>d<16. c = hex_char d)"

abbreviation mask_ok :: "string \<Rightarrow> bool" where
  "mask_ok \<equiv> list_all is_hex_char"

text \<open>What an allocation should do on bits: mark the first free ones.\<close>

fun first_free :: "int \<Rightarrow> bool list \<Rightarrow> bool list" where
  "first_free n [] = []"
| "first_free n (b # bs) = (if \<not> b \<and> n > 0 then True # first_free (n - 1) bs else False # first_free n bs)"

fun left_over :: "int \<Rightarrow> bool list \<Rightarrow> int" where
  "left_over n [] = n"
| "left_over n (b # bs) = (if \<not> b \<and> n > 0 then left_over (n - 1) bs else left_over n bs)"

lemma less_16_cases:
  "(n::nat) < 16 \<Longrightarrow> n \<in> {0, 1, 2, 3, 4, 5, 6, 7, 8, 9, 10, 11, 12, 13, 14, 15}"
  unfolding insert_iff empty_iff by presburger

lemma hex_val_hex_char [simp]: "d < 16 \<Longrightarrow> hex_val (hex_char d) = d"
  by (auto simp: hex_val_def hex_char_def Let_def)

lemma hex_str_digit [simp]: "d < 16 \<Longrightarrow> hex_str d = [hex_char d]"
  by (simp add: hex_str.simps)

lemma is_hex_hex_char [simp]: "d < 16 \<Longrightarrow> is_hex_char (hex_char d)"
  by (auto simp: is_hex_char_def)

lemma hex_val_less [simp]: "hex_val c < 16"
  by (auto simp: hex_val_def Let_def)

lemma hex_char_neq: "d < 16 \<Longrightarrow> hex_char d \<noteq> CHR 0x00 \<and> hex_char d \<noteq> CHR ''_''"
proof -
  assume "d < 16"
  then have c: "(of_char (hex_char d) :: nat) = (if d < 10 then 48 + d else 87 + d)"
    by (simp add: hex_char_def)
  have "(of_char CHR 0x00 :: nat) = 0" and "(of_char CHR ''_'' :: nat) = 95" by code_simp+
  then show ?thesis using c by (auto split: if_splits)
qed

lemma is_hex_char_neq: "is_hex_char c \<Longrightarrow> c \<noteq> CHR 0x00 \<and> c \<noteq> CHR ''_''"
  using hex_char_neq by (auto simp: is_hex_char_def)

lemma or_less_16 [simp]: "a < 16 \<Longrightarrow> b < 16 \<Longrightarrow> a OR b < (16::nat)"
  using OR_upper [of "int a" 4 "int b"] by (simp flip: of_nat_or_eq)

lemma bits4_or: "bits4 (a OR b) = map2 (\<or>) (bits4 a) (bits4 b)"
  by (simp add: bits4_def bit_or_iff)

lemma length_bits4 [simp]: "length (bits4 n) = 4"
  by (simp add: bits4_def)

lemma mask_bits_simps [simp]:
  "mask_bits [] = []"
  "mask_bits (c # s) = bits4 (hex_val c) @ mask_bits s"
  by (simp_all add: mask_bits_def)

lemma length_mask_bits [simp]: "length (mask_bits s) = 4 * length s"
  by (induction s) simp_all

text \<open>The padded binary numeral spells the four bits of a digit.\<close>

lemma replicate_numeral: "replicate (numeral k) x = x # replicate (pred_numeral k) x"
  by (simp add: numeral_eq_Suc)

lemma binary_digits: "bin_str 0 = ''0''" "bin_str (Suc 0) = ''1''" "digit_char 0 = CHR ''0''" "digit_char (Suc 0) = CHR ''1''"
  by code_simp+

lemma pad_bin_bits4:
  "n < 16 \<Longrightarrow> pad_bits (bin_str n) = map (\<lambda>b. if b then CHR ''1'' else CHR ''0'') (bits4 n)"
  by (drule less_16_cases, elim insertE emptyE)
    (simp_all add: pad_bits_def bin_str.simps [of "numeral _"] binary_digits bits4_def bit_iff_odd replicate_numeral)

fun of_bits :: "nat \<Rightarrow> bool list \<Rightarrow> nat" where
  "of_bits res [] = res"
| "of_bits res (b # bs) = of_bits (res * 2 + (if b then 1 else 0)) bs"

lemma alloc_bits_first_free:
  "alloc_bits (map (\<lambda>b. if b then CHR ''1'' else CHR ''0'') bs) res n = (of_bits res (first_free n bs), left_over n bs)"
  by (induction bs arbitrary: res n) auto

lemma bits4_of_bits:
  "bits4 (of_bits 0 [a, b, c, d]) = [a, b, c, d]"
  by (cases a; cases b; cases c; cases d) (simp_all add: bits4_def bit_iff_odd)

lemma of_bits_less_16: "of_bits 0 [a, b, c, d] < 16"
  by (cases a; cases b; cases c; cases d) simp_all

lemma length_first_free [simp]: "length (first_free n bs) = length bs"
  by (induction bs arbitrary: n) auto

lemma first_free_none: "n \<le> 0 \<Longrightarrow> first_free n bs = replicate (length bs) False \<and> left_over n bs = n"
  by (induction bs) auto

lemma first_free_append:
  "first_free n (xs @ ys) = first_free n xs @ first_free (left_over n xs) ys"
  by (induction xs arbitrary: n) auto

lemma byteAlloc_bits:
  assumes "b < 16"
  shows "fst (byteAlloc b n) < 16" and "bits4 (fst (byteAlloc b n)) = first_free n (bits4 b)"
    and "snd (byteAlloc b n) = left_over n (bits4 b)"
proof -
  have four: "\<exists>p q r s. first_free n (bits4 b) = [p, q, r, s]"
    by (auto simp: bits4_def)
  then have "fst (byteAlloc b n) < 16 \<and> bits4 (fst (byteAlloc b n)) = first_free n (bits4 b)
      \<and> snd (byteAlloc b n) = left_over n (bits4 b)"
  proof (cases "n = 0")
    case True
    then show ?thesis using first_free_none [of 0 "bits4 b"] by (simp add: byteAlloc_def bits4_def)
  next
    case False
    then have "byteAlloc b n = (of_bits 0 (first_free n (bits4 b)), left_over n (bits4 b))"
      using assms by (simp add: byteAlloc_def pad_bin_bits4 alloc_bits_first_free)
    then show ?thesis using four of_bits_less_16 bits4_of_bits by auto
  qed
  then show "fst (byteAlloc b n) < 16" and "bits4 (fst (byteAlloc b n)) = first_free n (bits4 b)"
    and "snd (byteAlloc b n) = left_over n (bits4 b)" by auto
qed

lemma allocCoreUsage_bits:
  "mask_ok tot \<Longrightarrow> mask_ok (allocCoreUsage tot n) \<and> length (allocCoreUsage tot n) = length tot
     \<and> mask_bits (allocCoreUsage tot n) = first_free n (mask_bits tot)"
proof (induction tot arbitrary: n)
  case (Cons t tot)
  obtain a r where ar: "byteAlloc (hex_val t) n = (a, r)" by fastforce
  note b = byteAlloc_bits [OF hex_val_less [of t], of n]
  show ?case
    using Cons.IH [of r] Cons.prems is_hex_char_neq [of t] ar b
    by (auto simp: first_free_append)
qed simp

lemma addCoreUsage_bits:
  "mask_ok tot \<Longrightarrow> mask_ok c \<Longrightarrow> length tot \<le> length c \<Longrightarrow>
     \<exists>s. addCoreUsage tot c = Inr s \<and> mask_ok s \<and> length s = length tot
       \<and> mask_bits s = map2 (\<or>) (mask_bits tot) (mask_bits c)"
proof (induction tot arbitrary: c)
  case (Cons t tot)
  then obtain c1 c' where c: "c = c1 # c'" by (cases c) auto
  obtain s where s: "addCoreUsage tot c' = Inr s" "mask_ok s" "length s = length tot"
    "mask_bits s = map2 (\<or>) (mask_bits tot) (mask_bits c')"
    using Cons.IH [of c'] Cons.prems c by auto
  show ?case
    using s c Cons.prems is_hex_char_neq [of t]
    by (auto simp: bits4_or)
qed simp

text \<open>The bits that an allocation marks are free ones, as many as asked for or as there are.\<close>

lemma first_free_disjoint: "i < length bs \<Longrightarrow> first_free n bs ! i \<Longrightarrow> \<not> bs ! i"
  by (induction bs arbitrary: n i) (auto simp: nth_Cons split: nat.splits if_splits)

lemma first_free_count:
  "length (filter id (first_free n bs)) = min (nat n) (length (filter Not bs))"
proof (induction bs arbitrary: n)
  case (Cons b bs)
  show ?case using Cons.IH [of n] Cons.IH [of "n - 1"] by (auto simp: min_def)
qed simp

text \<open>The number of compute units in a mask.\<close>

definition cores :: "string \<Rightarrow> nat" where
  "cores s = length (filter id (mask_bits s))"

definition share_cores :: "string \<Rightarrow> string \<Rightarrow> bool" where
  "share_cores s t \<longleftrightarrow> (\<exists>i < length (mask_bits s). i < length (mask_bits t) \<and> mask_bits s ! i \<and> mask_bits t ! i)"

definition covers :: "string \<Rightarrow> string \<Rightarrow> bool" where
  "covers s t \<longleftrightarrow> length t = length s \<and> (\<forall>i < length (mask_bits t). mask_bits t ! i \<longrightarrow> mask_bits s ! i)"

lemma allocCoreUsage_cores:
  assumes "mask_ok tot" and "covers tot used"
  shows "\<not> share_cores used (allocCoreUsage tot n)"
    and "cores (allocCoreUsage tot n) = min (nat n) (length (filter Not (mask_bits tot)))"
  using allocCoreUsage_bits [OF assms(1), of n] assms(2) first_free_disjoint [of _ "mask_bits tot" n] first_free_count
  by (auto simp: share_cores_def covers_def cores_def)

lemma covers_refl: "covers s s"
  by (simp add: covers_def)

lemma addCoreUsage_covers:
  assumes "mask_ok tot" and "mask_ok c" and "length c = length tot" and "addCoreUsage tot c = Inr s"
  shows "mask_ok s" and "length s = length tot" and "covers s c" and "covers tot t \<Longrightarrow> covers s t"
  using addCoreUsage_bits [OF assms(1,2)] assms(3,4) by (auto simp: covers_def)

lemma initCoreUsage_ok: "mask_ok (initCoreUsage n)" "length (initCoreUsage n) = nat (go_div n 4)"
proof -
  have "hex_char 0 = CHR ''0''" by code_simp
  then show "mask_ok (initCoreUsage n)" "length (initCoreUsage n) = nat (go_div n 4)"
    using is_hex_hex_char [of 0] by (simp_all add: initCoreUsage_def list_all_iff)
qed

end
