(* ===== verification/Dcu_Plugin.thy ===== *)
theory Dcu_Plugin
  imports Dcu_Cores Go_Scan Handover
begin

text \<open>
  The Hygon device plugin, \<open>pkg/device-plugin/hygon/dcu\<close> (\<open>server.go\<close>, \<open>register.go\<close>) and the search for
  the cards in \<open>amdgpu/amdgpu.go\<close>.  The state is the plugin's tables of cards, virtual devices, pipes and
  core masks, and the directory in which it records every virtual device; the names of the entries are
  all the plugin remembers across a restart.  The output of the vendor's tools, the answers of the API
  server and the results of file operations are arguments.
\<close>

section \<open>The state\<close>

record dcu_plugin =
  dp_AMDGPUs :: "(string, (string, int) gomap) gomap"
  dp_pcibusid :: "string list"
  dp_totalcores :: "int list"
  dp_totalmem :: "int list"
  dp_vidx :: "bool list"
  dp_pipeid :: "bool list list"
  dp_coremask :: "string list"
  dp_cardtype :: "string list"
  dp_count :: int

text \<open>
  The plugin and the directory \<open>/usr/local/vgpu/dcu\<close>: the names of its entries with the contents of
  their \<open>vdev0.conf\<close>.
\<close>

record dcu_world =
  dw_plugin :: dcu_plugin
  dw_dirs :: "(string, string) gomap"

record dcu_fs =
  fs_ReadDir :: "string list \<Rightarrow> string list result"
  fs_MkdirAll :: "string \<Rightarrow> unit result"
  fs_Chmod :: "string \<Rightarrow> unit result"
  fs_WriteFile :: "string \<Rightarrow> bool"
  fs_RemoveAll :: "string \<Rightarrow> bool"

definition vdev_root :: string where
  "vdev_root = ''/usr/local/vgpu/dcu/''"

section \<open>Start\<close>

fun for_lines :: "(string \<Rightarrow> 's \<Rightarrow> 's result) \<Rightarrow> string list \<Rightarrow> 's \<Rightarrow> 's result" where
  "for_lines f [] s = Inr s"
| "for_lines f (l # ls) s = bind_result (f l s) (for_lines f ls)"

definition blank_plugin :: "dcu_plugin \<Rightarrow> dcu_plugin" where
  "blank_plugin p = p\<lparr>dp_pcibusid := replicate 16 [], dp_totalcores := replicate 16 0, dp_vidx := replicate 200 False,
     dp_pipeid := replicate 16 (replicate 20 False), dp_totalmem := replicate 16 0, dp_cardtype := replicate 16 [],
     dp_coremask := replicate 16 [], dp_count := 0\<rparr>"

definition tabs :: string where "tabs = [CHR '' '', CHR 0x09, CHR 0x09]"

text \<open>Lines of \<open>hy-smi --showmeminfo vram\<close> come in pairs: total and used memory.  \<open>index\<close> is not reset.\<close>

definition memory_line :: "string \<Rightarrow> nat \<times> dcu_plugin \<Rightarrow> (nat \<times> dcu_plugin) result" where
  "memory_line val s =
     (let (index, p) = s
      in if \<not> Contains val ''DCU['' then Inr s
         else if even index then
           (case Sscanf val (''DCU[%d]'' @ tabs @ '': vram Total Memory (B): %d'' @ [CHR 0x0A]) of
              ([ScannedInt idx, ScannedInt memory], True) \<Rightarrow>
                bind_result (slice_set (dp_totalmem p) idx (go_div (go_div memory 1024) 1024))
                  (\<lambda>tm. Inr (Suc index, p\<lparr>dp_totalmem := tm, dp_count := dp_count p + 1\<rparr>))
            | _ \<Rightarrow> Inl (GoPanic ''scan error''))
         else
           (case Sscanf val (''DCU[%d]'' @ tabs @ '': vram Total Used Memory (B): %d'' @ [CHR 0x0A]) of
              (_, True) \<Rightarrow> Inr (Suc index, p\<lparr>dp_count := dp_count p + 1\<rparr>)
            | _ \<Rightarrow> Inl (GoPanic ''scan error'')))"

definition product_line :: "string \<Rightarrow> nat \<times> dcu_plugin \<Rightarrow> (nat \<times> dcu_plugin) result" where
  "product_line val s =
     (let (index, p) = s
      in if \<not> Contains val ''DCU['' then Inr s
         else if even index then
           (case Sscanf val (''DCU[%d]'' @ tabs @ '': Card series:'' @ [CHR 0x09, CHR 0x09] @ ''%s'' @ [CHR 0x0A]) of
              ([ScannedInt idx, ScannedString cardtype], True) \<Rightarrow>
                bind_result (slice_set (dp_cardtype p) idx (''DCU-'' @ cardtype))
                  (\<lambda>ct. Inr (Suc index, p\<lparr>dp_cardtype := ct\<rparr>))
            | _ \<Rightarrow> Inl (GoPanic ''scan error''))
         else Inr (Suc index, p))"

definition bus_line :: "string \<Rightarrow> dcu_plugin \<Rightarrow> dcu_plugin result" where
  "bus_line val p =
     (if \<not> Contains val ''DCU['' then Inr p
      else case Sscanf val (''DCU[%d]'' @ tabs @ '': PCI Bus: %s'' @ [CHR 0x0A]) of
             ([ScannedInt idx, ScannedString pcibus], True) \<Rightarrow>
               bind_result (slice_set (dp_pcibusid p) idx pcibus) (\<lambda>b. Inr (p\<lparr>dp_pcibusid := b\<rparr>))
           | _ \<Rightarrow> Inl (GoPanic ''scan error''))"

text \<open>The device named last is the one whose compute units follow.\<close>

definition info_line :: "string \<Rightarrow> int \<times> dcu_plugin \<Rightarrow> (int \<times> dcu_plugin) result" where
  "info_line val s =
     (let (idx, p) = s
      in if Contains val ''Actual Device:'' then
           (case Sscanf val (CHR 0x09 # ''Actual Device: %d'') of
              ([ScannedInt i], True) \<Rightarrow> Inr (i, p)
            | _ \<Rightarrow> Inl (GoPanic ''scan error''))
         else if Contains val ''Compute units:'' then
           bind_result (slice_get (dp_totalcores p) idx)
             (\<lambda>_. case Sscanf val (CHR 0x09 # ''Compute units: %d'') of
                ([ScannedInt units], True) \<Rightarrow>
                  bind_result (slice_set (dp_totalcores p) idx units) (\<lambda>tc. Inr (idx, p\<lparr>dp_totalcores := tc\<rparr>))
              | _ \<Rightarrow> Inl (GoPanic ''scan error''))
         else Inr s)"

text \<open>
  \<open>log.Fatalf\<close> ends the process when a tool fails.  The four arguments are the outputs of
  \<open>hy-smi --showmeminfo vram\<close>, \<open>hy-smi --showproduct\<close>, \<open>hy-smi --showbus\<close> and \<open>hdmcli --show-device-info\<close>.
\<close>

definition dcu_Start :: "string result \<Rightarrow> string result \<Rightarrow> string result \<Rightarrow> string result \<Rightarrow> dcu_plugin \<Rightarrow> dcu_plugin result" where
  "dcu_Start meminfo product bus device_info p =
     bind_result meminfo (\<lambda>out1.
     bind_result (for_lines memory_line (Split CHR 0x0A out1) (0, blank_plugin p)) (\<lambda>(index, p1).
     bind_result product (\<lambda>out2.
     bind_result (for_lines product_line (Split CHR 0x0A out2) (index, p1)) (\<lambda>(_, p2).
     bind_result bus (\<lambda>out3.
     bind_result (for_lines bus_line (Split CHR 0x0A out3) p2) (\<lambda>p3.
     bind_result device_info (\<lambda>out4.
     bind_result (for_lines info_line (Split CHR 0x0A out4) (0, p3)) (\<lambda>(_, p4).
     Inr (p4\<lparr>dp_coremask := map initCoreUsage (dp_totalcores p4)\<rparr>)))))))))"

section \<open>Finding the cards\<close>

text \<open>
  The entries of a card's \<open>drm\<close> directory.  Both slice expressions panic on a shorter name; the second
  one is evaluated only when the name is no card.
\<close>

fun drm_entries :: "string list \<Rightarrow> (string, int) gomap \<Rightarrow> (string, int) gomap result" where
  "drm_entries [] m = Inr m"
| "drm_entries (name # names) m =
     (if length name < 4 then Inl (GoPanic ''slice bounds out of range'')
      else if take 4 name = ''card'' then drm_entries names (mset_to m ''card'' (fst (Atoi (drop 4 name))))
      else if length name < 7 then Inl (GoPanic ''slice bounds out of range'')
      else if take 7 name = ''renderD'' then drm_entries names (mset_to m ''renderD'' (fst (Atoi (drop 7 name))))
      else drm_entries names m)"

fun scan_cards :: "(string \<times> string list) list \<Rightarrow> (string, (string, int) gomap) gomap \<Rightarrow> (string, (string, int) gomap) gomap result" where
  "scan_cards [] m = Inr m"
| "scan_cards ((pci, names) # cards) m =
     bind_result (drm_entries names []) (\<lambda>entry. scan_cards cards (mset_to m pci entry))"

text \<open>\<open>driver\<close> tells whether the driver's directory exists; \<open>cards\<close> is what the two globs find.\<close>

definition GetAMDGPUs :: "bool \<Rightarrow> (string \<times> string list) list \<Rightarrow> (string, (string, int) gomap) gomap result" where
  "GetAMDGPUs driver cards = (if driver then scan_cards cards [] else Inr [])"

definition AMDGPU :: "string result \<Rightarrow> bool" where
  "AMDGPU vendor_file = (case vendor_file of Inr b \<Rightarrow> TrimSpace b = ''0x1d94'' | Inl _ \<Rightarrow> False)"

text \<open>The leftmost match of the expression \<open>simd_count\s(\d+)\<close> in a line: its digits.\<close>

fun find_simd :: "string \<Rightarrow> string option" where
  "find_simd [] = None"
| "find_simd (c # cs) =
     (let rest = drop 10 (c # cs)
      in if prefix ''simd_count'' (c # cs) \<and> rest \<noteq> [] \<and> is_space (hd rest) \<and> hd rest \<noteq> CHR 0x0B
            \<and> tl rest \<noteq> [] \<and> is_digit_char (hd (tl rest))
         then Some (takeWhile is_digit_char (tl rest)) else find_simd cs)"

text \<open>A node counts when one of its lines names a positive number of SIMD units.\<close>

definition countGPUDevFromTopology :: "string list option list \<Rightarrow> nat" where
  "countGPUDevFromTopology nodeFiles =
     length (filter (\<lambda>f. case f of
        None \<Rightarrow> False
      | Some ls \<Rightarrow> list_ex (\<lambda>l. case find_simd l of None \<Rightarrow> False | Some ds \<Rightarrow> fst (Atoi ds) > 0) ls) nodeFiles)"

section \<open>The virtual devices on disk\<close>

text \<open>An entry whose pod exists is marked as in use.\<close>

definition mark_vdev :: "string \<Rightarrow> dcu_plugin \<Rightarrow> dcu_plugin result" where
  "mark_vdev name p =
     (let tmpstr = Split CHR ''_'' name
      in if length tmpstr \<le> 5 then Inl (GoPanic ''index out of range'')
         else
           let didx = fst (Atoi (tmpstr ! 2)); pid = fst (Atoi (tmpstr ! 3)); vdidx = fst (Atoi (tmpstr ! 4))
           in bind_result (slice_get (dp_coremask p) didx) (\<lambda>used.
              bind_result (addCoreUsage used (tmpstr ! 5)) (\<lambda>used'.
              bind_result (slice_set (dp_vidx p) vdidx True) (\<lambda>vidx'.
              bind_result (slice_get (dp_pipeid p) didx) (\<lambda>pipes.
              bind_result (slice_set pipes pid True) (\<lambda>pipes'.
              Inr (p\<lparr>dp_coremask := (dp_coremask p)[nat didx := used'], dp_vidx := vidx',
                     dp_pipeid := (dp_pipeid p)[nat didx := pipes']\<rparr>)))))))"

text \<open>An entry whose pod is gone is released.\<close>

definition release_vdev :: "string \<Rightarrow> dcu_plugin \<Rightarrow> dcu_plugin result" where
  "release_vdev name p =
     (let tmpstr = Split CHR ''_'' name
      in if length tmpstr \<le> 4 then Inl (GoPanic ''index out of range'')
         else
           let didx = fst (Atoi (tmpstr ! 2)); pid = fst (Atoi (tmpstr ! 3)); vdidx = fst (Atoi (tmpstr ! 4))
           in bind_result (slice_set (dp_vidx p) vdidx False) (\<lambda>vidx'.
              bind_result (slice_get (dp_pipeid p) didx) (\<lambda>pipes.
              bind_result (slice_set pipes pid False) (\<lambda>pipes'.
              Inr (p\<lparr>dp_vidx := vidx', dp_pipeid := (dp_pipeid p)[nat didx := pipes']\<rparr>)))))"

definition matching_pods :: "string \<Rightarrow> pod list \<Rightarrow> pod list" where
  "matching_pods name pods = filter (\<lambda>val. Contains name (pod_UID val)) pods"

text \<open>\<open>list_pods f\<close> is the answer of the API server to the query made for the entry \<open>f\<close>.\<close>

fun refresh_files :: "dcu_fs \<Rightarrow> (string \<Rightarrow> pod list result) \<Rightarrow> string list \<Rightarrow> dcu_world \<Rightarrow> unit result \<times> dcu_world" where
  "refresh_files fs list_pods [] w = (Inr (), w)"
| "refresh_files fs list_pods (f # files) w =
     (case list_pods f of
        Inl e \<Rightarrow> (Inl e, w)
      | Inr pods \<Rightarrow>
          let hits = matching_pods f pods
          in case (if hits \<noteq> [] then fold (\<lambda>_ r. bind_result r (mark_vdev f)) hits (Inr (dw_plugin w))
                   else release_vdev f (dw_plugin w)) of
               Inl e \<Rightarrow> (Inl e, w)
             | Inr p \<Rightarrow>
                 refresh_files fs list_pods files
                   (w\<lparr>dw_plugin := p,
                      dw_dirs := (if hits = [] \<and> fs_RemoveAll fs f then mdel (dw_dirs w) f else dw_dirs w)\<rparr>))"

definition RefreshContainerDevices :: "dcu_fs \<Rightarrow> (string \<Rightarrow> pod list result) \<Rightarrow> dcu_world \<Rightarrow> unit result \<times> dcu_world" where
  "RefreshContainerDevices fs list_pods w =
     (case fs_ReadDir fs (map fst (dw_dirs w)) of
        Inl e \<Rightarrow> (Inl e, w)
      | Inr files \<Rightarrow>
          let p = dw_plugin w
          in if length (dp_totalcores p) < length (dp_coremask p) then (Inl (GoPanic ''index out of range''), w)
             else refresh_files fs list_pods files
                    (w\<lparr>dw_plugin := p\<lparr>dp_coremask := map initCoreUsage (take (length (dp_coremask p)) (dp_totalcores p))\<rparr>\<rparr>))"

section \<open>Allocation\<close>

fun first_unused :: "bool list \<Rightarrow> nat option" where
  "first_unused [] = None"
| "first_unused (b # bs) = (if \<not> b then Some 0 else map_option Suc (first_unused bs))"

definition AllocateVidx :: "dcu_plugin \<Rightarrow> int result \<times> dcu_plugin" where
  "AllocateVidx p =
     (case first_unused (dp_vidx p) of
        None \<Rightarrow> (Inl (Errorf ''vidx out of bound (>200)''), p)
      | Some idx \<Rightarrow> (Inr (int idx), p\<lparr>dp_vidx := (dp_vidx p)[idx := True]\<rparr>))"

definition AllocatePipeID :: "int \<Rightarrow> dcu_plugin \<Rightarrow> int result \<times> dcu_plugin" where
  "AllocatePipeID devidx p =
     (case slice_get (dp_pipeid p) devidx of
        Inl e \<Rightarrow> (Inl e, p)
      | Inr pipes \<Rightarrow>
          (case first_unused pipes of
             None \<Rightarrow> (Inl (Errorf (''pipidx out of bound:'' @ Itoa devidx)), p)
           | Some idx \<Rightarrow> (Inr (int idx), p\<lparr>dp_pipeid := (dp_pipeid p)[nat devidx := pipes[idx := True]]\<rparr>)))"

definition getIndexFromUUID :: "string \<Rightarrow> int result" where
  "getIndexFromUUID uid =
     (if length uid < 4 then Inl (GoPanic ''slice bounds out of range'') else Inr (fst (ParseInt 64 (drop 4 uid))))"

definition newline :: string where "newline = [CHR 0x0A]"

definition required_cores :: "container_device \<Rightarrow> int \<Rightarrow> int" where
  "required_cores val units = go_div (i32 (cd_Usedcores val * i32 units)) 100"

text \<open>
  The body of the loop over the request: the contents of the configuration, the card, the pipe and the
  mask.  The number of the virtual device goes into the configuration only: inside the loop \<open>vdevidx\<close> is a
  new variable, and the one in the name of the directory stays 0.
\<close>

definition prepare_vdev :: "container_device \<Rightarrow> dcu_plugin \<Rightarrow> (string \<times> int \<times> int \<times> string) result \<times> dcu_plugin" where
  "prepare_vdev val p =
     (case bind_result (getIndexFromUUID (cd_UUID val)) (\<lambda>idx.
           bind_result (slice_get (dp_pcibusid p) idx) (\<lambda>pcibusId.
           bind_result (slice_get (dp_totalcores p) idx) (\<lambda>units.
           bind_result (slice_get (dp_coremask p) idx) (\<lambda>used. Inr (idx, pcibusId, units, used))))) of
        Inl e \<Rightarrow> (Inl e, p)
      | Inr (idx, pcibusId, units, used) \<Rightarrow>
          let coremsk = allocCoreUsage used (required_cores val units);
              s = ''PciBusId: '' @ pcibusId @ newline @ ''cu_mask: 0x'' @ coremsk @ newline
                  @ ''cu_count: '' @ Itoa units @ newline @ ''mem: '' @ Itoa (cd_Usedmem val) @ '' MiB'' @ newline
                  @ ''device_id: 0'' @ newline
          in case AllocateVidx p of
               (Inl e, p1) \<Rightarrow> (Inl e, p1)
             | (Inr vdevidx, p1) \<Rightarrow>
                 (case AllocatePipeID idx p1 of
                    (Inl e, p2) \<Rightarrow> (Inl e, p2)
                  | (Inr pipeid, p2) \<Rightarrow>
                      (Inr (s @ ''vdev_id: '' @ Itoa vdevidx @ newline @ ''pipe_id: '' @ Itoa pipeid @ newline
                              @ ''enable: 1'' @ newline, idx, pipeid, coremsk), p2)))"

definition vdev_name :: "string \<Rightarrow> string \<Rightarrow> int \<Rightarrow> int \<Rightarrow> int \<Rightarrow> string \<Rightarrow> string" where
  "vdev_name uid ctr devidx pipeid vdevidx coremsk =
     uid @ ''_'' @ ctr @ ''_'' @ Itoa devidx @ ''_'' @ Itoa pipeid @ ''_'' @ Itoa vdevidx @ ''_'' @ coremsk"

definition createvdevFile :: "dcu_fs \<Rightarrow> string \<Rightarrow> string \<Rightarrow> container_devices \<Rightarrow> dcu_world \<Rightarrow> string result \<times> dcu_world" where
  "createvdevFile fs uid ctr req w =
     (if length req > 1 then
        (if list_ex (\<lambda>val. cd_Usedcores val > 0 \<or> cd_Usedmem val > 0) req
         then (Inl (Errorf ''vdev only support one device per container''), w) else (Inr [], w))
      else
        case (case filter (\<lambda>val. cd_UUID val \<noteq> []) req of
                [] \<Rightarrow> (Inr ([], 0, 0, []), dw_plugin w)
              | val # _ \<Rightarrow> prepare_vdev val (dw_plugin w)) of
          (Inl e, p) \<Rightarrow> (Inl e, w\<lparr>dw_plugin := p\<rparr>)
        | (Inr (s, devidx, pipeid, coremsk), p) \<Rightarrow>
            let name = vdev_name uid ctr devidx pipeid 0 coremsk; dir = vdev_root @ name; w1 = w\<lparr>dw_plugin := p\<rparr>
            in case fs_MkdirAll fs dir of
                 Inl e \<Rightarrow> (Inl e, w1)
               | Inr _ \<Rightarrow>
                   let w2 = w1\<lparr>dw_dirs := mset_to (dw_dirs w1) name (mget_default [] (dw_dirs w1) name)\<rparr>
                   in case fs_Chmod fs dir of
                        Inl e \<Rightarrow> (Inl e, w2)
                      | Inr _ \<Rightarrow>
                          (Inr dir, if fs_WriteFile fs (dir @ ''/vdev0.conf'')
                                    then w2\<lparr>dw_dirs := mset_to (dw_dirs w2) name s\<rparr> else w2))"

record dcu_response =
  dr_Devices :: "(string \<times> string \<times> string) list"
  dr_Mounts :: "(string \<times> string \<times> bool) list"

definition device_node :: "string \<Rightarrow> string \<Rightarrow> string \<times> string \<times> string" where
  "device_node path perms = (path, path, perms)"

text \<open>The error of \<open>Sscanf\<close> is dropped: an id of another form is card 0.\<close>

definition dri_nodes :: "container_device \<Rightarrow> (string \<times> string \<times> string) list" where
  "dri_nodes val =
     (let n = (case fst (Sscanf (cd_UUID val) ''DCU-%d'') of [ScannedInt i] \<Rightarrow> i | _ \<Rightarrow> 0)
      in [device_node (''/dev/dri/card'' @ Itoa n) ''rw'', device_node (''/dev/dri/renderD'' @ Itoa (n + 128)) ''rw''])"

definition dcu_allocate_one ::
  "dcu_fs \<Rightarrow> string \<Rightarrow> patch_api \<Rightarrow> annotations \<Rightarrow> pod \<Rightarrow> string list \<Rightarrow> dcu_world \<times> cluster_state \<Rightarrow>
   dcu_response result \<times> dcu_world \<times> cluster_state" where
  "dcu_allocate_one fs hygonpath api_patch inreq current ids s =
     (let (w, st) = s
      in case GetNextDeviceRequest inreq HygonDCUDevice current of
           Inl e \<Rightarrow> (Inl e, w, if is_panic (Inl e :: unit result) then st else PodAllocationFailed api_patch st)
         | Inr (currentCtr, devreq) \<Rightarrow>
             if length devreq \<noteq> length ids
             then (Inl (Errorf ''device number not matched''), w, PodAllocationFailed api_patch st)
             else
               case EraseNextDeviceTypeFromAnnotation (\<lambda>_. api_patch (cl_annos st)) inreq HygonDCUDevice current of
                 Inl e \<Rightarrow> (Inl e, w, PodAllocationFailed api_patch st)
               | Inr erased \<Rightarrow>
                   let st1 = st\<lparr>cl_annos := pod_Annotations erased\<rparr>
                   in case createvdevFile fs (pod_UID current) (ctr_Name currentCtr) devreq w of
                        (Inl e, w1) \<Rightarrow> (Inl e, w1, if is_panic (Inl e :: unit result) then st1 else PodAllocationFailed api_patch st1)
                      | (Inr filename, w1) \<Rightarrow>
                          (Inr \<lparr>dr_Devices = [device_node ''/dev/kfd'' ''rwm'', device_node ''/dev/mkfd'' ''rwm'']
                                  @ concat (map dri_nodes devreq),
                                dr_Mounts = (if filename \<noteq> []
                                  then [(''/etc/vdev/docker/'', filename, False), (''/opt/hygondriver'', hygonpath, False)]
                                  else [])\<rparr>, w1, st1))"

fun dcu_allocate_all ::
  "dcu_fs \<Rightarrow> string \<Rightarrow> patch_api \<Rightarrow> annotations \<Rightarrow> pod \<Rightarrow> string list list \<Rightarrow> dcu_world \<times> cluster_state \<Rightarrow>
   dcu_response list result \<times> dcu_world \<times> cluster_state" where
  "dcu_allocate_all fs hygonpath api_patch inreq current [] s = (Inr [], s)"
| "dcu_allocate_all fs hygonpath api_patch inreq current (ids # reqs) s =
     (case dcu_allocate_one fs hygonpath api_patch inreq current ids s of
        (Inl e, s1) \<Rightarrow> (Inl e, s1)
      | (Inr r, s1) \<Rightarrow>
          (case dcu_allocate_all fs hygonpath api_patch inreq current reqs s1 of
             (Inl e, s2) \<Rightarrow> (Inl e, s2)
           | (Inr rs, s2) \<Rightarrow> (Inr (r # rs), s2)))"

text \<open>
  The responses hold the address of one variable \<open>car\<close> that is declared outside the loop: all of them
  are the last one.
\<close>

definition same_car :: "'a list \<Rightarrow> 'a list" where
  "same_car cars = (if cars = [] then [] else replicate (length cars) (last cars))"

definition dcu_Allocate ::
  "dcu_fs \<Rightarrow> string \<Rightarrow> patch_api \<Rightarrow> annotations \<Rightarrow> bool \<Rightarrow> pod list result \<Rightarrow> string \<Rightarrow> string list list \<Rightarrow>
   dcu_world \<times> cluster_state \<Rightarrow> dcu_response list result \<times> dcu_world \<times> cluster_state" where
  "dcu_Allocate fs hygonpath api_patch inreq get_ok podlist nodename reqs s =
     (let (w, st) = s
      in case GetPendingPod podlist nodename of
           Inl e \<Rightarrow> (Inl e, w, st\<lparr>cl_lock := snd (ReleaseNodeLock (cl_lock st))\<rparr>)
         | Inr current \<Rightarrow>
             (case dcu_allocate_all fs hygonpath api_patch inreq current reqs s of
                (Inl e, w1, st1) \<Rightarrow> (Inl e, w1, st1)
              | (Inr cars, w1, st1) \<Rightarrow> (Inr (same_car cars), w1, PodAllocationTrySuccess api_patch get_ok st1)))"

definition AllocateOrigin :: "dcu_plugin \<Rightarrow> string list list \<Rightarrow> dcu_response list" where
  "AllocateOrigin p reqs =
     same_car (map (\<lambda>ids. \<lparr>dr_Devices = device_node ''/dev/kfd'' ''rw'' #
         concat (map (\<lambda>i. map (\<lambda>(k, v). device_node (''/dev/dri/'' @ k @ Itoa v) ''rw'') (mget_default [] (dp_AMDGPUs p) i)) ids),
       dr_Mounts = []\<rparr>) reqs)"

section \<open>Registration and listing\<close>

definition dcu_apiDevices :: "dcu_plugin \<Rightarrow> api_device_info list result" where
  "dcu_apiDevices p =
     (let cards = filter (\<lambda>(idx, val). val > 0) (enumerate 0 (dp_totalmem p))
      in if list_ex (\<lambda>(idx, val). length (dp_cardtype p) \<le> idx) cards then Inl (GoPanic ''index out of range'')
         else Inr (map (\<lambda>(idx, val).
           \<lparr>ad_Index = int idx, ad_Id = ''DCU-'' @ Itoa (int idx), ad_Count = 30, ad_Devmem = i32 val, ad_Devcore = 100,
            ad_Type = dp_cardtype p ! idx, ad_Numa = 0, ad_Health = True\<rparr>) cards))"

definition dcu_RegistrInAnnotation ::
  "dcu_plugin \<Rightarrow> annotations result \<Rightarrow> (annotations \<Rightarrow> annotations \<Rightarrow> annotations result) \<Rightarrow> string \<Rightarrow> annotations result" where
  "dcu_RegistrInAnnotation p node api_patch now =
     bind_result (dcu_apiDevices p) (\<lambda>devices.
       bind_result node (\<lambda>annos.
         api_patch annos
           (mset_to (mset_to [] ''4pd.io/node-handshake-dcu'' (''Reported '' @ now))
              ''4pd.io/node-dcu-register'' (EncodeNodeDevices devices))))"

text \<open>One round of the loop: the error of the refresh is dropped; the number is the pause in seconds.\<close>

definition dcu_register_round ::
  "dcu_fs \<Rightarrow> (string \<Rightarrow> pod list result) \<Rightarrow> annotations result \<Rightarrow> (annotations \<Rightarrow> annotations \<Rightarrow> annotations result) \<Rightarrow>
   string \<Rightarrow> dcu_world \<Rightarrow> nat \<times> annotations result \<times> dcu_world" where
  "dcu_register_round fs list_pods node api_patch now w =
     (let w1 = snd (RefreshContainerDevices fs list_pods w);
          r = dcu_RegistrInAnnotation (dw_plugin w1) node api_patch now
      in ((case r of Inl _ \<Rightarrow> 5 | Inr _ \<Rightarrow> 30), r, w1))"

definition dcu_generateFakeDevs :: "api_device_info list \<Rightarrow> (string \<times> string) list" where
  "dcu_generateFakeDevs devices =
     concat (map (\<lambda>val. map (\<lambda>idx. (ad_Id val @ ''-fake-'' @ nat_str idx, ''Healthy'')) [0..<nat (ad_Count val)]) devices)"

text \<open>
  The lists sent to the kubelet: one at the start and one per heartbeat.  The health that a heartbeat finds
  is stored in a list that is never sent.
\<close>

definition dcu_ListAndWatch :: "(string, (string, int) gomap) gomap \<Rightarrow> bool list \<Rightarrow> dcu_plugin \<Rightarrow>
   ((string \<times> string) list list \<times> (string \<times> string) list \<times> dcu_plugin) result" where
  "dcu_ListAndWatch gpus heartbeats p =
     (let p1 = p\<lparr>dp_AMDGPUs := gpus\<rparr>;
          devs = map (\<lambda>(i, _). (i, ''Healthy'')) gpus;
          devs' = fold (\<lambda>healthy ds. map (\<lambda>(i, _). (i, if healthy then ''Healthy'' else ''Unhealthy'')) ds) heartbeats devs
      in bind_result (dcu_apiDevices p1) (\<lambda>fakedevs.
           Inr (replicate (Suc (length heartbeats)) (dcu_generateFakeDevs fakedevs), devs', p1)))"

section \<open>Well-formed states and entries\<close>

definition dcu_shape :: "dcu_plugin \<Rightarrow> bool" where
  "dcu_shape p \<longleftrightarrow> length (dp_pcibusid p) = 16 \<and> length (dp_totalcores p) = 16 \<and> length (dp_coremask p) = 16
     \<and> length (dp_vidx p) = 200 \<and> length (dp_pipeid p) = 16 \<and> (\<forall>i<16. length (dp_pipeid p ! i) = 20)"

definition masks_ok :: "dcu_plugin \<Rightarrow> bool" where
  "masks_ok p \<longleftrightarrow> (\<forall>i<16. mask_ok (dp_coremask p ! i) \<and> length (dp_coremask p ! i) = nat (go_div (dp_totalcores p ! i) 4))"

text \<open>The entry of a container that holds the cores \<open>m\<close> of card \<open>d\<close>.\<close>

definition vdev_entry :: "dcu_plugin \<Rightarrow> string \<Rightarrow> nat \<Rightarrow> string \<Rightarrow> bool" where
  "vdev_entry p name d m \<longleftrightarrow> (\<exists>uid ctr pid v. name = vdev_name uid ctr (int d) (int pid) (int v) m
     \<and> CHR ''_'' \<notin> set uid \<and> CHR ''_'' \<notin> set ctr \<and> d < 16 \<and> pid < 20 \<and> v < 200 \<and> mask_ok m
     \<and> length m = nat (go_div (dp_totalcores p ! d) 4))"

text \<open>The core masks only grow while the entries are read.\<close>

definition masks_grow :: "dcu_plugin \<Rightarrow> dcu_plugin \<Rightarrow> bool" where
  "masks_grow p p' \<longleftrightarrow> dcu_shape p' \<and> masks_ok p' \<and> dp_totalcores p' = dp_totalcores p \<and> dp_pcibusid p' = dp_pcibusid p
     \<and> (\<forall>i<16. \<forall>t. covers (dp_coremask p ! i) t \<longrightarrow> covers (dp_coremask p' ! i) t)"

lemma masks_grow_trans: "masks_grow p q \<Longrightarrow> masks_grow q r \<Longrightarrow> masks_grow p r"
  by (auto simp: masks_grow_def)

lemma masks_growD:
  "masks_grow p q \<Longrightarrow> dcu_shape q" "masks_grow p q \<Longrightarrow> masks_ok q" "masks_grow p q \<Longrightarrow> dp_totalcores q = dp_totalcores p"
  "masks_grow p q \<Longrightarrow> i < 16 \<Longrightarrow> covers (dp_coremask p ! i) t \<Longrightarrow> covers (dp_coremask q ! i) t"
  by (auto simp: masks_grow_def)

lemma vdev_entry_cong: "dp_totalcores p = dp_totalcores q \<Longrightarrow> vdev_entry p = vdev_entry q"
  by (intro ext) (simp add: vdev_entry_def)

lemma Split_vdev_name:
  assumes "CHR ''_'' \<notin> set uid" and "CHR ''_'' \<notin> set ctr" and "mask_ok m"
  shows "Split CHR ''_'' (vdev_name uid ctr d pid v m) = [uid, ctr, Itoa d, Itoa pid, Itoa v, m]"
proof -
  have m: "CHR ''_'' \<notin> set m" using assms(3) is_hex_char_neq by (auto simp: list_all_iff)
  have i: "CHR ''_'' \<notin> set (Itoa x)" for x by (simp add: Itoa_not_mem)
  show ?thesis
    using assms(1,2) m i by (simp add: vdev_name_def Split_append_sep Split_no_sep)
qed

lemma Atoi_small: "n < 200 \<Longrightarrow> fst (Atoi (Itoa (int n))) = int n"
  by (simp add: ParseInt_Itoa)

lemma dcu_shape_update:
  assumes "dcu_shape p" and "length ms = 16" and "length vs = 200" and "length ps = 20" and "d < 16"
  shows "dcu_shape (p\<lparr>dp_coremask := ms, dp_vidx := vs, dp_pipeid := (dp_pipeid p)[d := ps]\<rparr>)"
  using assms by (auto simp: dcu_shape_def nth_list_update)

lemma mark_vdev_ok:
  assumes "dcu_shape p" and "masks_ok p" and "vdev_entry p name d m"
  shows "\<exists>p'. mark_vdev name p = Inr p' \<and> masks_grow p p' \<and> covers (dp_coremask p' ! d) m"
proof -
  obtain uid ctr pid v where name: "name = vdev_name uid ctr (int d) (int pid) (int v) m"
    and us: "CHR ''_'' \<notin> set uid" "CHR ''_'' \<notin> set ctr" and d: "d < 16" and pid: "pid < 20" and v: "v < 200"
    and m: "mask_ok m" "length m = nat (go_div (dp_totalcores p ! d) 4)"
    using assms(3) by (auto simp: vdev_entry_def)
  note shape = assms(1) [unfolded dcu_shape_def]
  have old: "mask_ok (dp_coremask p ! d)" "length m = length (dp_coremask p ! d)"
    using assms(2) d m(2) by (auto simp: masks_ok_def)
  then obtain s where s: "addCoreUsage (dp_coremask p ! d) m = Inr s"
    using addCoreUsage_bits [OF old(1) m(1)] by auto
  note sc = addCoreUsage_covers [OF old(1) m(1) old(2) s]
  let ?p = "p\<lparr>dp_coremask := (dp_coremask p)[d := s], dp_vidx := (dp_vidx p)[v := True],
      dp_pipeid := (dp_pipeid p)[d := (dp_pipeid p ! d)[pid := True]]\<rparr>"
  have "mark_vdev name p = Inr ?p"
    using shape d pid v s Split_vdev_name [OF us m(1)]
    by (simp add: mark_vdev_def name Atoi_small slice_in_range)
  moreover have "dcu_shape ?p" using shape d by (intro dcu_shape_update [OF assms(1)]) auto
  moreover have "masks_ok ?p"
    using assms(2) sc(1,2) shape d by (auto simp: masks_ok_def nth_list_update)
  ultimately show ?thesis
    using sc(3,4) shape d by (auto simp: masks_grow_def nth_list_update)
qed

lemma mark_vdev_times:
  assumes "dcu_shape p" and "masks_ok p" and "vdev_entry p name d m" and "hits \<noteq> []"
  shows "\<exists>p'. fold (\<lambda>_ r. bind_result r (mark_vdev name)) hits (Inr p) = Inr p' \<and> masks_grow p p' \<and> covers (dp_coremask p' ! d) m"
  using assms
proof (induction hits arbitrary: p)
  case (Cons h hits)
  obtain q where q: "mark_vdev name p = Inr q" "masks_grow p q" "covers (dp_coremask q ! d) m"
    using mark_vdev_ok [OF Cons.prems(1-3)] by blast
  have e: "vdev_entry q name d m" using Cons.prems(3) vdev_entry_cong masks_growD(3) [OF q(2)] by metis
  show ?case
  proof (cases "hits = []")
    case False
    show ?thesis
      using Cons.IH [OF masks_growD(1,2) [OF q(2)] e False] q(1) masks_grow_trans [OF q(2)] by auto
  qed (use q in auto)
qed simp

lemma release_vdev_ok:
  assumes "dcu_shape p" and "masks_ok p" and "vdev_entry p name d m"
  shows "\<exists>p'. release_vdev name p = Inr p' \<and> masks_grow p p'"
proof -
  obtain uid ctr pid v where name: "name = vdev_name uid ctr (int d) (int pid) (int v) m"
    and us: "CHR ''_'' \<notin> set uid" "CHR ''_'' \<notin> set ctr" and r: "d < 16" "pid < 20" "v < 200" and m: "mask_ok m"
    using assms(3) by (auto simp: vdev_entry_def)
  note shape = assms(1) [unfolded dcu_shape_def]
  let ?p = "p\<lparr>dp_vidx := (dp_vidx p)[v := False], dp_pipeid := (dp_pipeid p)[d := (dp_pipeid p ! d)[pid := False]]\<rparr>"
  have "release_vdev name p = Inr ?p"
    using shape r Split_vdev_name [OF us m] by (simp add: release_vdev_def name Atoi_small slice_in_range)
  moreover have "masks_grow p ?p"
    using assms(2) shape r by (auto simp: masks_grow_def dcu_shape_def masks_ok_def nth_list_update)
  ultimately show ?thesis by blast
qed

text \<open>One entry, whether its pod exists or not.\<close>

lemma refresh_entry_ok:
  assumes "dcu_shape p" and "masks_ok p" and "vdev_entry p name d m"
  shows "\<exists>p'. (if hits \<noteq> [] then fold (\<lambda>_ r. bind_result r (mark_vdev name)) hits (Inr p) else release_vdev name p) = Inr p'
     \<and> masks_grow p p' \<and> (hits \<noteq> [] \<longrightarrow> covers (dp_coremask p' ! d) m)"
proof (cases "hits = []")
  case True
  then show ?thesis using release_vdev_ok [OF assms] by auto
next
  case False
  then show ?thesis using mark_vdev_times [OF assms False] by auto
qed

lemma vdev_entry_unique:
  assumes "vdev_entry p name d m" and "vdev_entry p name d' m'"
  shows "d' = d \<and> m' = m"
  using assms by (auto simp: vdev_entry_def dest!: arg_cong [where f = "Split CHR ''_''"] simp: Split_vdev_name)

lemma refresh_files_ok:
  assumes "dcu_shape (dw_plugin w)" and "masks_ok (dw_plugin w)"
    and "\<forall>f\<in>set files. \<exists>d m. vdev_entry (dw_plugin w) f d m" and "\<forall>f\<in>set files. list_pods f = Inr pods"
  shows "\<exists>w'. refresh_files fs list_pods files w = (Inr (), w') \<and> masks_grow (dw_plugin w) (dw_plugin w')
     \<and> (\<forall>f\<in>set files. matching_pods f pods \<noteq> [] \<longrightarrow>
          (\<forall>d m. vdev_entry (dw_plugin w) f d m \<longrightarrow> covers (dp_coremask (dw_plugin w') ! d) m))"
  using assms
proof (induction files arbitrary: w)
  case Nil
  then show ?case by (auto simp: masks_grow_def)
next
  case (Cons f files)
  obtain d m where e: "vdev_entry (dw_plugin w) f d m" using Cons.prems(3) by auto
  obtain p where p: "(if matching_pods f pods \<noteq> []
        then fold (\<lambda>_ r. bind_result r (mark_vdev f)) (matching_pods f pods) (Inr (dw_plugin w))
        else release_vdev f (dw_plugin w)) = Inr p"
    and g: "masks_grow (dw_plugin w) p" and c: "matching_pods f pods \<noteq> [] \<longrightarrow> covers (dp_coremask p ! d) m"
    using refresh_entry_ok [OF Cons.prems(1,2) e, of "matching_pods f pods"] by blast
  let ?w = "w\<lparr>dw_plugin := p, dw_dirs := (if matching_pods f pods = [] \<and> fs_RemoveAll fs f
      then mdel (dw_dirs w) f else dw_dirs w)\<rparr>"
  have same: "vdev_entry p = vdev_entry (dw_plugin w)" using masks_growD(3) [OF g] vdev_entry_cong by metis
  have "\<exists>w'. refresh_files fs list_pods files ?w = (Inr (), w') \<and> masks_grow p (dw_plugin w')
     \<and> (\<forall>f\<in>set files. matching_pods f pods \<noteq> [] \<longrightarrow>
          (\<forall>d m. vdev_entry p f d m \<longrightarrow> covers (dp_coremask (dw_plugin w') ! d) m))"
    using Cons.IH [of ?w] masks_growD(1,2) [OF g] same Cons.prems(3,4) by simp
  then obtain w' where w': "refresh_files fs list_pods files ?w = (Inr (), w')" "masks_grow p (dw_plugin w')"
    and rest: "\<forall>f\<in>set files. matching_pods f pods \<noteq> [] \<longrightarrow>
          (\<forall>d m. vdev_entry p f d m \<longrightarrow> covers (dp_coremask (dw_plugin w') ! d) m)" by blast
  have run: "refresh_files fs list_pods (f # files) w = (Inr (), w')"
    using p w'(1) Cons.prems(4) by (simp add: Let_def)
  have d16: "d < 16" using e by (auto simp: vdev_entry_def)
  have "matching_pods f pods \<noteq> [] \<longrightarrow>
      (\<forall>d' m'. vdev_entry (dw_plugin w) f d' m' \<longrightarrow> covers (dp_coremask (dw_plugin w') ! d') m')"
    using c masks_growD(4) [OF w'(2) d16] vdev_entry_unique [OF e] by blast
  then show ?case using run masks_grow_trans [OF g w'(2)] rest same by auto
qed

text \<open>After a refresh the mask of every card covers the cores of every container that still exists.\<close>

lemma RefreshContainerDevices_ok:
  assumes "dcu_shape (dw_plugin w)" and "fs_ReadDir fs (map fst (dw_dirs w)) = Inr files"
    and "\<forall>f\<in>set files. \<exists>d m. vdev_entry (dw_plugin w) f d m" and "\<forall>f\<in>set files. list_pods f = Inr pods"
  shows "\<exists>w'. RefreshContainerDevices fs list_pods w = (Inr (), w') \<and> dcu_shape (dw_plugin w') \<and> masks_ok (dw_plugin w')
     \<and> dp_totalcores (dw_plugin w') = dp_totalcores (dw_plugin w)
     \<and> (\<forall>f\<in>set files. matching_pods f pods \<noteq> [] \<longrightarrow>
          (\<forall>d m. vdev_entry (dw_plugin w) f d m \<longrightarrow> covers (dp_coremask (dw_plugin w') ! d) m))"
proof -
  let ?p = "dw_plugin w" and ?q = "(dw_plugin w)\<lparr>dp_coremask := map initCoreUsage (dp_totalcores (dw_plugin w))\<rparr>"
  note shape = assms(1) [unfolded dcu_shape_def]
  have q: "dcu_shape ?q" "masks_ok ?q" using shape by (simp_all add: dcu_shape_def masks_ok_def initCoreUsage_ok)
  have e: "vdev_entry ?q = vdev_entry ?p" by (rule vdev_entry_cong) simp
  have run: "RefreshContainerDevices fs list_pods w = refresh_files fs list_pods files (w\<lparr>dw_plugin := ?q\<rparr>)"
    using shape assms(2) by (simp add: RefreshContainerDevices_def Let_def)
  show ?thesis
    unfolding run using refresh_files_ok [of "w\<lparr>dw_plugin := ?q\<rparr>" files list_pods pods fs] q e assms(3,4)
    by (auto simp: masks_grow_def)
qed

section \<open>Properties of the plugin\<close>

lemma first_unused_Some:
  "False \<in> set bs \<Longrightarrow> \<exists>i<length bs. first_unused bs = Some i \<and> \<not> bs ! i"
  by (induction bs) auto

lemma first_unused_SomeD: "first_unused bs = Some i \<Longrightarrow> False \<in> set bs"
  by (induction bs arbitrary: i) (auto split: if_splits)

lemma card_index: "d < 16 \<Longrightarrow> getIndexFromUUID (''DCU-'' @ Itoa (int d)) = Inr (int d)"
  by (simp add: getIndexFromUUID_def ParseInt_Itoa)

lemma prepare_vdev_ok:
  assumes "dcu_shape p" and "d < 16" and "cd_UUID val = ''DCU-'' @ Itoa (int d)"
    and "False \<in> set (dp_vidx p)" and "False \<in> set (dp_pipeid p ! d)"
  shows "\<exists>s pid p'. prepare_vdev val p =
         (Inr (s, int d, int pid, allocCoreUsage (dp_coremask p ! d) (required_cores val (dp_totalcores p ! d))), p')
     \<and> pid < 20 \<and> \<not> dp_pipeid p ! d ! pid \<and> dcu_shape p' \<and> dp_coremask p' = dp_coremask p \<and> dp_totalcores p' = dp_totalcores p
     \<and> dp_pipeid p' = (dp_pipeid p)[d := (dp_pipeid p ! d)[pid := True]]"
proof -
  note shape = assms(1) [unfolded dcu_shape_def]
  obtain v where v: "v < 200" "first_unused (dp_vidx p) = Some v"
    using first_unused_Some [OF assms(4)] shape by auto
  obtain pid where pid: "pid < 20" "first_unused (dp_pipeid p ! d) = Some pid" "\<not> dp_pipeid p ! d ! pid"
    using first_unused_Some [OF assms(5)] shape assms(2) by auto
  let ?p = "p\<lparr>dp_vidx := (dp_vidx p)[v := True], dp_pipeid := (dp_pipeid p)[d := (dp_pipeid p ! d)[pid := True]]\<rparr>"
  have "dcu_shape ?p" using shape assms(2) by (auto simp: dcu_shape_def nth_list_update)
  then show ?thesis
    using shape assms(2,3) v pid card_index [OF assms(2)]
    by (intro exI [of _ _] exI [of _ pid] exI [of _ ?p])
      (simp add: prepare_vdev_def slice_in_range AllocateVidx_def AllocatePipeID_def Let_def)
qed

lemma createvdevFile_ok:
  assumes "dcu_shape (dw_plugin w)" and "d < 16" and "cd_UUID val = ''DCU-'' @ Itoa (int d)"
    and "False \<in> set (dp_vidx (dw_plugin w))" and "False \<in> set (dp_pipeid (dw_plugin w) ! d)"
    and "\<And>s. fs_MkdirAll fs s = Inr ()" and "\<And>s. fs_Chmod fs s = Inr ()"
  shows "\<exists>pid w'. createvdevFile fs uid ctr [val] w = (Inr (vdev_root @ vdev_name uid ctr (int d) (int pid) 0
         (allocCoreUsage (dp_coremask (dw_plugin w) ! d) (required_cores val (dp_totalcores (dw_plugin w) ! d)))), w')
     \<and> pid < 20 \<and> \<not> dp_pipeid (dw_plugin w) ! d ! pid \<and> dp_coremask (dw_plugin w') = dp_coremask (dw_plugin w)
     \<and> dp_totalcores (dw_plugin w') = dp_totalcores (dw_plugin w) \<and> dcu_shape (dw_plugin w')
     \<and> dp_pipeid (dw_plugin w') = (dp_pipeid (dw_plugin w))[d := (dp_pipeid (dw_plugin w) ! d)[pid := True]]"
proof -
  obtain s pid p' where p: "prepare_vdev val (dw_plugin w) = (Inr (s, int d, int pid,
        allocCoreUsage (dp_coremask (dw_plugin w) ! d) (required_cores val (dp_totalcores (dw_plugin w) ! d))), p')"
    and q: "pid < 20" "\<not> dp_pipeid (dw_plugin w) ! d ! pid" "dcu_shape p'" "dp_coremask p' = dp_coremask (dw_plugin w)"
      "dp_totalcores p' = dp_totalcores (dw_plugin w)"
      "dp_pipeid p' = (dp_pipeid (dw_plugin w))[d := (dp_pipeid (dw_plugin w) ! d)[pid := True]]"
    using prepare_vdev_ok [OF assms(1-5)] by blast
  show ?thesis
    using p q assms(3,6,7) by (intro exI [of _ pid]) (auto simp: createvdevFile_def Let_def)
qed

lemma createvdevFile_free:
  assumes "dcu_shape (dw_plugin w)" and "d < 16" and "cd_UUID val = ''DCU-'' @ Itoa (int d)"
    and "createvdevFile fs uid ctr [val] w = (Inr dir, w')"
  shows "False \<in> set (dp_vidx (dw_plugin w))" and "False \<in> set (dp_pipeid (dw_plugin w) ! d)"
proof -
  note shape = assms(1) [unfolded dcu_shape_def]
  have "\<exists>x p'. prepare_vdev val (dw_plugin w) = (Inr x, p')"
    using assms(3,4) by (auto simp: createvdevFile_def split: prod.splits sum.splits)
  then have "\<exists>v pid. first_unused (dp_vidx (dw_plugin w)) = Some v \<and> first_unused (dp_pipeid (dw_plugin w) ! d) = Some pid"
    using shape assms(2,3) card_index [OF assms(2)]
    by (auto simp: prepare_vdev_def slice_in_range AllocateVidx_def AllocatePipeID_def Let_def split: option.splits)
  then show "False \<in> set (dp_vidx (dw_plugin w))" and "False \<in> set (dp_pipeid (dw_plugin w) ! d)"
    using first_unused_SomeD by blast+
qed

text \<open>C29: after a refresh the plugin hands out only free cores: for every container that still exists and
  whose directory holds cores of the card, the cores of a new container on that card are disjoint from
  them, and the new container gets as many as it asked for or as are left.\<close>
theorem vdev_cores_disjoint_after_refresh:
  assumes "dcu_shape (dw_plugin w)" and "fs_ReadDir fs (map fst (dw_dirs w)) = Inr files"
    and "\<forall>f\<in>set files. \<exists>d m. vdev_entry (dw_plugin w) f d m" and "\<forall>f\<in>set files. list_pods f = Inr pods"
    and "RefreshContainerDevices fs list_pods w = (r, w1)"
    and "d < 16" and "cd_UUID val = ''DCU-'' @ Itoa (int d)" and "\<And>s. fs_MkdirAll fs s = Inr ()" and "\<And>s. fs_Chmod fs s = Inr ()"
    and "False \<in> set (dp_vidx (dw_plugin w1))" and "False \<in> set (dp_pipeid (dw_plugin w1) ! d)"
  shows "r = Inr () \<and> (\<exists>pid m' w2. createvdevFile fs uid ctr [val] w1 = (Inr (vdev_root @ vdev_name uid ctr (int d) (int pid) 0 m'), w2)
     \<and> (\<forall>f\<in>set files. \<forall>m. matching_pods f pods \<noteq> [] \<longrightarrow> vdev_entry (dw_plugin w) f d m \<longrightarrow> \<not> share_cores m m')
     \<and> cores m' = min (nat (required_cores val (dp_totalcores (dw_plugin w) ! d)))
         (length (filter Not (mask_bits (dp_coremask (dw_plugin w1) ! d)))))"
proof -
  let ?p = "dw_plugin w" and ?q = "dw_plugin w1"
  have r: "r = Inr ()" "dcu_shape ?q" "masks_ok ?q" "dp_totalcores ?q = dp_totalcores ?p"
    and c: "\<forall>f\<in>set files. matching_pods f pods \<noteq> [] \<longrightarrow> (\<forall>d m. vdev_entry ?p f d m \<longrightarrow> covers (dp_coremask ?q ! d) m)"
    using RefreshContainerDevices_ok [OF assms(1-4)] assms(5) by auto
  let ?m = "allocCoreUsage (dp_coremask ?q ! d) (required_cores val (dp_totalcores ?p ! d))"
  obtain pid w2 where v: "createvdevFile fs uid ctr [val] w1 = (Inr (vdev_root @ vdev_name uid ctr (int d) (int pid) 0 ?m), w2)"
    using createvdevFile_ok [OF r(2) assms(6,7,10,11,8,9), of uid ctr] r(4) by auto
  have ok: "mask_ok (dp_coremask ?q ! d)" using r(3) assms(6) by (simp add: masks_ok_def)
  have "\<forall>f\<in>set files. \<forall>m. matching_pods f pods \<noteq> [] \<longrightarrow> vdev_entry ?p f d m \<longrightarrow> \<not> share_cores m ?m"
    using c allocCoreUsage_cores(1) [OF ok] by blast
  then show ?thesis
    using r(1) v allocCoreUsage_cores(2) [OF ok covers_refl] by blast
qed

definition example_fs :: dcu_fs where
  "example_fs = \<lparr>fs_ReadDir = Inr, fs_MkdirAll = (\<lambda>_. Inr ()), fs_Chmod = (\<lambda>_. Inr ()),
     fs_WriteFile = (\<lambda>_. True), fs_RemoveAll = (\<lambda>_. True)\<rparr>"

text \<open>Cards with eight compute units; a container of pod \<open>u1\<close> holds four of the first card.\<close>

definition example_dcu :: dcu_world where
  "example_dcu = \<lparr>dw_plugin = \<lparr>dp_AMDGPUs = [], dp_pcibusid = replicate 16 ''b'', dp_totalcores = replicate 16 8,
     dp_totalmem = replicate 16 16384, dp_vidx = replicate 200 False, dp_pipeid = replicate 16 (replicate 20 False),
     dp_coremask = replicate 16 ''00'', dp_cardtype = replicate 16 ''DCU-Z100'', dp_count = 32\<rparr>,
     dw_dirs = [(vdev_name ''u1'' ''c'' 0 0 0 ''f0'', [])]\<rparr>"

definition example_dcu_device :: container_device where
  "example_dcu_device = \<lparr>cd_Idx = 0, cd_UUID = ''DCU-0'', cd_Type = ''DCU'', cd_Usedmem = 1024, cd_Usedcores = 25\<rparr>"

lemma example_dcu_shape: "dcu_shape (dw_plugin example_dcu)"
  by (simp add: dcu_shape_def example_dcu_def)

lemma example_dcu_card: "cd_UUID example_dcu_device = ''DCU-'' @ Itoa (int 0)"
  by code_simp

lemma example_dcu_entry: "vdev_entry (dw_plugin example_dcu) (vdev_name ''u1'' ''c'' 0 0 0 ''f0'') 0 ''f0''"
proof -
  have "hex_char 15 = CHR ''f''" and "hex_char 0 = CHR ''0''" by code_simp+
  then have "mask_ok ''f0''" using is_hex_hex_char [of 15] is_hex_hex_char [of 0] by simp
  then show ?thesis
    unfolding vdev_entry_def
    by (intro exI [of _ "''u1''"] exI [of _ "''c''"] exI [of _ 0]) (simp add: example_dcu_def go_div_def signed_divide_int_def)
qed

theorem vdev_cores_disjoint_after_refresh_witness:
  "\<exists>r w1. RefreshContainerDevices example_fs (\<lambda>_. Inr [example_pod\<lparr>pod_UID := ''u1''\<rparr>]) example_dcu = (r, w1) \<and> r = Inr ()
     \<and> (\<exists>pid m' w2. createvdevFile example_fs ''u2'' ''c'' [example_dcu_device] w1
           = (Inr (vdev_root @ vdev_name ''u2'' ''c'' (int 0) (int pid) 0 m'), w2) \<and> \<not> share_cores ''f0'' m')"
proof -
  let ?lp = "\<lambda>_::string. Inr [example_pod\<lparr>pod_UID := ''u1''\<rparr>] :: pod list result"
  let ?name = "vdev_name ''u1'' ''c'' 0 0 0 ''f0''"
  obtain r w1 where run: "RefreshContainerDevices example_fs ?lp example_dcu = (r, w1)" by fastforce
  have "case RefreshContainerDevices example_fs ?lp example_dcu of (r, w1) \<Rightarrow>
      False \<in> set (dp_vidx (dw_plugin w1)) \<and> False \<in> set (dp_pipeid (dw_plugin w1) ! 0)" by code_simp
  then have free: "False \<in> set (dp_vidx (dw_plugin w1))" "False \<in> set (dp_pipeid (dw_plugin w1) ! 0)"
    using run by auto
  have files: "fs_ReadDir example_fs (map fst (dw_dirs example_dcu)) = Inr [?name]"
    by (simp add: example_fs_def example_dcu_def)
  have entry: "\<forall>f\<in>set [?name]. \<exists>d m. vdev_entry (dw_plugin example_dcu) f d m"
    using example_dcu_entry by auto
  have hit: "matching_pods ?name [example_pod\<lparr>pod_UID := ''u1''\<rparr>] \<noteq> []" by code_simp
  have ok: "\<And>s. fs_MkdirAll example_fs s = Inr ()" "\<And>s. fs_Chmod example_fs s = Inr ()" by (simp_all add: example_fs_def)
  show ?thesis
    using vdev_cores_disjoint_after_refresh [of example_dcu example_fs "[?name]" ?lp "[example_pod\<lparr>pod_UID := ''u1''\<rparr>]" r w1 0
        example_dcu_device "''u2''" "''c''", OF example_dcu_shape files entry _ run _ example_dcu_card ok free]
      run hit example_dcu_entry by (simp, blast)
qed

text \<open>Between two refreshes the plugin gives the same cores to several containers: two containers
  started one after the other on a card, with the same share of its cores, get the same mask, because
  an allocation does not enter its mask into the table.  Their pipes differ, and the directory of each
  names the virtual device 0.\<close>
lemma vdev_cores_shared_before_refresh:
  assumes "dcu_shape (dw_plugin w)" and "d < 16" and "cd_UUID val1 = ''DCU-'' @ Itoa (int d)" and "cd_UUID val2 = ''DCU-'' @ Itoa (int d)"
    and "cd_Usedcores val1 = cd_Usedcores val2" and "\<And>s. fs_MkdirAll fs s = Inr ()" and "\<And>s. fs_Chmod fs s = Inr ()"
    and "createvdevFile fs uid1 ctr1 [val1] w = (Inr dir1, w1)" and "createvdevFile fs uid2 ctr2 [val2] w1 = (Inr dir2, w2)"
  shows "\<exists>pid1 pid2 m. dir1 = vdev_root @ vdev_name uid1 ctr1 (int d) (int pid1) 0 m
     \<and> dir2 = vdev_root @ vdev_name uid2 ctr2 (int d) (int pid2) 0 m \<and> pid1 \<noteq> pid2"
proof -
  let ?p = "dw_plugin w" and ?q = "dw_plugin w1"
  note f1 = createvdevFile_free [OF assms(1-3,8)]
  obtain pid1 w1' where v1: "createvdevFile fs uid1 ctr1 [val1] w = (Inr (vdev_root @ vdev_name uid1 ctr1 (int d) (int pid1) 0
        (allocCoreUsage (dp_coremask ?p ! d) (required_cores val1 (dp_totalcores ?p ! d)))), w1')"
    and q: "\<not> dp_pipeid ?p ! d ! pid1" "dp_coremask (dw_plugin w1') = dp_coremask ?p" "dp_totalcores (dw_plugin w1') = dp_totalcores ?p"
      "dcu_shape (dw_plugin w1')" "dp_pipeid (dw_plugin w1') = (dp_pipeid ?p)[d := (dp_pipeid ?p ! d)[pid1 := True]]" "pid1 < 20"
    using createvdevFile_ok [OF assms(1-3) f1 assms(6,7)] by blast
  have w1: "w1' = w1" using v1 assms(8) by simp
  note f2 = createvdevFile_free [OF q(4) [unfolded w1] assms(2,4,9)]
  obtain pid2 where v2: "createvdevFile fs uid2 ctr2 [val2] w1 = (Inr (vdev_root @ vdev_name uid2 ctr2 (int d) (int pid2) 0
        (allocCoreUsage (dp_coremask ?q ! d) (required_cores val2 (dp_totalcores ?q ! d)))), w2)" "\<not> dp_pipeid ?q ! d ! pid2"
    using createvdevFile_ok [OF q(4) [unfolded w1] assms(2,4) f2 assms(6,7), of uid2 ctr2] assms(9) by auto
  have "required_cores val2 = required_cores val1" using assms(5) by (intro ext) (simp add: required_cores_def)
  moreover have "pid1 \<noteq> pid2"
    using v2(2) q(1,5,6) w1 assms(1,2) by (auto simp: dcu_shape_def nth_list_update)
  ultimately show ?thesis using v1 v2(1) assms(8,9) q(2,3) w1 by auto
qed

lemma vdev_cores_shared_before_refresh_example:
  "\<exists>dir1 w1 dir2 w2 pid1 pid2 m. createvdevFile example_fs ''u2'' ''c'' [example_dcu_device] example_dcu = (Inr dir1, w1)
     \<and> createvdevFile example_fs ''u3'' ''c'' [example_dcu_device] w1 = (Inr dir2, w2)
     \<and> dir1 = vdev_root @ vdev_name ''u2'' ''c'' (int 0) (int pid1) 0 m
     \<and> dir2 = vdev_root @ vdev_name ''u3'' ''c'' (int 0) (int pid2) 0 m \<and> pid1 \<noteq> pid2"
proof -
  have ok: "\<And>s. fs_MkdirAll example_fs s = Inr ()" "\<And>s. fs_Chmod example_fs s = Inr ()" by (simp_all add: example_fs_def)
  have free: "False \<in> set (dp_vidx (dw_plugin example_dcu))" "False \<in> set (dp_pipeid (dw_plugin example_dcu) ! 0)"
    by (simp_all add: example_dcu_def)
  obtain dir1 w1 where c1: "createvdevFile example_fs ''u2'' ''c'' [example_dcu_device] example_dcu = (Inr dir1, w1)"
    using createvdevFile_ok [OF example_dcu_shape _ example_dcu_card free ok] by fastforce
  have "case createvdevFile example_fs ''u2'' ''c'' [example_dcu_device] example_dcu of (_, w1) \<Rightarrow>
      (case createvdevFile example_fs ''u3'' ''c'' [example_dcu_device] w1 of (r, _) \<Rightarrow> isl r = False)" by code_simp
  then obtain dir2 w2 where c2: "createvdevFile example_fs ''u3'' ''c'' [example_dcu_device] w1 = (Inr dir2, w2)"
    using c1 by (cases "fst (createvdevFile example_fs ''u3'' ''c'' [example_dcu_device] w1)") (auto split: prod.splits)
  show ?thesis
    using vdev_cores_shared_before_refresh [of example_dcu 0 example_dcu_device example_dcu_device example_fs
        "''u2''" "''c''" dir1 w1 "''u3''" "''c''" dir2 w2, OF example_dcu_shape _ example_dcu_card example_dcu_card refl ok c1 c2]
      c1 c2 by auto
qed

lemma dcu_Allocate_never_succeeds:
  assumes "reqs \<noteq> []"
  shows "\<exists>e. fst (dcu_Allocate fs hygonpath api_patch InRequestDevices get_ok podlist nodename reqs s) = Inl e"
proof -
  have "HygonDCUDevice \<notin> fst ` set InRequestDevices" by (simp add: InRequestDevices_def device_names)
  then have none: "GetNextDeviceRequest InRequestDevices HygonDCUDevice p = Inl (Errorf ''device request not found'')" for p
    by (rule GetNextDeviceRequest_unlisted)
  obtain ids reqs' where "reqs = ids # reqs'" using assms by (cases reqs) auto
  then show ?thesis
    using none by (cases s; cases "GetPendingPod podlist nodename") (auto simp: dcu_Allocate_def dcu_allocate_one_def)
qed

end
