(* ===== verification/Dcu_Hardware.thy ===== *)
theory Dcu_Hardware
  imports Dcu_Plugin Go_Scan
begin

text \<open>
  What the Hygon plugin asks of the hardware (\<open>amdgpu/amdgpu.go\<close>, \<open>hwloc/hwloc.go\<close>): opening a card, its family and
  firmware versions, files of the kernel that are read by lines, and NUMA nodes.  libdrm, hwloc and the
  file system are arguments.
\<close>

section \<open>Integers with a base in front\<close>

text \<open>\<open>strconv.ParseInt(s, 0, bits)\<close>: \<open>0x\<close>, \<open>0o\<close>, \<open>0b\<close> and a leading zero choose the base, and underscores may stand between digits.\<close>

definition lower_char :: "char \<Rightarrow> char" where
  "lower_char c = ToLower_char c"

definition split_base :: "string \<Rightarrow> nat \<times> string" where
  "split_base s =
     (if s \<noteq> [] \<and> hd s = CHR ''0'' then
        (if 3 \<le> length s \<and> lower_char (s ! 1) = CHR ''b'' then (2, drop 2 s)
         else if 3 \<le> length s \<and> lower_char (s ! 1) = CHR ''o'' then (8, drop 2 s)
         else if 3 \<le> length s \<and> lower_char (s ! 1) = CHR ''x'' then (16, drop 2 s)
         else (8, drop 1 s))
      else (10, s))"

definition digit_of :: "char \<Rightarrow> nat option" where
  "digit_of c =
     (let n = (of_char c :: nat)
      in if 48 \<le> n \<and> n \<le> 57 then Some (n - 48)
         else if 97 \<le> n \<and> n \<le> 122 then Some (n - 87)
         else if 65 \<le> n \<and> n \<le> 90 then Some (n - 55)
         else None)"

fun digits_value :: "nat \<Rightarrow> string \<Rightarrow> nat \<Rightarrow> nat option" where
  "digits_value base [] n = Some n"
| "digits_value base (c # cs) n =
     (if c = CHR ''_'' then digits_value base cs n
      else case digit_of c of
             None \<Rightarrow> None
           | Some d \<Rightarrow> if base \<le> d then None else digits_value base cs (n * base + d))"

text \<open>An underscore follows a digit or the base prefix and is followed by a digit.\<close>

fun underscores_ok :: "bool \<Rightarrow> string \<Rightarrow> bool" where
  "underscores_ok after_digit [] \<longleftrightarrow> True"
| "underscores_ok after_digit (c # cs) \<longleftrightarrow>
     (if c = CHR ''_'' then after_digit \<and> cs \<noteq> [] \<and> hd cs \<noteq> CHR ''_'' \<and> underscores_ok False cs else underscores_ok True cs)"

definition parse_uint0 :: "string \<Rightarrow> nat option" where
  "parse_uint0 s =
     (case split_base s of
        (base, digits) \<Rightarrow>
          if s = [] \<or> (CHR ''_'' \<in> set digits \<and> \<not> underscores_ok (base \<noteq> 10) digits) then None
          else digits_value base digits 0)"

definition ParseInt0 :: "nat \<Rightarrow> string \<Rightarrow> int \<times> bool" where
  "ParseInt0 bits s =
     (if s = [] then (0, False)
      else
        let neg = (hd s = CHR ''-''); body = (if hd s = CHR ''+'' \<or> hd s = CHR ''-'' then tl s else s);
            limit = (2::int) ^ (bits - 1)
        in case parse_uint0 body of
             None \<Rightarrow> (0, False)
           | Some un \<Rightarrow>
               if \<not> neg \<and> limit \<le> int un then (limit - 1, False)
               else if neg \<and> limit < int un then (- limit, False)
               else (if neg then - int un else int un, True))"

section \<open>Files of the kernel\<close>

text \<open>\<open>match\<close> is the expression, which yields its first group.\<close>

fun first_match :: "(string \<Rightarrow> string option) \<Rightarrow> string list \<Rightarrow> string option" where
  "first_match mt [] = None"
| "first_match mt (l # ls) = (case mt l of None \<Rightarrow> first_match mt ls | Some m \<Rightarrow> Some m)"

definition ParseTopologyProperties :: "(string \<Rightarrow> string option) \<Rightarrow> string result \<Rightarrow> int \<times> bool" where
  "ParseTopologyProperties re path =
     (case path of
        Inl _ \<Rightarrow> (0, False)
      | Inr contents \<Rightarrow>
          (case first_match re (scanner_lines MaxScanTokenSize contents) of
             None \<Rightarrow> (0, False)
           | Some m \<Rightarrow> ParseInt0 64 m))"

definition is_word_char :: "char \<Rightarrow> bool" where
  "is_word_char c \<longleftrightarrow> is_digit_char c \<or> c = CHR ''_'' \<or> (let n = (of_char c :: nat) in (65 \<le> n \<and> n \<le> 90) \<or> (97 \<le> n \<and> n \<le> 122))"

definition is_hex_digit :: "char \<Rightarrow> bool" where
  "is_hex_digit c \<longleftrightarrow> is_digit_char c \<or> (let n = (of_char c :: nat) in (65 \<le> n \<and> n \<le> 70) \<or> (97 \<le> n \<and> n \<le> 102))"

text \<open>
  The groups of \<open>(\w+) feature version: (\d+), firmware version: (0x[0-9a-fA-F]+)\<close> for a match at the head
  of a string.  Each repetition is followed by a character that it cannot contain, so it takes all it can.
\<close>

definition fw_match_here :: "string \<Rightarrow> (string \<times> string \<times> string) option" where
  "fw_match_here s =
     (let name = takeWhile is_word_char s; r1 = dropWhile is_word_char s
      in if name = [] \<or> \<not> prefix '' feature version: '' r1 then None
         else
           let r2 = drop 18 r1; feat = takeWhile is_digit_char r2; r3 = dropWhile is_digit_char r2
           in if feat = [] \<or> \<not> prefix '', firmware version: 0x'' r3 then None
              else
                let fw = takeWhile is_hex_digit (drop 22 r3)
                in if fw = [] then None else Some (name, feat, ''0x'' @ fw))"

fun fwVersionRe :: "string \<Rightarrow> (string \<times> string \<times> string) option" where
  "fwVersionRe [] = None"
| "fwVersionRe (c # cs) = (case fw_match_here (c # cs) of Some m \<Rightarrow> Some m | None \<Rightarrow> fwVersionRe cs)"

definition fw_line :: "string \<Rightarrow> (string \<rightharpoonup> nat) \<times> (string \<rightharpoonup> nat) \<Rightarrow> (string \<rightharpoonup> nat) \<times> (string \<rightharpoonup> nat)" where
  "fw_line line acc =
     (case fwVersionRe line of
        None \<Rightarrow> acc
      | Some (name, feat, fw) \<Rightarrow>
          ((fst acc)(name \<mapsto> nat (fst (ParseInt0 32 feat) mod 2 ^ 32)), (snd acc)(name \<mapsto> nat (fst (ParseInt0 32 fw) mod 2 ^ 32))))"

definition parseDebugFSFirmwareInfo :: "string result \<Rightarrow> (string \<rightharpoonup> nat) \<times> (string \<rightharpoonup> nat)" where
  "parseDebugFSFirmwareInfo path =
     (case path of
        Inl _ \<Rightarrow> (Map.empty, Map.empty)
      | Inr contents \<Rightarrow> fold fw_line (scanner_lines MaxScanTokenSize contents) (Map.empty, Map.empty))"

section \<open>libdrm\<close>

text \<open>
  \<open>dl_vendor\<close> is the vendor file of the card, \<open>dl_initialize\<close> the return code and handle of libdrm; a firmware
  query stores a version and a feature, or fails and stores nothing.  \<open>dl_family\<close> gives libdrm's constants.
\<close>

record 'h libdrm =
  dl_vendor :: "string \<Rightarrow> string result"
  dl_open :: "string \<Rightarrow> unit result"
  dl_initialize :: "string \<Rightarrow> int \<times> 'h"
  dl_gpu_info :: "'h \<Rightarrow> int \<times> nat"
  dl_firmware :: "'h \<Rightarrow> string \<Rightarrow> (nat \<times> nat) option"
  dl_family :: "string \<Rightarrow> nat"

definition openAMDGPU :: "'h libdrm \<Rightarrow> string \<Rightarrow> 'h result" where
  "openAMDGPU D cardName =
     (if \<not> AMDGPU (dl_vendor D cardName) then Inl (Errorf (cardName @ '' is not an AMD GPU''))
      else
        case dl_open D (''/dev/dri/'' @ cardName) of
          Inl e \<Rightarrow> Inl (Errorf (''Fail to open /dev/dri/'' @ cardName))
        | Inr _ \<Rightarrow>
            (case dl_initialize D (''/dev/dri/'' @ cardName) of
               (rc, devHandle) \<Rightarrow> if rc < 0 then Inl (Errorf (''Fail to initialize /dev/dri/'' @ cardName)) else Inr devHandle))"

definition DevFunctional :: "'h libdrm \<Rightarrow> string \<Rightarrow> bool" where
  "DevFunctional D cardName \<longleftrightarrow> \<not> isl (openAMDGPU D cardName)"

fun family_in :: "(string \<Rightarrow> nat) \<Rightarrow> string list \<Rightarrow> nat \<Rightarrow> string result" where
  "family_in family [] familyId = Inl (Errorf (''Unknown Family ID: '' @ nat_str familyId))"
| "family_in family (f # fs) familyId = (if familyId = family f then Inr f else family_in family fs familyId)"

definition FamilyIDtoString :: "'h libdrm \<Rightarrow> nat \<Rightarrow> string result" where
  "FamilyIDtoString D familyId = family_in (dl_family D) [''SI'', ''CI'', ''KV'', ''VI'', ''CZ'', ''AI'', ''RV'', ''NV''] familyId"

definition GetCardFamilyName :: "'h libdrm \<Rightarrow> string \<Rightarrow> string result" where
  "GetCardFamilyName D cardName =
     bind_result (openAMDGPU D cardName) (\<lambda>devHandle.
       case dl_gpu_info D devHandle of
         (rc, family_id) \<Rightarrow>
           if rc < 0 then Inl (Errorf (''Fail to get FamilyID '' @ cardName)) else FamilyIDtoString D family_id)"

definition firmware_blocks :: "(string \<times> string) list" where
  "firmware_blocks = [(''VCE'', ''VCE''), (''UVD'', ''UVD''), (''GMC'', ''MC''), (''GFX_ME'', ''ME''), (''GFX_PFP'', ''PFP''),
     (''GFX_CE'', ''CE''), (''GFX_RLC'', ''RLC''), (''GFX_MEC'', ''MEC''), (''SMC'', ''SMC''), (''SDMA'', ''SDMA0'')]"

text \<open>The return codes are not looked at: a query that fails leaves the variables as the one before left them.\<close>

fun query_blocks ::
  "('b \<Rightarrow> (nat \<times> nat) option) \<Rightarrow> ('b \<times> string) list \<Rightarrow> nat \<times> nat \<Rightarrow> (string \<rightharpoonup> nat) \<times> (string \<rightharpoonup> nat) \<Rightarrow>
   (string \<rightharpoonup> nat) \<times> (string \<rightharpoonup> nat)" where
  "query_blocks query [] vars acc = acc"
| "query_blocks query ((block, name) # blocks) vars acc =
     (let (ver, feat) = (case query block of None \<Rightarrow> vars | Some vf \<Rightarrow> vf)
      in query_blocks query blocks (ver, feat) ((fst acc)(name \<mapsto> feat), (snd acc)(name \<mapsto> ver)))"

definition GetFirmwareVersions :: "'h libdrm \<Rightarrow> string \<Rightarrow> ((string \<rightharpoonup> nat) \<times> (string \<rightharpoonup> nat)) \<times> unit result" where
  "GetFirmwareVersions D cardName =
     (case openAMDGPU D cardName of
        Inl e \<Rightarrow> ((Map.empty, Map.empty), Inl e)
      | Inr devHandle \<Rightarrow> (query_blocks (dl_firmware D devHandle) firmware_blocks (0, 0) (Map.empty, Map.empty), Inr ()))"

section \<open>hwloc\<close>

text \<open>
  The topology is initialised and destroyed; \<open>hl_gpu\<close> finds a card by its bus, \<open>hl_ancestor\<close> the object it hangs
  from with its arity and the indices of its memory children.
\<close>

record 'o hwloc =
  hl_init :: int
  hl_filter :: int
  hl_load :: int
  hl_gpu :: "string \<Rightarrow> 'o option"
  hl_ancestor :: "'o \<Rightarrow> (int \<times> nat list) option"

text \<open>\<open>Init\<close> returns whether a topology is left to be destroyed.\<close>

definition hw_Init :: "'o hwloc \<Rightarrow> unit result \<times> bool" where
  "hw_Init H =
     (if hl_init H \<noteq> 0 then (Inl (Errorf ''Problem initializing hwloc topology''), False)
      else if hl_filter H \<noteq> 0 then (Inl (Errorf ''Problem setting type filter''), False)
      else if hl_load H \<noteq> 0 then (Inl (Errorf ''Problem loading topology''), False)
      else (Inr (), True))"

definition GetNUMANodes :: "'o hwloc \<Rightarrow> string \<Rightarrow> nat list result" where
  "GetNUMANodes H busid =
     (case hl_gpu H busid of
        None \<Rightarrow> Inl (Errorf (''Fail to find GPU with bus ID: '' @ busid))
      | Some gpu \<Rightarrow>
          (case hl_ancestor H gpu of
             None \<Rightarrow> Inl (Errorf (''No NUMA node found with bus ID: '' @ busid))
           | Some (memory_arity, children) \<Rightarrow>
               if memory_arity \<le> 0 then Inl (Errorf (''No NUMA node found with bus ID: '' @ busid)) else Inr children))"

text \<open>The cards with their NUMA nodes, as \<open>ListAndWatch\<close> notes them in the list that it does not send.\<close>

definition numa_topology :: "'o hwloc \<Rightarrow> string \<Rightarrow> nat list option" where
  "numa_topology H busid = (case GetNUMANodes H busid of Inl _ \<Rightarrow> None | Inr numas \<Rightarrow> if numas = [] then None else Some numas)"

definition dcu_watched :: "'o hwloc \<Rightarrow> (string, (string, int) gomap) gomap \<Rightarrow> (string \<times> string \<times> nat list option) list" where
  "dcu_watched H gpus = map (\<lambda>(busid, _). (busid, ''Healthy'', numa_topology H busid)) gpus"

definition simpleHealthCheck :: "unit result \<Rightarrow> bool" where
  "simpleHealthCheck kfd = (\<not> isl kfd)"

section \<open>The lister of the process\<close>

text \<open>
  \<open>cmd/device-plugin/hygon/main.go\<close>: the plugin manager asks the lister for the resources of the node.  The
  lister forwards every list it is given until it is told to stop; the process gives it one list, when the driver
  is present.
\<close>

definition GetResourceNamespace :: string where
  "GetResourceNamespace = ''hygon.com''"

datatype lister_message = ResUpdate "string list" | StopMessage

fun Discover :: "lister_message list \<Rightarrow> string list list" where
  "Discover [] = []"
| "Discover (ResUpdate names # ms) = names # Discover ms"
| "Discover (StopMessage # ms) = []"

definition hygon_updates :: "unit result \<Rightarrow> lister_message list" where
  "hygon_updates kfd = (if isl kfd then [] else [ResUpdate [''dcunum'']])"

section \<open>Reading back what the kernel prints\<close>

fun hex_pad :: "nat \<Rightarrow> nat \<Rightarrow> string" where
  "hex_pad 0 n = []"
| "hex_pad (Suc k) n = hex_pad k (n div 16) @ [hex_char (n mod 16)]"

lemma digits_value_append:
  "digits_value b (xs @ ys) n = Option.bind (digits_value b xs n) (digits_value b ys)"
  by (induction xs arbitrary: n) (auto split: option.splits)

lemma hex_digit_plain: "is_hex_digit c \<Longrightarrow> c \<noteq> CHR ''_''"
  by (auto simp: is_hex_digit_def is_digit_char_def)

lemma digit_of_hex: "d < 16 \<Longrightarrow> digit_of (hex_char d) = Some d" "d < 16 \<Longrightarrow> is_hex_digit (hex_char d)" "d < 16 \<Longrightarrow> hex_char d \<noteq> CHR ''_''"
proof -
  show "d < 16 \<Longrightarrow> digit_of (hex_char d) = Some d" by (auto simp: digit_of_def hex_char_def Let_def)
  show hex: "d < 16 \<Longrightarrow> is_hex_digit (hex_char d)" by (auto simp: hex_char_def is_hex_digit_def is_digit_char_def Let_def)
  show "d < 16 \<Longrightarrow> hex_char d \<noteq> CHR ''_''" by (rule hex_digit_plain [OF hex])
qed

lemma hex_pad_value: "digits_value 16 (hex_pad k n) a = Some (a * 16 ^ k + n mod 16 ^ k)"
proof (induction k arbitrary: n)
  case (Suc k)
  have "n mod 16 ^ Suc k = (n div 16) mod 16 ^ k * 16 + n mod 16"
    using mod_mult2_eq [of n 16 "16 ^ k"] by (simp add: mult.commute)
  then show ?case using Suc digit_of_hex [of "n mod 16"] by (simp add: digits_value_append algebra_simps)
qed simp

lemma hex_pad_chars: "list_all is_hex_digit (hex_pad k n)" "CHR ''_'' \<notin> set (hex_pad k n)" "length (hex_pad k n) = k"
proof -
  show hex: "list_all is_hex_digit (hex_pad k n)" by (induction k arbitrary: n) (auto simp: digit_of_hex)
  show "CHR ''_'' \<notin> set (hex_pad k n)" using hex hex_digit_plain by (auto simp: list_all_iff)
  show "length (hex_pad k n) = k" by (induction k arbitrary: n) auto
qed

lemma digit_of_digit: "d < 10 \<Longrightarrow> digit_of (digit_char d) = Some d" "d < 10 \<Longrightarrow> digit_char d \<noteq> CHR ''_''"
  by (simp add: digit_of_def of_char_digit_char) (metis is_digit_digit_char not_digit_chars(6))

lemma nat_str_value: "digits_value 10 (nat_str n) 0 = Some n"
proof (induction n rule: nat_str.induct)
  case (1 n)
  show ?case
  proof (cases "n < 10")
    case True
    then show ?thesis using digit_of_digit [of n] by (simp add: nat_str.simps)
  next
    case False
    then show ?thesis using 1 digit_of_digit [of "n mod 10"] by (subst nat_str.simps) (simp add: digits_value_append)
  qed
qed

lemma nat_str_hd: "0 < n \<Longrightarrow> hd (nat_str n) \<noteq> CHR ''0''"
proof (induction n rule: nat_str.induct)
  case (1 n)
  show ?case
  proof (cases "n < 10")
    case True
    then have "(of_char (digit_char n) :: nat) \<noteq> of_char CHR ''0''" using 1(2) by (simp add: of_char_digit_char)
    then have "digit_char n \<noteq> CHR ''0''" by metis
    then show ?thesis using True by (simp add: nat_str.simps)
  next
    case False
    then show ?thesis using 1 by (subst nat_str.simps) (simp add: hd_append)
  qed
qed

lemma parse_uint0_nat_str: "parse_uint0 (nat_str n) = Some n"
proof (cases "n = 0")
  case True
  have "digit_char 0 = CHR ''0''" by code_simp
  then show ?thesis using True by (simp add: nat_str.simps parse_uint0_def split_base_def)
next
  case False
  then have "split_base (nat_str n) = (10, nat_str n)" using nat_str_hd [of n] by (simp add: split_base_def)
  moreover have "CHR ''_'' \<notin> set (nat_str n)" by (rule nat_str_not_mem) simp
  ultimately show ?thesis by (simp add: parse_uint0_def nat_str_value)
qed

lemma parse_uint0_hex: "0 < k \<Longrightarrow> parse_uint0 (''0x'' @ hex_pad k n) = Some (n mod 16 ^ k)"
proof -
  assume "0 < k"
  then have "split_base (''0x'' @ hex_pad k n) = (16, hex_pad k n)"
    using hex_pad_chars(3) [of k n] by (simp add: split_base_def lower_char_def ToLower_char_def)
  then show ?thesis using hex_pad_chars(2) [of k n] by (simp add: parse_uint0_def hex_pad_value)
qed

lemma ParseInt0_uint:
  assumes "parse_uint0 s = Some n" and "s \<noteq> []" and "is_digit_char (hd s)"
  shows "nat (fst (ParseInt0 32 s) mod 2 ^ 32) = min n (2 ^ 31 - 1)"
proof -
  have "hd s \<noteq> CHR ''+''" "hd s \<noteq> CHR ''-''" using assms(3) by auto
  then have "ParseInt0 32 s = (if 2 ^ 31 \<le> int n then (2 ^ 31 - 1, False) else (int n, True))"
    using assms(1,2) by (simp add: ParseInt0_def Let_def)
  then show ?thesis by (auto simp: min_def)
qed

text \<open>A firmware block as the kernel prints it, with \<open>%d\<close> and \<open>0x%08x\<close>.\<close>

type_synonym firmware = "string \<times> nat \<times> nat"

definition fw_text :: "firmware \<Rightarrow> string" where
  "fw_text b = (case b of (name, feat, fw) \<Rightarrow>
     name @ '' feature version: '' @ nat_str feat @ '', firmware version: 0x'' @ hex_pad 8 fw)"

definition firmware_ok :: "firmware \<Rightarrow> bool" where
  "firmware_ok b = (case b of (name, feat, fw) \<Rightarrow>
     name \<noteq> [] \<and> list_all is_word_char name \<and> length name < 1000 \<and> feat < 2 ^ 32 \<and> fw < 2 ^ 32)"

definition debugfs_text :: "firmware list \<Rightarrow> string" where
  "debugfs_text bs = concat (map (\<lambda>l. l @ [CHR 0x0A]) (map fw_text bs))"

lemma word_split:
  "list_all P xs \<Longrightarrow> \<not> P y \<Longrightarrow> takeWhile P (xs @ y # ys) = xs \<and> dropWhile P (xs @ y # ys) = y # ys"
  by (induction xs) auto

lemma not_word [simp]: "\<not> is_word_char CHR '' ''" "\<not> is_word_char CHR 0x0A" "\<not> is_word_char CHR 0x0D"
  by (simp_all add: is_word_char_def is_digit_char_def)

lemma fwVersionRe_text:
  assumes "firmware_ok (name, feat, fw)"
  shows "fwVersionRe (fw_text (name, feat, fw)) = Some (name, nat_str feat, ''0x'' @ hex_pad 8 fw)"
proof -
  let ?r3 = "'', firmware version: 0x'' @ hex_pad 8 fw" and ?r1 = "'' feature version: '' @ nat_str feat @ '', firmware version: 0x'' @ hex_pad 8 fw"
  have w: "takeWhile is_word_char (name @ ?r1) = name" "dropWhile is_word_char (name @ ?r1) = ?r1"
    using word_split [of is_word_char name "CHR '' ''"] assms by (simp_all add: firmware_ok_def)
  have d: "takeWhile is_digit_char (nat_str feat @ ?r3) = nat_str feat" "dropWhile is_digit_char (nat_str feat @ ?r3) = ?r3"
    using word_split [of is_digit_char "nat_str feat" "CHR '',''"] nat_str_digits [of feat] by simp_all
  have h: "takeWhile is_hex_digit (hex_pad 8 fw) = hex_pad 8 fw"
    using hex_pad_chars(1) [of 8 fw] by (auto simp: list_all_iff)
  have ne: "hex_pad 8 fw \<noteq> []" using hex_pad_chars(3) [of 8 fw] by auto
  have "fw_match_here (name @ ?r1) = Some (name, nat_str feat, ''0x'' @ hex_pad 8 fw)"
    unfolding fw_match_here_def Let_def w using assms ne by (simp add: firmware_ok_def d [simplified] h)
  moreover obtain c cs where "name = c # cs" using assms by (cases name) (auto simp: firmware_ok_def)
  ultimately show ?thesis by (simp add: fw_text_def)
qed

lemma fw_line_text:
  assumes "firmware_ok (name, feat, fw)"
  shows "fw_line (fw_text (name, feat, fw)) (F, W) = (F(name \<mapsto> min feat (2 ^ 31 - 1)), W(name \<mapsto> min fw (2 ^ 31 - 1)))"
proof -
  have "is_digit_char (hd (nat_str feat))" using nat_str_digits [of feat] by (cases "nat_str feat") auto
  then have "nat (fst (ParseInt0 32 (nat_str feat)) mod 2 ^ 32) = min feat (2 ^ 31 - 1)"
    using ParseInt0_uint [OF parse_uint0_nat_str [of feat]] by simp
  moreover have "nat (fst (ParseInt0 32 (''0x'' @ hex_pad 8 fw)) mod 2 ^ 32) = min (fw mod 16 ^ 8) (2 ^ 31 - 1)"
    by (rule ParseInt0_uint [OF parse_uint0_hex]) (simp_all add: is_digit_char_def)
  moreover have "fw mod 16 ^ 8 = fw" using assms by (simp add: firmware_ok_def)
  ultimately show ?thesis by (simp add: fw_line_def fwVersionRe_text [OF assms])
qed

lemma fw_text_plain:
  assumes "firmware_ok b"
  shows "CHR 0x0A \<notin> set (fw_text b)" "drop_cr (fw_text b) = fw_text b" "length (fw_text b) < MaxScanTokenSize"
proof -
  obtain name feat fw where b: "b = (name, feat, fw)" by (cases b) auto
  have name: "list_all is_word_char name" "length name < 1000" "feat < 10 ^ 10" using assms b by (auto simp: firmware_ok_def)
  have hex: "c \<notin> set (hex_pad 8 fw)" if "\<not> is_hex_digit c" for c
    using hex_pad_chars(1) [of 8 fw] that by (auto simp: list_all_iff)
  have ctl: "\<not> is_hex_digit CHR 0x0A" "\<not> is_hex_digit CHR 0x0D" "\<not> is_digit_char CHR 0x0A" "\<not> is_digit_char CHR 0x0D"
    by (simp_all add: is_hex_digit_def is_digit_char_def)
  have "CHR 0x0A \<notin> set name" "CHR 0x0D \<notin> set name"
    using name(1) not_word(2,3) by (auto simp: list_all_iff)
  then have none: "CHR 0x0A \<notin> set (fw_text b)" "CHR 0x0D \<notin> set (fw_text b)"
    using b hex ctl nat_str_not_mem [of "CHR 0x0A" feat] nat_str_not_mem [of "CHR 0x0D" feat] by (auto simp: fw_text_def)
  then show "CHR 0x0A \<notin> set (fw_text b)" by simp
  show "drop_cr (fw_text b) = fw_text b"
    using none(2) last_in_set [of "fw_text b"] by (metis drop_cr_def)
  have "length (nat_str feat) \<le> 10" using nat_str_length [of feat 9] name(3) by simp
  then show "length (fw_text b) < MaxScanTokenSize"
    using b name(2) hex_pad_chars(3) [of 8 fw] by (simp add: fw_text_def MaxScanTokenSize_def)
qed

lemma fold_fw_line:
  "list_all firmware_ok bs \<Longrightarrow> fold fw_line (map fw_text bs) (F, W) =
     (F ++ map_of (rev (map (\<lambda>(name, feat, fw). (name, min feat (2 ^ 31 - 1))) bs)),
      W ++ map_of (rev (map (\<lambda>(name, feat, fw). (name, min fw (2 ^ 31 - 1))) bs)))"
proof (induction bs arbitrary: F W)
  case (Cons b bs)
  obtain name feat fw where b: "b = (name, feat, fw)" by (cases b) auto
  then show ?case using Cons fw_line_text [of name feat fw F W] by simp
qed simp

text \<open>The firmware table of the kernel.  When the kernel lists firmware blocks in its format, the parser
  finds every block under its name and nothing else, and reports its feature and firmware versions, except
  that a version that does not fit into 31 bits is reported as the largest one that does.\<close>
lemma parseDebugFSFirmwareInfo_table:
  assumes "list_all firmware_ok bs"
  shows "parseDebugFSFirmwareInfo (Inr (debugfs_text bs)) =
     (map_of (rev (map (\<lambda>(name, feat, fw). (name, min feat (2 ^ 31 - 1))) bs)),
      map_of (rev (map (\<lambda>(name, feat, fw). (name, min fw (2 ^ 31 - 1))) bs)))"
proof -
  have plain: "\<forall>l\<in>set (map fw_text bs). CHR 0x0A \<notin> set l \<and> drop_cr l = l \<and> length l < MaxScanTokenSize"
    using assms fw_text_plain by (auto simp: list_all_iff)
  have "scanner_lines MaxScanTokenSize (debugfs_text bs) = map fw_text bs"
    unfolding debugfs_text_def by (rule scanner_lines_concat [OF plain])
  then show ?thesis using fold_fw_line [OF assms, of Map.empty Map.empty] by (simp add: parseDebugFSFirmwareInfo_def)
qed

text \<open>The version \<open>0x80000001\<close> of the second block does not fit.\<close>

lemma parseDebugFSFirmwareInfo_table_example:
  "snd (parseDebugFSFirmwareInfo (Inr (debugfs_text [(''VCE'', 0, 57), (''SMC'', 3, 2147483649)]))) ''SMC'' = Some 2147483647
   \<and> snd (parseDebugFSFirmwareInfo (Inr (debugfs_text [(''VCE'', 0, 57), (''SMC'', 3, 2147483649)]))) ''VCE'' = Some 57"
  by (subst parseDebugFSFirmwareInfo_table, simp add: firmware_ok_def is_word_char_def Let_def, simp)+

text \<open>A failed query is reported with the version of the block before it.\<close>

lemma failed_query_repeats:
  assumes "query b = None" and "query a = Some (ver, feat)" and "n2 \<notin> set (map snd blocks)"
  shows "snd (query_blocks query ((a, n1) # (b, n2) # blocks) vars acc) n2 = Some ver"
proof -
  have other: "n2 \<notin> set (map snd blocks) \<Longrightarrow> snd (query_blocks query blocks vars acc) n2 = snd acc n2" for vars acc
    by (induction blocks arbitrary: vars acc) (auto simp: Let_def split: prod.splits)
  show ?thesis using assms other by simp
qed

text \<open>The lists sent to the kubelet never change, whatever the health checks find.\<close>

lemma dcu_health_never_sent:
  assumes "dcu_ListAndWatch gpus heartbeats p = Inr (sent, devs, p')"
  shows "\<exists>l. sent = replicate (Suc (length heartbeats)) l \<and> (\<forall>d\<in>set l. snd d = ''Healthy'')"
proof -
  obtain fakedevs where "sent = replicate (Suc (length heartbeats)) (dcu_generateFakeDevs fakedevs)"
    using assms by (auto simp: dcu_ListAndWatch_def Let_def bind_result_Inr_iff)
  moreover have "\<forall>d\<in>set (dcu_generateFakeDevs fakedevs). snd d = ''Healthy''" by (auto simp: dcu_generateFakeDevs_def)
  ultimately show ?thesis by blast
qed

end
