(* ===== verification/Oci.thy ===== *)
theory Oci
  imports Go_Strings
begin

text \<open>
  Package \<open>oci\<close>: a specification backed by a file, a runtime that is entered by \<open>exec\<close>, and the stand-ins
  for both.  Specifications are values of a type variable; JSON is a pair of arguments; a file system maps
  paths to contents and may refuse to open a path.
\<close>

section \<open>Specifications in files\<close>

record files =
  fs_contents :: "string \<rightharpoonup> string"
  fs_noread :: "string \<Rightarrow> bool"
  fs_nowrite :: "string \<Rightarrow> bool"

record 'spec json =
  js_decode :: "string \<Rightarrow> 'spec result"
  js_encode :: "'spec option \<Rightarrow> string result"

record 'spec file_spec =
  sp_Spec :: "'spec option"
  sp_path :: string

text \<open>A modifier changes the specification in place, also when it returns an error.\<close>

type_synonym 'spec modifier = "'spec \<Rightarrow> unit result \<times> 'spec"

definition NewSpecFromFile :: "string \<Rightarrow> 'spec file_spec" where
  "NewSpecFromFile filepath = \<lparr>sp_Spec = None, sp_path = filepath\<rparr>"

definition Load :: "'spec json \<Rightarrow> files \<Rightarrow> 'spec file_spec \<Rightarrow> unit result \<times> 'spec file_spec" where
  "Load J fs s =
     (case if fs_noread fs (sp_path s) then None else fs_contents fs (sp_path s) of
        None \<Rightarrow> (Inl (Errorf ''error opening OCI specification file''), s)
      | Some contents \<Rightarrow>
          (case js_decode J contents of
             Inl e \<Rightarrow> (Inl (Errorf ''error reading OCI specification from file''), s)
           | Inr spec \<Rightarrow> (Inr (), s\<lparr>sp_Spec := Some spec\<rparr>)))"

definition Modify :: "'spec modifier \<Rightarrow> 'spec file_spec \<Rightarrow> unit result \<times> 'spec file_spec" where
  "Modify f s =
     (case sp_Spec s of
        None \<Rightarrow> (Inl (Errorf ''no spec loaded for modification''), s)
      | Some spec \<Rightarrow> (case f spec of (r, spec') \<Rightarrow> (r, s\<lparr>sp_Spec := Some spec'\<rparr>)))"

text \<open>\<open>os.Create\<close> truncates the file before the specification is encoded.\<close>

definition Flush :: "'spec json \<Rightarrow> 'spec file_spec \<Rightarrow> files \<Rightarrow> unit result \<times> files" where
  "Flush J s fs =
     (if fs_nowrite fs (sp_path s) then (Inl (Errorf ''error opening OCI specification file''), fs)
      else
        let fs1 = fs\<lparr>fs_contents := (fs_contents fs)(sp_path s \<mapsto> [])\<rparr>
        in case js_encode J (sp_Spec s) of
             Inl e \<Rightarrow> (Inl (Errorf ''error writing OCI specification to file''), fs1)
           | Inr text \<Rightarrow> (Inr (), fs1\<lparr>fs_contents := (fs_contents fs1)(sp_path s \<mapsto> text)\<rparr>))"

section \<open>Runtimes\<close>

record file_info =
  fi_IsDir :: bool
  fi_Mode :: nat

record exec_runtime =
  er_path :: string
  er_exec :: "string \<Rightarrow> string list \<Rightarrow> string list \<Rightarrow> unit result"

text \<open>The execute bits of owner, group and others are \<open>0111\<close>, which is 73.\<close>

definition executable_bits :: "nat \<Rightarrow> bool" where
  "executable_bits mode \<longleftrightarrow> odd mode \<or> odd (mode div 8) \<or> odd (mode div 64)"

definition NewSyscallExecRuntime ::
  "(string \<Rightarrow> file_info result) \<Rightarrow> (string \<Rightarrow> string list \<Rightarrow> string list \<Rightarrow> unit result) \<Rightarrow> string \<Rightarrow> exec_runtime result" where
  "NewSyscallExecRuntime stat exec path =
     (case stat path of
        Inl e \<Rightarrow> Inl (Errorf (''invalid path '' @ path))
      | Inr info \<Rightarrow>
          if fi_IsDir info \<or> \<not> executable_bits (fi_Mode info)
          then Inl (Errorf (''specified path '' @ path @ '' is not an executable file''))
          else Inr \<lparr>er_path = path, er_exec = exec\<rparr>)"

definition runtimeArgs :: "exec_runtime \<Rightarrow> string list \<Rightarrow> string list" where
  "runtimeArgs s args = [er_path s] @ (if length args > 1 then tl args else [])"

text \<open>\<open>Exec\<close> does not return when it succeeds; a return is an error in any case.\<close>

definition Exec :: "string list \<Rightarrow> exec_runtime \<Rightarrow> string list \<Rightarrow> unit result" where
  "Exec environ s args =
     (case er_exec s (er_path s) (runtimeArgs s args) environ of
        Inl e \<Rightarrow> Inl (Errorf (''could not exec '' @ er_path s))
      | Inr _ \<Rightarrow> Inl (Errorf (''unexpected return from exec '' @ er_path s)))"

section \<open>Stand-ins\<close>

record mock_func =
  mf_Callcount :: nat
  mf_result :: "unit result"

definition mock_call :: "mock_func \<Rightarrow> unit result \<times> mock_func" where
  "mock_call m = (mf_result m, m\<lparr>mf_Callcount := mf_Callcount m + 1\<rparr>)"

record 'spec mock_spec =
  ms_Spec :: 'spec
  ms_MockLoad :: mock_func
  ms_MockFlush :: mock_func
  ms_MockModify :: mock_func

definition NewMockSpec :: "'spec \<Rightarrow> unit result \<Rightarrow> unit result \<Rightarrow> 'spec mock_spec" where
  "NewMockSpec spec flushResult modifyResult = \<lparr>ms_Spec = spec, ms_MockLoad = \<lparr>mf_Callcount = 0, mf_result = Inr ()\<rparr>,
     ms_MockFlush = \<lparr>mf_Callcount = 0, mf_result = flushResult\<rparr>, ms_MockModify = \<lparr>mf_Callcount = 0, mf_result = modifyResult\<rparr>\<rparr>"

definition mock_Load :: "'spec mock_spec \<Rightarrow> unit result \<times> 'spec mock_spec" where
  "mock_Load s = (case mock_call (ms_MockLoad s) of (r, m) \<Rightarrow> (r, s\<lparr>ms_MockLoad := m\<rparr>))"

definition mock_Flush :: "'spec mock_spec \<Rightarrow> unit result \<times> 'spec mock_spec" where
  "mock_Flush s = (case mock_call (ms_MockFlush s) of (r, m) \<Rightarrow> (r, s\<lparr>ms_MockFlush := m\<rparr>))"

definition mock_Modify :: "'spec modifier \<Rightarrow> 'spec mock_spec \<Rightarrow> unit result \<times> 'spec mock_spec" where
  "mock_Modify f s =
     (case mock_call (ms_MockModify s) of (r, m) \<Rightarrow> (r, s\<lparr>ms_Spec := snd (f (ms_Spec s)), ms_MockModify := m\<rparr>))"

section \<open>What the package promises\<close>

text \<open>What is flushed is what the next \<open>Load\<close> of the path reads, when the JSON library reads back what it wrote.\<close>

lemma Flush_then_Load:
  assumes "sp_Spec s = Some spec" and "Flush J s fs = (Inr (), fs')" and "\<not> fs_noread fs (sp_path s)"
    and "\<And>x text. js_encode J (Some x) = Inr text \<Longrightarrow> js_decode J text = Inr x"
  shows "Load J fs' (NewSpecFromFile (sp_path s)) = (Inr (), s)"
  using assms by (auto simp: Flush_def Load_def NewSpecFromFile_def Let_def split: if_splits sum.splits)

text \<open>The whole cycle: the file then holds the modified specification, and no other file changes.\<close>

lemma Load_Modify_Flush:
  assumes "Load J fs (NewSpecFromFile path) = (Inr (), s)" and "Modify f s = (r, s')" and "Flush J s' fs = (Inr (), fs')"
    and "\<And>x text. js_encode J (Some x) = Inr text \<Longrightarrow> js_decode J text = Inr x"
  shows "\<exists>contents spec. fs_contents fs path = Some contents \<and> js_decode J contents = Inr spec
     \<and> Load J fs' (NewSpecFromFile path) = (Inr (), s') \<and> sp_Spec s' = Some (snd (f spec))
     \<and> (\<forall>p. p \<noteq> path \<longrightarrow> fs_contents fs' p = fs_contents fs p)"
proof -
  obtain contents spec where c: "fs_contents fs path = Some contents" "js_decode J contents = Inr spec" "\<not> fs_noread fs path"
    and s: "s = \<lparr>sp_Spec = Some spec, sp_path = path\<rparr>"
    using assms(1) by (auto simp: Load_def NewSpecFromFile_def split: if_splits option.splits sum.splits)
  have s': "s' = \<lparr>sp_Spec = Some (snd (f spec)), sp_path = path\<rparr>"
    using assms(2) s by (auto simp: Modify_def split: prod.splits)
  have others: "\<forall>p. p \<noteq> path \<longrightarrow> fs_contents fs' p = fs_contents fs p"
    using assms(3) s' by (auto simp: Flush_def Let_def split: if_splits sum.splits)
  show ?thesis
    using Flush_then_Load [of s' "snd (f spec)" J fs fs'] assms(3,4) c s' others by auto
qed

text \<open>A specification that cannot be encoded costs the file its contents.\<close>

lemma failed_Flush_truncates:
  "js_encode J (sp_Spec s) = Inl e \<Longrightarrow> \<not> fs_nowrite fs (sp_path s) \<Longrightarrow>
     isl (fst (Flush J s fs)) \<and> fs_contents (snd (Flush J s fs)) (sp_path s) = Some []"
  by (simp add: Flush_def Let_def)

text \<open>The runtime is started as itself, with the remaining arguments, and \<open>Exec\<close> never returns without an error.\<close>

lemma Exec_never_ok: "isl (Exec environ s args)"
  by (simp add: Exec_def split: sum.splits)

lemma runtimeArgs_self: "hd (runtimeArgs s args) = er_path s" "tl (runtimeArgs s args) = tl args"
  by (cases args; simp add: runtimeArgs_def)+

end
