(* ===== verification/Webhook.thy ===== *)
theory Webhook
  imports Devices
begin

text \<open>
  The admission webhook, \<open>pkg/scheduler/webhook.go\<close>: it lets every backend prepare the containers of
  a new pod and hands pods that ask for devices to this scheduler.  Decoding and encoding of the
  request are arguments.
\<close>

datatype admission_response =
    Errored int go_error
  | Denied string
  | Allowed string
  | PatchResponseFromRaw pod

definition is_privileged :: "container \<Rightarrow> bool" where
  "is_privileged ctr \<longleftrightarrow> ctr_Privileged ctr = Some True"

text \<open>\<open>hasResource = hasResource || val.MutateAdmission(c)\<close>: once true, no backend is called any more.\<close>

definition mutate_step ::
  "device_config \<Rightarrow> string \<times> backend \<Rightarrow> bool \<times> container \<Rightarrow> bool \<times> container" where
  "mutate_step cfg dev st =
     (case st of (hasResource, c) \<Rightarrow> if hasResource then st else MutateAdmission cfg (snd dev) c)"

definition mutate_container ::
  "device_config \<Rightarrow> (string, backend) gomap \<Rightarrow> bool \<Rightarrow> container \<Rightarrow> bool \<times> container" where
  "mutate_container cfg devs hasResource c =
     (if is_privileged c then (hasResource, c) else fold (mutate_step cfg) devs (hasResource, c))"

fun mutate_containers ::
  "device_config \<Rightarrow> (string, backend) gomap \<Rightarrow> bool \<Rightarrow> container list \<Rightarrow> bool \<times> container list" where
  "mutate_containers cfg devs hasResource [] = (hasResource, [])"
| "mutate_containers cfg devs hasResource (c # cs) =
     (case mutate_container cfg devs hasResource c of
        (has1, c') \<Rightarrow> (case mutate_containers cfg devs has1 cs of (has2, cs') \<Rightarrow> (has2, c' # cs')))"

definition Handle ::
  "device_config \<Rightarrow> (string, backend) gomap \<Rightarrow> (pod \<Rightarrow> go_error option) \<Rightarrow> pod result \<Rightarrow> admission_response" where
  "Handle cfg devs marshal req =
     (case req of
        Inl err \<Rightarrow> Errored 400 err
      | Inr p \<Rightarrow>
          if pod_Containers p = [] then Denied ''pod has no containers''
          else
            case mutate_containers cfg devs False (pod_Containers p) of
              (hasResource, cs) \<Rightarrow>
                if \<not> hasResource then Allowed ''no resource found''
                else
                  let p1 = p\<lparr>pod_Containers := cs\<rparr>;
                      p2 = (if SchedulerName cfg \<noteq> [] then p1\<lparr>pod_SchedulerName := SchedulerName cfg\<rparr> else p1)
                  in case marshal p2 of Some err \<Rightarrow> Errored 500 err | None \<Rightarrow> PatchResponseFromRaw p2)"

section \<open>Which pods are handed to the scheduler\<close>

text \<open>What the backends look at: the limits of the container, which no backend changes.\<close>

definition wants_device :: "device_config \<Rightarrow> backend \<Rightarrow> container \<Rightarrow> bool" where
  "wants_device cfg b c =
     (case b of
        Nvidia \<Rightarrow> mget (ctr_Limits c) (ResourceName cfg) \<noteq> None
      | Cambricon \<Rightarrow> mget (ctr_Limits c) (MLUResourceMemory cfg) \<noteq> None \<or> mget (ctr_Limits c) (MLUResourceCount cfg) \<noteq> None
      | Hygon \<Rightarrow> mget (ctr_Limits c) (HygonResourceCount cfg) \<noteq> None)"

lemma MutateAdmission_wants: "fst (MutateAdmission cfg b c) = wants_device cfg b c"
  by (cases b) (auto simp: wants_device_def nvidia_MutateAdmission_def mlu_MutateAdmission_def dcu_MutateAdmission_def)

lemma MutateAdmission_limits [simp]: "ctr_Limits (snd (MutateAdmission cfg b c)) = ctr_Limits c"
  by (cases b) (auto simp: nvidia_MutateAdmission_def mlu_MutateAdmission_def dcu_MutateAdmission_def split: option.splits)

lemma wants_device_cong: "ctr_Limits c = ctr_Limits c' \<Longrightarrow> wants_device cfg b c = wants_device cfg b c'"
  by (cases b) (simp_all add: wants_device_def)

lemma fold_mutate_True: "fold (mutate_step cfg) devs (True, c) = (True, c)"
  by (induction devs) (simp_all add: mutate_step_def)

lemma fold_mutate_step:
  "(fst (fold (mutate_step cfg) devs (has, c)) \<longleftrightarrow> has \<or> (\<exists>d\<in>set devs. wants_device cfg (snd d) c))
   \<and> ctr_Limits (snd (fold (mutate_step cfg) devs (has, c))) = ctr_Limits c"
proof (induction devs arbitrary: has c)
  case (Cons d devs)
  show ?case
  proof (cases has)
    case True
    then show ?thesis using fold_mutate_True [of cfg "d # devs" c] by simp
  next
    case False
    obtain h c' where mc: "MutateAdmission cfg (snd d) c = (h, c')" by fastforce
    have "h = wants_device cfg (snd d) c" "ctr_Limits c' = ctr_Limits c"
      using MutateAdmission_wants [of cfg "snd d" c] MutateAdmission_limits [of cfg "snd d" c] mc by simp_all
    then show ?thesis
      using False Cons.IH [of h c'] wants_device_cong [of c' c] mc by (auto simp: mutate_step_def)
  qed
qed simp

lemma fst_mutate_container:
  "fst (mutate_container cfg devs has c) \<longleftrightarrow>
     has \<or> \<not> is_privileged c \<and> (\<exists>d\<in>set devs. wants_device cfg (snd d) c)"
  using fold_mutate_step [of cfg devs has c] by (auto simp: mutate_container_def)

lemma fst_mutate_containers:
  "fst (mutate_containers cfg devs has cs) \<longleftrightarrow>
     has \<or> (\<exists>c\<in>set cs. \<not> is_privileged c \<and> (\<exists>d\<in>set devs. wants_device cfg (snd d) c))"
proof (induction cs arbitrary: has)
  case (Cons c cs)
  obtain h c' where mc: "mutate_container cfg devs has c = (h, c')" by fastforce
  then show ?case
    using Cons.IH [of h] fst_mutate_container [of cfg devs has c] by (auto split: prod.splits)
qed simp

text \<open>C21: the webhook takes over exactly the pods it should: when the request decodes, has a container and
  encodes again, the answer is a patch that sets the scheduler's name if and only if some container
  that is not privileged has a limit on a resource of one of the backends, in whatever order the
  backends are visited; every other such pod is let through unchanged.\<close>
theorem Handle_takes_over_iff:
  assumes "pod_Containers p \<noteq> []" and "\<forall>q. marshal q = None" and "SchedulerName cfg \<noteq> []"
  shows "((\<exists>q. Handle cfg devs marshal (Inr p) = PatchResponseFromRaw q \<and> pod_SchedulerName q = SchedulerName cfg)
      \<longleftrightarrow> (\<exists>c\<in>set (pod_Containers p). \<not> is_privileged c \<and> (\<exists>d\<in>set devs. wants_device cfg (snd d) c)))
    \<and> (Handle cfg devs marshal (Inr p) = Allowed ''no resource found''
      \<longleftrightarrow> \<not> (\<exists>c\<in>set (pod_Containers p). \<not> is_privileged c \<and> (\<exists>d\<in>set devs. wants_device cfg (snd d) c)))"
  using assms fst_mutate_containers [of cfg devs False "pod_Containers p"]
  by (auto simp: Handle_def Let_def split: prod.splits)

theorem Handle_takes_over_iff_witness:
  "\<exists>q. Handle (GlobalFlagSet\<lparr>SchedulerName := ''hami-scheduler''\<rparr>) GetDevices (\<lambda>_. None) (Inr example_gpu_pod)
       = PatchResponseFromRaw q \<and> pod_SchedulerName q = ''hami-scheduler''"
proof -
  let ?cfg = "GlobalFlagSet\<lparr>SchedulerName := ''hami-scheduler''\<rparr>"
  have "\<exists>c\<in>set (pod_Containers example_gpu_pod). \<not> is_privileged c \<and> (\<exists>d\<in>set GetDevices. wants_device ?cfg (snd d) c)"
    by (simp add: example_gpu_pod_def example_gpu_container_def zero_container_def is_privileged_def GetDevices_def
        wants_device_def config_defs)
  then show ?thesis
    using Handle_takes_over_iff [of example_gpu_pod "\<lambda>_. None" ?cfg GetDevices]
    by (simp add: example_gpu_pod_def)
qed

text \<open>The short-circuit in \<open>hasResource || val.MutateAdmission(c)\<close> skips work: once a container has
  asked for a device, no later container of the pod is prepared by any backend, so its task priority
  is not passed on and its post-start hook is not installed.\<close>
lemma later_containers_unprepared:
  assumes "\<not> is_privileged c" and "\<exists>d\<in>set devs. wants_device cfg (snd d) c"
  shows "\<exists>c'. mutate_containers cfg devs False (c # cs) = (True, c' # cs)"
proof -
  obtain c' where c': "mutate_container cfg devs False c = (True, c')"
    using fst_mutate_container [of cfg devs False c] assms by (metis prod.collapse)
  have "mutate_containers cfg devs True cs = (True, cs)" for cs
    by (induction cs) (simp_all add: mutate_container_def fold_mutate_True)
  then show ?thesis using c' by simp
qed

lemma later_containers_unprepared_example:
  "\<exists>c'. mutate_containers GlobalFlagSet GetDevices False [example_gpu_container, example_gpu_container\<lparr>ctr_Limits :=
       [(''nvidia.com/gpu'', Quantity (Some 1) 1), (''vgputaskpriority'', Quantity (Some 1) 1)]\<rparr>]
     = (True, [c', example_gpu_container\<lparr>ctr_Limits :=
       [(''nvidia.com/gpu'', Quantity (Some 1) 1), (''vgputaskpriority'', Quantity (Some 1) 1)]\<rparr>])"
  by (rule later_containers_unprepared)
    (simp_all add: example_gpu_container_def zero_container_def is_privileged_def GetDevices_def wants_device_def config_defs)

end
