(* ===== verification/Service.thy ===== *)
theory Service
  imports Scheduler Webhook Monitor
begin

text \<open>
  How the components are reached from outside: the HTTP routes of the scheduler extender
  (\<open>pkg/scheduler/routes/route.go\<close>) and the metrics of the scheduler (\<open>cmd/scheduler/metrics.go\<close>) and of the
  node monitor (\<open>cmd/vGPUmonitor/metrics.go\<close>).  Decoding and encoding JSON and the Prometheus client are
  arguments or left out: a route is what it answers, a collection is the list of metrics it sends.
\<close>

section \<open>Routes\<close>

text \<open>A response: the status and the encoded result, or the text of an encoding error.\<close>

datatype 'r http_response = Response (hr_status: nat) (hr_body: "string + 'r")

definition write_result :: "('r \<Rightarrow> string option) \<Rightarrow> (string \<Rightarrow> string) \<Rightarrow> 'r \<Rightarrow> 'r http_response" where
  "write_result marshal describe res =
     (case marshal res of Some err \<Rightarrow> Response 500 (Inl (describe err)) | None \<Rightarrow> Response 200 (Inr res))"

definition filter_error :: "string \<Rightarrow> filter_result" where
  "filter_error err = \<lparr>flt_NodeNames = None, flt_FailedNodes = [], flt_Error = err\<rparr>"

text \<open>\<open>request\<close> is the decoded body or the error of the decoder.\<close>

definition PredicateRoute ::
  "filter_env \<Rightarrow> (filter_result \<Rightarrow> string option) \<Rightarrow> (string + pod \<times> string list) \<Rightarrow> scheduler \<Rightarrow>
   (scheduler \<times> annotations option \<times> filter_result http_response) result" where
  "PredicateRoute env marshal request s =
     (case request of
        Inl err \<Rightarrow> Inr (s, None, write_result marshal id (filter_error err))
      | Inr (p, nodeNames) \<Rightarrow>
          bind_result (Filter env p nodeNames s) (\<lambda>(s', annos, r).
            Inr (s', Some annos, write_result marshal id (case r of Inr res \<Rightarrow> res | Inl e \<Rightarrow> filter_error (error_text e)))))"

definition BindRoute :: "(string \<Rightarrow> string option) \<Rightarrow> (string + bind_env) \<Rightarrow> bind_outcome option \<times> string http_response" where
  "BindRoute marshal request =
     (let describe = (\<lambda>err. ''{'' @ [CHR 0x27] @ ''error'' @ [CHR 0x27] @ '':'' @ [CHR 0x27] @ err @ [CHR 0x27] @ ''}'')
      in case request of
           Inl err \<Rightarrow> (None, write_result marshal describe err)
         | Inr env \<Rightarrow> (Some (Bind env), write_result marshal describe (bo_Error (Bind env))))"

section \<open>Metrics of the scheduler\<close>

text \<open>The value of a metric before its conversion to a 64-bit float.\<close>

datatype metric_value = Plain int | MebiBytes int | Share int int

type_synonym metric = "string \<times> metric_value \<times> string list"

definition device_metrics :: "string \<Rightarrow> device_usage \<Rightarrow> metric list" where
  "device_metrics nodeID devs =
     (let labels = [nodeID, du_Id devs, Itoa (du_Index devs)]
      in [(''GPUDeviceMemoryLimit'', MebiBytes (du_Totalmem devs), labels),
          (''GPUDeviceCoreLimit'', Plain (du_Totalcore devs), labels),
          (''GPUDeviceMemoryAllocated'', MebiBytes (du_Usedmem devs), labels @ [Itoa (du_Usedcores devs)]),
          (''GPUDeviceSharedNum'', Plain (du_Used devs), labels),
          (''GPUDeviceCoreAllocated'', Plain (du_Usedcores devs), labels),
          (''nodeGPUOverview'', MebiBytes (du_Usedmem devs),
             labels @ [Itoa (du_Usedcores devs), Itoa (du_Used devs), Itoa (du_Totalmem devs), du_Type devs]),
          (''nodeGPUMemoryPercentage'', Share (du_Usedmem devs) (du_Totalmem devs), labels)])"

text \<open>The memory of the first device with the id, over all nodes; 0 when there is none.\<close>

definition device_total :: "(string, device_usage list) gomap \<Rightarrow> string \<Rightarrow> int" where
  "device_total nu uuid =
     (case find (\<lambda>d. du_Id d = uuid) (concat (map snd nu)) of None \<Rightarrow> 0 | Some d \<Rightarrow> du_Totalmem d)"

definition assignment_metrics ::
  "(string, device_usage list) gomap \<Rightarrow> pod_info \<Rightarrow> string \<Rightarrow> container_device \<Rightarrow> metric list" where
  "assignment_metrics nu p ctridx d =
     (let labels = [pi_Namespace p, pi_NodeID p, pi_Name p, ctridx, cd_UUID d]; totaldev = device_total nu (cd_UUID d)
      in [(''vGPUPodsDeviceAllocated'', MebiBytes (cd_Usedmem d), labels @ [Itoa (cd_Usedcores d)])]
         @ (if totaldev > 0 then [(''vGPUMemoryPercentage'', Share (cd_Usedmem d) totaldev, labels)] else [])
         @ [(''vGPUCorePercentage'', Plain (cd_Usedcores d), labels)])"

definition sched_Collect :: "scheduler \<Rightarrow> metric list" where
  "sched_Collect s =
     (let nu = InspectAllNodesUsage s
      in concat (map (\<lambda>(nodeID, devs). concat (map (device_metrics nodeID) devs)) nu)
         @ concat (map (\<lambda>(_, p). concat (map (\<lambda>(ctridx, psd). concat (map (assignment_metrics nu p ctridx) (concat psd)))
             (pi_Devices p))) (GetScheduledPods (sc_pods s))))"

section \<open>Metrics of the monitor\<close>

text \<open>What NVML says about a card: used memory, UUID (the value and whether the call succeeded), utilisation.\<close>

record host_gpu =
  hg_memory :: "int option"
  hg_uuid :: "string \<times> bool"
  hg_util :: "int option"

definition host_metrics :: "nat \<Rightarrow> host_gpu \<Rightarrow> metric list" where
  "host_metrics ii hdev =
     (let memoryUsed = (case hg_memory hdev of Some m \<Rightarrow> i64 m | None \<Rightarrow> 0); labels = [nat_str ii, fst (hg_uuid hdev)]
      in (if snd (hg_uuid hdev) then [(''HostGPUMemoryUsage'', Plain memoryUsed, labels)] else [])
         @ (case hg_util hdev of Some u \<Rightarrow> [(''HostCoreUtilization'', Plain u, labels)] | None \<Rightarrow> []))"

definition parseidstr :: "string \<Rightarrow> (string \<times> string) result" where
  "parseidstr s = (case Split CHR ''_'' s of a # b # _ \<Rightarrow> Inr (a, b) | _ \<Rightarrow> Inl (Errorf ''parse error''))"

text \<open>The metrics of the \<open>i\<close>-th device of a region; the first 40 bytes of its UUID name it.\<close>

definition vdevice_metrics :: "string list \<Rightarrow> shared_region \<Rightarrow> int \<Rightarrow> metric list result" where
  "vdevice_metrics names sr i =
     bind_result (gettotalusage sr i) (\<lambda>value.
     bind_result (slice_get (sg_uuids sr) i) (\<lambda>u.
     bind_result (slice_get (sg_limit sr) i) (\<lambda>limit.
       let labels = names @ [Itoa i, take 40 u]; bytes = Plain (uint (dm_total value))
       in Inr [(''vGPU_device_memory_usage_in_bytes'', bytes, labels),
               (''vGPU_device_memory_limit_in_bytes'', Plain (uint limit), labels),
               (''Device_memory_desc_of_container'', bytes,
                  labels @ map (\<lambda>w. Itoa (uint w)) [dm_contextSize value, dm_moduleSize value, dm_bufferSize value, dm_offset value])])))"

fun concat_results :: "'a list result list \<Rightarrow> 'a list result" where
  "concat_results [] = Inr []"
| "concat_results (r # rs) = bind_result r (\<lambda>xs. bind_result (concat_results rs) (\<lambda>ys. Inr (xs @ ys)))"

definition container_metrics :: "pod \<Rightarrow> podusage \<Rightarrow> metric list result" where
  "container_metrics val pu =
     (case pu_sr pu of
        None \<Rightarrow> Inr []
      | Some sr \<Rightarrow>
          (case Split CHR ''_'' (pu_idstr pu) of
             pod_uid # ctr_name # _ \<Rightarrow>
               if pod_UID val = pod_uid then
                 concat_results (map (\<lambda>ctr.
                   if ctr_Name ctr = ctr_name
                   then concat_results (map (vdevice_metrics [pod_Namespace val, pod_Name val, ctr_name] sr)
                          [0..i64 (uint (sg_num sr)) - 1])
                   else Inr []) (pod_Containers val))
               else Inr []
           | _ \<Rightarrow> Inl (GoPanic ''index out of range'')))"

definition monitor_Collect :: "host_gpu list option \<Rightarrow> pod list \<Rightarrow> podmap \<Rightarrow> metric list result" where
  "monitor_Collect gpus pods srPodList =
     bind_result (concat_results (concat (map (\<lambda>val. map (\<lambda>(_, pu). container_metrics val pu) srPodList) pods)))
       (\<lambda>ctrs. Inr ((case gpus of None \<Rightarrow> [] | Some gs \<Rightarrow> concat (map (\<lambda>(i, g). host_metrics i g) (enumerate 0 gs))) @ ctrs))"

section \<open>Lemmas on the service\<close>

text \<open>A request that cannot be decoded is answered with its error and leaves the scheduler alone.\<close>

lemma PredicateRoute_bad_request:
  "marshal (filter_error err) = None \<Longrightarrow>
     PredicateRoute env marshal (Inl err) s = Inr (s, None, Response 200 (Inr (filter_error err)))"
  by (simp add: PredicateRoute_def write_result_def)

text \<open>A share of a device is reported only against a positive total.\<close>

lemma assignment_metrics_share:
  assumes "(''vGPUMemoryPercentage'', v, labels) \<in> set (assignment_metrics nu p ctridx d)"
  shows "\<exists>dev\<in>set (concat (map snd nu)). du_Id dev = cd_UUID d \<and> v = Share (cd_Usedmem d) (du_Totalmem dev) \<and> du_Totalmem dev > 0"
proof -
  have tot: "device_total nu (cd_UUID d) > 0" and v: "v = Share (cd_Usedmem d) (device_total nu (cd_UUID d))"
    using assms by (auto simp: assignment_metrics_def Let_def split: if_splits)
  then obtain dev where dev: "find (\<lambda>x. du_Id x = cd_UUID d) (concat (map snd nu)) = Some dev"
    "device_total nu (cd_UUID d) = du_Totalmem dev"
    by (auto simp: device_total_def split: option.splits)
  have "dev \<in> set (concat (map snd nu)) \<and> du_Id dev = cd_UUID d"
    using dev(1) unfolding find_Some_iff by (metis nth_mem)
  then show ?thesis using tot v dev(2) by auto
qed

end
