(* ===== verification/Spec2Isabelle.thy ===== *)
theory Spec2Isabelle
  imports Turns Interleaving Region_Layout Reporting Recovery Nvidia_Main Mlu_Main Mlu_Bindings Mig_Caps Dcu_Hardware Oci Service
begin

text \<open>
  \<^bold>\<open>A verification of the vGPU scheduler for Kubernetes.\<close>

  The program lets containers share accelerator cards.  A node's device plugin reports the cards of the
  node in annotations; a scheduler extender reads the reports, picks a node and cards for a pod and writes
  the assignment into annotations of the pod; the device plugin of the node reads the assignment when the
  kubelet starts a container, limits the container to it and releases the lock that keeps one node from
  serving two pods at once; a monitor on the node reads what the containers use and throttles them by
  priority.  The components meet only in annotations, so the codecs and the hand-over are as much part of
  the argument as the algorithms.

  \<^bold>\<open>How the code is read.\<close>  A function of the source is a function of the same name (with a suffix or the
  vendor as a prefix where the name is taken); a struct is a record, an enumeration a datatype.  Errors and
  panics are values of \<open>go_error\<close> in the left summand of a result; an index out of range, a nil
  dereference and a negative capacity are panics written out.  \<open>int32\<close> arithmetic wraps (\<open>i32\<close>), \<open>uint64\<close> values of the
  monitor are 64-bit words, floats are rounded in \<open>Float32\<close>.  A Go map is an association list whose order
  is the order of iteration, so that a statement about every list holds for every order.  Sorting functions,
  clocks, the API server, file systems and vendor libraries are arguments; what is assumed of them is
  stated in the theorem (a sort sorts, a patch merges, a rejected update changes nothing).

  \<^bold>\<open>Theories, in the order of the imports.\<close>

  \<^item> \<open>Prelude\<close>, \<open>Go_Strings\<close>, \<open>Go_Scan\<close>, \<open>Float32\<close>: results, fixed-width integers, maps, the contract of a sort
    (locale \<open>strict_weak_order\<close>), the functions of \<open>strings\<close>, \<open>strconv\<close> and \<open>fmt\<close> the program uses, and
    rounding.
  \<^item> \<open>Types\<close>: \<open>pkg/util/types.go\<close>, \<open>pkg/api\<close>, the parts of Kubernetes objects that are read.
  \<^item> \<open>Codec\<close>: \<open>pkg/util/util.go\<close>, the encoding of devices and assignments in annotations and the functions
    that plugins consume them with.  Round trips, what is lost in them, and how an assignment is used up.
    The locale \<open>colon_codec\<close> carries both codecs.
  \<^item> \<open>Devices\<close>: \<open>pkg/device\<close>, the vendor backends: requests of a container, type and NUMA constraints,
    preparation by the webhook.  Collected requests are recognised by their backend, in any order of the backends.
  \<^item> \<open>Score\<close>, \<open>Placement\<close>: \<open>pkg/scheduler/score.go\<close>, the choice of devices on a node and the score.  The scan is
    sound and complete for eligible devices, with and without NUMA binding; booking keeps every device
    within its capacity for requests whose memory percentage does not wrap, and what happens when it does; and where
    the test of acceptance is wrong, what it does instead.
  \<^item> \<open>Registry\<close>, \<open>Registration\<close>: \<open>pkg/scheduler/nodes.go\<close>, \<open>pods.go\<close> and the registration loop of
    \<open>scheduler.go\<close>, on a store of node objects because the code shares them by pointer.
  \<^item> \<open>Scheduler\<close>: \<open>pkg/scheduler/scheduler.go\<close>.  Steps of the scheduler as an inductive relation, with
    the invariant that recorded assignments fit on their devices; usage as the sum of the assignments;
    completeness and effect of a call.  A pod event that would record an assignment without room for it is not a step of
    the relation, because the code records it unchecked: \<open>Interleaving\<close> and \<open>Recovery\<close> have the runs where that happens.
  \<^item> \<open>Webhook\<close>, \<open>Service\<close>: \<open>pkg/scheduler/webhook.go\<close>, \<open>pkg/scheduler/routes/route.go\<close>, \<open>cmd/scheduler/metrics.go\<close> and
    \<open>cmd/vGPUmonitor/metrics.go\<close>.
  \<^item> \<open>Nodelock\<close>, \<open>Handover\<close>: \<open>pkg/util/nodelock\<close> against an API server with object versions and interfering
    clients, and the end of an allocation in \<open>pkg/device/devices.go\<close>.  Mutual exclusion without
    interference, its failure with it, and a bound on the number of calls.
  \<^item> \<open>Event_Loop\<close>: the runs of a daemon as an inductive relation over its turns, and a locale that carries an
    invariant of the turns to every run.  A second locale extends it with a meter for what turns may leak.  Both are
    interpreted for the NVIDIA and for the Cambricon process.
  \<^item> \<open>Rm_Devices\<close>, \<open>Rm_Alloc\<close>, \<open>Mig_Caps\<close>: \<open>nvinternal/rm\<close> and \<open>nvinternal/mig\<close> below
    \<open>pkg/device-plugin/nvidiadevice\<close>: device maps, MIG devices and their capability files, time-slicing,
    distributed allocation and health checks.
  \<^item> \<open>Nvidia_Plugin\<close>, \<open>Cdi\<close>, \<open>Nvidia_Manager\<close>, \<open>Nvidia_Main\<close>: \<open>nvinternal/plugin\<close>, \<open>nvinternal/cdi\<close>,
    \<open>nvinternal/plugin/manager\<close> and \<open>cmd/device-plugin/nvidia\<close>: the allocation call, the life cycle of a plugin and
    its registration, the specification files of CDI, the managers, the flags, and the loop of the process with
    an invariant on channels and on the servers that run, those left behind by a failed start included.  The calls of
    \<open>Allocate\<close> that keep the node locked are characterised.  CDI is announced only when its specifications have been saved.
  \<^item> \<open>Mlu_Allocator\<close>, \<open>Mlu_Devices\<close>, \<open>Mlu_Bindings\<close>, \<open>Mlu_Plugin\<close>, \<open>Mlu_Main\<close>: \<open>pkg/device-plugin/mlu\<close> and
    \<open>cmd/device-plugin/mlu\<close>.  The three allocators satisfy one locale; the breadth-first search over links has
    a termination proof; the process runs one server at a time, and its health checks are counted, also those that a stop does
    not end.
  \<^item> \<open>Dcu_Cores\<close>, \<open>Dcu_Plugin\<close>, \<open>Dcu_Hardware\<close>: \<open>pkg/device-plugin/hygon/dcu\<close> and \<open>cmd/device-plugin/hygon\<close>.  Core masks
    as strings refine bit lists; the directory of virtual devices is the state that survives a restart; the
    firmware table of the kernel is read back.
  \<^item> \<open>Interleaving\<close>: \<open>Filter\<close> split where it holds no lock, into a plan and a commit, and an inductive relation that
    interleaves the phases of several calls with pod events.  Calls that choose different nodes keep the
    invariant of the scheduler; calls for the same node, or an update of the pod in between, can break it.
  \<^item> \<open>Recovery\<close>: scheduler and stored pods side by side, through creation, placement, other annotations, completion,
    deletion and repeated delivery.  While the two agree, a restarted scheduler that reads the stored pods counts the
    same usage; they stop to agree when a placed pod is filtered again in vain, and then a device can be over-committed.
  \<^item> \<open>Turns\<close>: the pods at the API server together with the node lock, over \<open>Bind\<close> and the end of an allocation.  While
    every \<open>Bind\<close> gets the lock, one pod of a node is allocated at a time and the plugin finds it; a \<open>Bind\<close>
    that does not get the lock goes on, and the plugin confuses the pods.
  \<^item> \<open>Reporting\<close>: what a plugin writes into the annotations of its node and how one pass of the registration
    reads it.
  \<^item> \<open>Oci\<close>: \<open>pkg/oci\<close>, specifications in files and the runtime that is entered by \<open>exec\<close>.
  \<^item> \<open>Monitor\<close>: \<open>cmd/vGPUmonitor\<close>, over regions shared with the containers.  A round of feedback equals a
    reference over counts of active tasks, and blocking ends within a bounded number of rounds.
  \<^item> \<open>Region_Layout\<close>: the bytes of those regions.  The offsets follow from the rules for structs, and the updates of the
    feedback are writes of four bytes each; files that are too short, and a reader that mistakes the layout.

  \<^bold>\<open>From end to end.\<close>  Two theorems of this theory join components over the annotations.  The cards
  that a plugin reports are the devices that the scheduler registers, with the reported capacity; and the
  assignment that \<open>Filter\<close> records is what the plugin gives to the container after \<open>Bind\<close>, provided that no other pod
  of the node is being allocated, which is what \<open>Turns\<close> derives from the node lock.  Lemmas at the end
  show that the resources the plugins register are those that the backends of the scheduler look for.  A
  call of the extender finds a node exactly when the cards allow it and records an assignment that fits;
  what it writes is read back by a restarted scheduler and by the plugin; the plugin limits the
  container to it and releases the lock.  Several theorems describe where this chain breaks:
  pods with several containers lose the boundaries between them, Cambricon and Hygon assignments
  are never handed over, a refused update lets the node lock be overwritten, a \<open>Bind\<close> without the lock crosses two
  pods, overlapping calls of \<open>Filter\<close> give away the same share twice, a record that was dropped comes back without a look at
  the devices, and cores are given twice between two refreshes.

  \<^bold>\<open>Loops and bounds.\<close>  No definition uses fuel.  Loops over lists and maps are structural; the search over links
  and the scanner of formats are functions with a measure; retry loops run a fixed number of times.
  Endless loops are modelled by one round, and statements about many rounds count them.

  \<^bold>\<open>Not modelled.\<close>  The \<open>main\<close> functions of scheduler and monitor, which start the modelled parts as goroutines and
  serve HTTP; generated gRPC and mock code; the creation of Kubernetes clients; the sample collector of
  the monitor; logging.  The C libraries (NVML, CNDEV, libdrm, hwloc), the CDI libraries, the tool cntopo, inotify
  and gRPC are arguments where the program uses them.  The operations of the registries
  and a round of the monitor are atomic, as the mutexes around them make them; of the extender's calls, \<open>Filter\<close> is
  split at its gap in \<open>Interleaving\<close> and atomic elsewhere, and data races on the maps that \<open>getNodesUsage\<close> reads without
  a lock are not modelled.
\<close>

section \<open>From the scheduler to the container\<close>

text \<open>C1: the whole way of an assignment.  When the extender's \<open>Filter\<close> has picked a node for a pod that
  requests GPUs and \<open>Bind\<close> has marked the pod, and no other pod of that node is being allocated, then the device
  plugin on that node, asked by the kubelet for as many devices as the pod requests, finds the pod and gives its container exactly the cards that
  the scheduler recorded, in that order, with the recorded share of memory for each and of cores, and
  releases the lock of the node.\<close>
theorem assignment_reaches_container:
  assumes "sched_inv s" and "env_ok env" and "single_type_requests env p s [(idx, k)]"
    and "rq_Type k = NvidiaGPUDevice" and "fe_inreq env = InRequestDevices" and "fe_support env = SupportDevices"
    and "fe_patch env = api_patch" and "merges api_patch" and "\<And>a q. \<exists>a'. api_patch a q = Inr a'"
    and "\<forall>n ds d. registered (sc_nodes s) n = Some ds \<longrightarrow> d \<in> set ds \<longrightarrow> plain_name (di_ID d)"
    and "filter_total (Resourcereqs (fe_cfg env) (fe_devs env) p) \<noteq> 0" and "pod_Containers p = c # cs"
    and "mget (pod_Annotations p) AssignedIDsToAllocateAnnotations = None"
    and "Filter env p nodeNames s = Inr (s', annos', Inr r)" and "flt_NodeNames r = Some ns"
    and "be_get benv = Inr (p\<lparr>pod_Annotations := annos'\<rparr>)" and "be_patch benv = (\<lambda>q. api_patch (pod_Annotations q))"
    and "bo_annotations (Bind benv) = Some annos"
    and "int (length ids) = rq_Nums k" and "\<not> Contains (hd ids) ''MIG''"
    and "pc_strategy cfg = DeviceIDStrategyUUID" and "\<not> pc_cdiEnabled cfg" and "cl_annos st = annos"
    and "p\<lparr>pod_Annotations := annos\<rparr> \<in> set pods" and "length (filter (is_pending_on (hd ns)) pods) \<le> 1"
  shows "\<exists>n sel res st'. ns = [n] \<and> mget (sc_pods s') (pod_UID p) = Some (make_pod_info p n [(NvidiaGPUDevice, [sel])])
     \<and> Allocate cfg penv api_patch InRequestDevices True (Inr pods) n [ids] st = (Inr [res], st')
     \<and> mget (ar_Envs res) ''NVIDIA_VISIBLE_DEVICES'' = Some (Join (map cd_UUID sel) '','')
     \<and> (\<forall>i<length sel. mget (ar_Envs res) (limit_key i) = Some (Itoa (cd_Usedmem (sel ! i)) @ ''m''))
     \<and> mget (ar_Envs res) ''CUDA_DEVICE_SM_LIMIT'' = Some (Itoa (cd_Usedcores (hd sel)))
     \<and> cl_lock st' = snd (ReleaseNodeLock (cl_lock st))"
proof -
  let ?key = "''hami.sh/vgpu-devices-to-allocate''" and ?current = "p\<lparr>pod_Annotations := annos\<rparr>"
  obtain n sel where n: "ns = [n]" and pods: "sc_pods s' = addPod p n [(NvidiaGPUDevice, [sel])] (delPod p (sc_pods s))"
    and enc: "list_all container_device_ok sel" and num: "int (length sel) = rq_Nums k"
    and key: "mget annos' ?key = Some (EncodePodSingleDevice [sel])" and node: "mget annos' AssignedNodeAnnotations = Some n"
    and rest: "\<And>key. key \<notin> {AssignedNodeAnnotations, AssignedTimeAnnotations, ?key, ''hami.sh/vgpu-devices-allocated''}
        \<Longrightarrow> mget annos' key = mget (pod_Annotations p) key"
    using Filter_gpu_assignment [OF assms(1-6) _ assms(10,14,15,11)] assms(7,8) by metis
  note bound = Bind_annotations [OF assms(16,17,8,18)]
  have "rq_Nums k \<noteq> 0"
    using assms(3,11) by (simp add: single_type_requests_def requests_of_def filter_total_def request_sum_def)
  then have ne: "concat [sel] \<noteq> []" and len: "length ids = length (concat [sel])" using num assms(19) by auto
  have "is_pending_on n ?current" using bound node by (simp add: is_pending_on_def annotation_names)
  then have pending: "GetPendingPod (Inr pods) n = Inr ?current" using GetPendingPod_only [of n pods ?current] assms(24,25) n by simp
  have stored: "mget (pod_Annotations ?current) ?key = Some (EncodePodSingleDevice [sel])"
    using bound [of ?key] key by (simp add: annotation_names)
  have fresh: "mget (pod_Annotations ?current) AssignedIDsToAllocateAnnotations = None"
    using bound [of AssignedIDsToAllocateAnnotations] rest [of AssignedIDsToAllocateAnnotations] assms(13) by (simp add: annotation_names)
  have names: "?key \<noteq> AssignedIDsToAllocateAnnotations" "?key \<noteq> DeviceBindPhase" by (simp_all add: annotation_names)
  have inreq: "InRequestDevices = [(NvidiaGPUDevice, ?key)]" by (simp add: InRequestDevices_def device_names)
  have st: "cl_annos st = pod_Annotations ?current" and ctr: "pod_Containers ?current = c # cs"
    and ok: "list_all container_device_ok (concat [sel])" using assms(12,23) enc by simp_all
  obtain res st' where a: "Allocate cfg penv api_patch InRequestDevices True (Inr pods) n [ids] st = (Inr [res], st')"
    "mget (ar_Envs res) ''NVIDIA_VISIBLE_DEVICES'' = Some (Join (map cd_UUID sel) '','')"
    "\<forall>i<length ids. mget (ar_Envs res) (limit_key i) = Some (Itoa (cd_Usedmem (sel ! i)) @ ''m'')"
    "mget (ar_Envs res) ''CUDA_DEVICE_SM_LIMIT'' = Some (Itoa (cd_Usedcores (hd sel)))"
    "cl_lock st' = snd (ReleaseNodeLock (cl_lock st))"
    using Allocate_of_assignment [OF pending st stored ok ne ctr len assms(20-22,8,9) fresh names, of penv] inreq
    by (metis append_Nil2 concat.simps)
  have "mget (sc_pods s') (pod_UID p) = Some (make_pod_info p n [(NvidiaGPUDevice, [sel])])"
    unfolding pods by (simp add: addPod_def delPod_mdel)
  then show ?thesis using n a len by auto
qed

definition example_bind :: "annotations \<Rightarrow> bind_env" where
  "example_bind annos = \<lparr>be_get = Inr (example_gpu_pod\<lparr>pod_Annotations := annos\<rparr>), be_lock = Inr (),
     be_patch = (\<lambda>q. patch_always (pod_Annotations q)), be_bind = Inr (), be_now = 1700000001\<rparr>"

theorem assignment_reaches_container_witness:
  "\<exists>s' annos' r annos n sel res st'. Filter example_env example_gpu_pod [''node1'', ''node2''] example_start = Inr (s', annos', Inr r)
     \<and> bo_annotations (Bind (example_bind annos')) = Some annos
     \<and> Allocate example_cfg example_plugin_env patch_always InRequestDevices True
         (Inr [example_pod, example_gpu_pod\<lparr>pod_Annotations := annos\<rparr>]) n [[''GPU-1-0'']] \<lparr>cl_annos = annos, cl_lock = example_world [] []\<rparr>
         = (Inr [res], st')
     \<and> mget (ar_Envs res) ''NVIDIA_VISIBLE_DEVICES'' = Some (Join (map cd_UUID (sel :: container_devices)) '','')"
proof -
  let ?k = "snd (hd example_rs)"
  obtain s' annos' r n' where f:
    "Filter example_env example_gpu_pod [''node1'', ''node2''] example_start = Inr (s', annos', Inr r)"
    and n: "flt_NodeNames r = Some [n']"
    using example_Filter by blast
  have env: "fe_inreq example_env = InRequestDevices" "fe_support example_env = SupportDevices" "fe_patch example_env = patch_always"
    by (simp_all add: example_env_def)
  have patch: "\<exists>a'. patch_always a q = Inr a'" for a q by (simp add: patch_always_def)
  have plain: "\<forall>n ds d. registered (sc_nodes example_start) n = Some ds \<longrightarrow> d \<in> set ds \<longrightarrow> plain_name (di_ID d)"
    by (auto simp: example_start_def example_registered plain_name_def example_info_def)
  have ctr: "pod_Containers example_gpu_pod = example_gpu_container # []" by (simp add: example_gpu_pod_def)
  have fresh: "mget (pod_Annotations example_gpu_pod) AssignedIDsToAllocateAnnotations = None"
    by (simp add: example_gpu_pod_def example_pod_def annotation_names)
  have bind: "be_get (example_bind annos') = Inr (example_gpu_pod\<lparr>pod_Annotations := annos'\<rparr>)"
    "be_patch (example_bind annos') = (\<lambda>q. patch_always (pod_Annotations q))" by (simp_all add: example_bind_def)
  obtain annos where b: "bo_annotations (Bind (example_bind annos')) = Some annos"
    using bind by (simp add: Bind_def patch_always_def)
  have ids: "int (length [''GPU-1-0'']) = rq_Nums ?k" "\<not> Contains (hd [''GPU-1-0'']) ''MIG''"
    by (simp add: example_rs_def, code_simp)
  have cfg: "pc_strategy example_cfg = DeviceIDStrategyUUID" "\<not> pc_cdiEnabled example_cfg" by (simp_all add: example_cfg_def)
  have st: "cl_annos \<lparr>cl_annos = annos, cl_lock = example_world [] []\<rparr> = annos" by simp
  have only: "example_gpu_pod\<lparr>pod_Annotations := annos\<rparr> \<in> set [example_pod, example_gpu_pod\<lparr>pod_Annotations := annos\<rparr>]"
    "length (filter (is_pending_on (hd [n'])) [example_pod, example_gpu_pod\<lparr>pod_Annotations := annos\<rparr>]) \<le> 1"
    by (simp_all add: is_pending_on_def example_pod_def annotation_names)
  obtain n sel res st' where "Allocate example_cfg example_plugin_env patch_always InRequestDevices True
         (Inr [example_pod, example_gpu_pod\<lparr>pod_Annotations := annos\<rparr>]) n [[''GPU-1-0'']] \<lparr>cl_annos = annos, cl_lock = example_world [] []\<rparr>
         = (Inr [res], st')"
    "mget (ar_Envs res) ''NVIDIA_VISIBLE_DEVICES'' = Some (Join (map cd_UUID (sel :: container_devices)) '','')"
    using assignment_reaches_container [OF example_start_inv example_env_ok example_hyps(1,3) env merges_patch_always patch plain
      example_total ctr fresh f n bind b ids cfg st only, of example_plugin_env] by (elim exE conjE) (rule that)
  then show ?thesis
    using f b by (intro exI [of _ s'] exI [of _ annos'] exI [of _ r] exI [of _ annos] exI [of _ n] exI [of _ sel]
        exI [of _ res] exI [of _ st'] conjI)
qed

section \<open>From the cards to the scheduler\<close>

lemma new_devices_all: "new_devices 0 nds [] = map (\<lambda>(i, d). make_device_info i d) (enumerate 0 nds)"
  by (simp add: new_devices_def)

lemma pass_one_node:
  assumes "nodes_wf (sc_nodes s)" and "registered (sc_nodes s) (no_Name val) = None" and "distinct (map ad_Id nds)" and "nds \<noteq> []"
    and "register_devices env val known \<lparr>rg_nodes = sc_nodes s, rg_copy = copy, rg_patches = []\<rparr> =
      Inr (come (no_Name val) h nds \<lparr>rg_nodes = sc_nodes s, rg_copy = copy, rg_patches = ps\<rparr>)"
  shows "\<exists>s' copy'. RegisterFromNodeAnnotatons env known (Inr [val]) (s, copy) = Inr (s', copy', ps)
     \<and> nodes_wf (sc_nodes s') \<and> sc_pods s' = sc_pods s
     \<and> (\<forall>k. registered (sc_nodes s') k = (if k = no_Name val then Some (new_devices 0 nds []) else registered (sc_nodes s) k))
     \<and> mget (InspectAllNodesUsage s') (no_Name val) = node_usage s' (no_Name val)"
proof -
  let ?rg = "come (no_Name val) h nds \<lparr>rg_nodes = sc_nodes s, rg_copy = copy, rg_patches = ps\<rparr>"
  let ?s1 = "s\<lparr>sc_nodes := rg_nodes ?rg\<rparr>" and ?s' = "fst (getNodesUsage [no_Name val] (s\<lparr>sc_nodes := rg_nodes ?rg\<rparr>))"
  have rep: "reported (no_Name val) h nds [] \<lparr>rg_nodes = sc_nodes s, rg_copy = copy, rg_patches = ps\<rparr> ?rg"
    using come_reported [of "\<lparr>rg_nodes = sc_nodes s, rg_copy = copy, rg_patches = ps\<rparr>" nds "no_Name val" h] assms(1-3) by simp
  have patches: "rg_patches ?rg = ps" by (simp add: come_def split: prod.splits)
  have run: "RegisterFromNodeAnnotatons env known (Inr [val]) (s, copy) = Inr (?s', rg_copy ?rg, ps)"
    using assms(5) patches by (simp add: RegisterFromNodeAnnotatons_def)
  have wf: "nodes_wf (sc_nodes ?s1)" using rep by (simp add: reported_def)
  have reg: "registered (sc_nodes ?s') k = (if k = no_Name val then Some (new_devices 0 nds []) else registered (sc_nodes s) k)" for k
    using rep assms(4) by (simp add: reported_def)
  have "mget (InspectAllNodesUsage ?s') (no_Name val) = node_usage ?s' (no_Name val)"
    using getNodesUsage_overview [OF wf, of "[no_Name val]" "no_Name val"] by (simp add: InspectAllNodesUsage_def node_usage_def)
  then show ?thesis using run wf reg by (intro exI [of _ ?s'] exI [of _ "rg_copy ?rg"]) simp
qed


definition example_cards :: "nat \<Rightarrow> card_info option" where
  "example_cards i = (if i = 0 then Some \<lparr>ci_memory = 17179869184, ci_UUID = ''GPU-7'', ci_Model = ''Tesla V100''\<rparr> else None)"

definition example_register_flags :: register_flags where
  "example_register_flags = \<lparr>rf_DeviceSplitCount = 10, rf_DeviceMemoryScaling = 1, rf_DeviceCoresScaling = 1\<rparr>"


section \<open>The resources on offer are the resources asked for\<close>

text \<open>
  A pod asks for devices by the resource names that the scheduler's backends look for.  With the default
  flags each plugin registers one of these names at the kubelet: the NVIDIA plugin the number of GPUs, the
  Hygon plugin the number of DCUs, and the Cambricon plugin the number or, when cards are shared, the memory
  of the MLUs, unless it was told to register the model of its cards.
\<close>

lemma nvidia_serves_requested:
  "flag \<in> set (addFlags nodeName) \<Longrightarrow> fl_Name flag = ''resource-name'' \<Longrightarrow> fl_Value flag = StringFlag (ResourceName GlobalFlagSet)"
  by (auto simp: addFlags_def config_defs)

lemma hygon_serves_requested:
  "map (\<lambda>name. GetResourceNamespace @ ''/'' @ name) (concat (Discover (hygon_updates (Inr ())))) = [HygonResourceCount GlobalFlagSet]"
  by (simp add: hygon_updates_def GetResourceNamespace_def config_defs)

lemma mlu_serves_requested:
  "\<not> mo_EnableDeviceType opts \<Longrightarrow> mlu_resourceName opts model =
     Inr (if mo_Mode opts = mode_mluShare then MLUResourceMemory GlobalFlagSet else MLUResourceCount GlobalFlagSet)"
  by (simp add: mlu_resourceName_def mluMemResourceName_def config_defs)

end
